theory Spec2Isabelle
  imports Complex_Main "HOL-Library.Multiset"
begin

section \<open>Strings\<close>

text \<open>
  The dispatch page works on JavaScript strings. They are modelled as \<open>string\<close>
  (a list of characters) and taken to be ASCII: \<open>toUpperCase\<close> maps \<open>a..z\<close> to
  \<open>A..Z\<close> and leaves every other character alone, \<open>trim\<close> removes the ASCII
  white space (tab, line feed, vertical tab, form feed, carriage return, space) at both
  ends. A string is falsy exactly when it is empty.
\<close>

definition upper_letters :: string where
  "upper_letters = ''ABCDEFGHIJKLMNOPQRSTUVWXYZ''"

definition lower_letters :: string where
  "lower_letters = ''abcdefghijklmnopqrstuvwxyz''"

definition digits :: string where
  "digits = ''0123456789''"

definition is_upper :: "char \<Rightarrow> bool" where
  "is_upper c = (c \<in> set upper_letters)"

definition is_digit :: "char \<Rightarrow> bool" where
  "is_digit c = (c \<in> set digits)"

definition is_space :: "char \<Rightarrow> bool" where
  "is_space c = (c \<in> set [CHR 0x09, CHR 0x0A, CHR 0x0B, CHR 0x0C, CHR 0x0D, CHR '' ''])"

definition upper_char :: "char \<Rightarrow> char" where
  "upper_char c = (case map_of (zip lower_letters upper_letters) c of Some u \<Rightarrow> u | None \<Rightarrow> c)"

definition toUpperCase :: "string \<Rightarrow> string" where
  "toUpperCase s = map upper_char s"

definition trim :: "string \<Rightarrow> string" where
  "trim s = rev (dropWhile is_space (rev (dropWhile is_space s)))"

section \<open>Postal normalizer\<close>

text \<open>
  \<^verbatim>\<open>
  function normalizePostal(s){
    s = String(s || '').toUpperCase().trim();
    s = s.replace(/[^A-Z0-9]/g,'');
    if (s.length >= 6) s = s.slice(0,6);
    if (s.length !== 6) return '';
    if (!/^[A-Z]\d[A-Z]\d[A-Z]\d$/.test(s)) return '';
    return s;
  }
  \<close>
  The failure value is the empty string.
\<close>

fun postal_pattern :: "string \<Rightarrow> bool" where
  "postal_pattern [a, b, c, d, e, f] =
     (is_upper a \<and> is_digit b \<and> is_upper c \<and> is_digit d \<and> is_upper e \<and> is_digit f)"
| "postal_pattern _ = False"

definition normalizePostal :: "string \<Rightarrow> string" where
  "normalizePostal s0 =
     (let s1 = trim (toUpperCase s0);
          s2 = filter (\<lambda>c. is_upper c \<or> is_digit c) s1;
          s3 = (if length s2 \<ge> 6 then take 6 s2 else s2)
      in if length s3 \<noteq> 6 then ''''
         else if \<not> postal_pattern s3 then ''''
         else s3)"

text \<open>
  \<^verbatim>\<open>
  function formatPostal(p6){
    const p = normalizePostal(p6);
    if (!p) return '';
    return p.slice(0,3) + ' ' + p.slice(3);
  }
  \<close>
\<close>

definition formatPostal :: "string \<Rightarrow> string" where
  "formatPostal p6 =
     (let p = normalizePostal p6
      in if p = '''' then '''' else take 3 p @ '' '' @ drop 3 p)"

section \<open>Geolocation resolver\<close>

text \<open>
  Coordinates are numbers of the page; they are modelled as reals (the rounding of
  IEEE doubles is left out). A resolved location carries its precision tier:
  \<open>'postal'\<close> (exact override), \<open>'city'\<close> or \<open>'prov'\<close> (region centroid); an
  unresolved location is \<open>null\<close>, here \<open>None\<close>.
\<close>

record coord =
  lat :: real
  lon :: real

datatype prec = Postal | City | Prov

record ll = coord +
  prec :: prec
  prov :: string
  ll_city :: string

record tech =
  tech_id :: string
  name :: string
  city :: string
  province :: string
  postal :: string

text \<open>
  \<^verbatim>\<open>
  function provFromFirstLetter(ch){
    const c = String(ch||'').toUpperCase();
    if (c === 'A') return 'NL';
    ...
    return '';
  }
  \<close>
\<close>

definition provFromFirstLetter :: "string \<Rightarrow> string" where
  "provFromFirstLetter ch =
     (let c = toUpperCase ch in
      if c = ''A'' then ''NL''
      else if c = ''B'' then ''NS''
      else if c = ''C'' then ''PE''
      else if c = ''E'' then ''NB''
      else if c = ''G'' \<or> c = ''H'' \<or> c = ''J'' then ''QC''
      else if c = ''K'' \<or> c = ''L'' \<or> c = ''M'' \<or> c = ''N'' \<or> c = ''P'' then ''ON''
      else if c = ''R'' then ''MB''
      else if c = ''S'' then ''SK''
      else if c = ''T'' then ''AB''
      else if c = ''V'' then ''BC''
      else if c = ''X'' then ''NT''
      else if c = ''Y'' then ''YT''
      else '''')"

text \<open>
  The static tables are object literals; a lookup is \<open>map_of\<close> on the list of their
  entries. Every key that the resolver looks up is upper-cased (regions) or contains
  \<open>|\<close> (city keys), so none of its lookups reaches a member inherited from
  \<open>Object.prototype\<close>, whose names all have lower-case letters. The lookup of
  \<open>PROV_PENALTY\<close> in \<open>effectiveDriveFactor\<close> takes the region of the coordinate
  it is given as it is; its model, \<open>prov_penalty\<close> below, includes the inherited
  members.
\<close>

definition PROV_PENALTY :: "(string \<times> real) list" where
  "PROV_PENALTY =
     [(''QC'', 5.40), (''ON'', 6.00), (''BC'', 8.00), (''AB'', 7.00), (''MB'', 6.50),
      (''SK'', 6.50), (''NB'', 5.80), (''NS'', 5.80), (''PE'', 5.80), (''NL'', 6.20),
      (''YT'', 8.50), (''NT'', 9.00), (''NU'', 9.50)]"

definition PROV_CENTER :: "(string \<times> coord) list" where
  "PROV_CENTER =
     [(''NL'', \<lparr>lat = 47.5615, lon = -52.7126\<rparr>),
      (''NS'', \<lparr>lat = 44.6488, lon = -63.5752\<rparr>),
      (''PE'', \<lparr>lat = 46.2382, lon = -63.1311\<rparr>),
      (''NB'', \<lparr>lat = 45.9636, lon = -66.6431\<rparr>),
      (''QC'', \<lparr>lat = 45.5017, lon = -73.5673\<rparr>),
      (''ON'', \<lparr>lat = 43.6532, lon = -79.3832\<rparr>),
      (''MB'', \<lparr>lat = 49.8951, lon = -97.1384\<rparr>),
      (''SK'', \<lparr>lat = 50.4452, lon = -104.6189\<rparr>),
      (''AB'', \<lparr>lat = 53.5461, lon = -113.4938\<rparr>),
      (''BC'', \<lparr>lat = 49.2827, lon = -123.1207\<rparr>),
      (''NT'', \<lparr>lat = 62.4540, lon = -114.3718\<rparr>),
      (''NU'', \<lparr>lat = 63.7467, lon = -68.5167\<rparr>),
      (''YT'', \<lparr>lat = 60.7212, lon = -135.0568\<rparr>)]"

definition CITY_COORD :: "(string \<times> coord) list" where
  "CITY_COORD =
     [(''FREDERICKTON|NB'', \<lparr>lat = 45.9636, lon = -66.6431\<rparr>),
      (''FREDERICTON|NB'', \<lparr>lat = 45.9636, lon = -66.6431\<rparr>),
      (''WINNIPEG|MB'', \<lparr>lat = 49.8951, lon = -97.1384\<rparr>),
      (''CALGARY|AB'', \<lparr>lat = 51.0447, lon = -114.0719\<rparr>),
      (''LAVAL|QC'', \<lparr>lat = 45.6066, lon = -73.7124\<rparr>),
      (''THORNHILL|ON'', \<lparr>lat = 43.8106, lon = -79.4263\<rparr>),
      (''EDMONTON|AB'', \<lparr>lat = 53.5461, lon = -113.4938\<rparr>),
      (''RICHMOND (VANCOUVER)|BC'', \<lparr>lat = 49.1666, lon = -123.1336\<rparr>),
      (''RICHMOND|BC'', \<lparr>lat = 49.1666, lon = -123.1336\<rparr>),
      (''SCARBOROUGH|ON'', \<lparr>lat = 43.7764, lon = -79.2318\<rparr>)]"

text \<open>
  The page's two inputs from outside: the roster \<open>TECHS\<close> and the optional
  postal-to-province mapping \<open>POSTAL_PROV\<close> (an empty object when absent).
  \<^verbatim>\<open>
  const POSTAL_OVERRIDE = Object.create(null);
  for (const t of TECHS){
    const p = normalizePostal(t.postal);
    if (!p) continue;
    const key = (String(t.city||'').toUpperCase().trim() + '|'
                 + String(t.province||'').toUpperCase().trim());
    const cc = CITY_COORD[key];
    if (cc) POSTAL_OVERRIDE[p] = cc;
  }
  \<close>
\<close>

fun override_loop :: "tech list \<Rightarrow> (string \<rightharpoonup> coord) \<Rightarrow> (string \<rightharpoonup> coord)" where
  "override_loop [] m = m"
| "override_loop (t # ts) m =
     (let p = normalizePostal (postal t) in
      if p = '''' then override_loop ts m
      else
        let key = trim (toUpperCase (city t)) @ ''|'' @ trim (toUpperCase (province t)) in
        case map_of CITY_COORD key of
          Some cc \<Rightarrow> override_loop ts (m(p \<mapsto> cc))
        | None \<Rightarrow> override_loop ts m)"

definition POSTAL_OVERRIDE :: "tech list \<Rightarrow> (string \<rightharpoonup> coord)" where
  "POSTAL_OVERRIDE TECHS = override_loop TECHS Map.empty"

text \<open>
  \<^verbatim>\<open>
  function provForPostal(p6){
    const p = normalizePostal(p6);
    if (!p) return '';
    const prov = POSTAL_PROV[p];
    if (prov) return String(prov).toUpperCase();
    return provFromFirstLetter(p[0]);
  }
  \<close>
\<close>

definition provForPostal :: "(string \<rightharpoonup> string) \<Rightarrow> string \<Rightarrow> string" where
  "provForPostal POSTAL_PROV p6 =
     (let p = normalizePostal p6 in
      if p = '''' then ''''
      else case POSTAL_PROV p of
        Some pr \<Rightarrow> if pr \<noteq> '''' then toUpperCase pr else provFromFirstLetter (take 1 p)
      | None \<Rightarrow> provFromFirstLetter (take 1 p))"

text \<open>
  A hint is \<open>null\<close> (\<open>None\<close>) or a string; it is truthy when it is a non-empty string.
  \<^verbatim>\<open>
  function latLonForPostal(p6, cityHint, provHint){
    const p = normalizePostal(p6);
    if (!p) return null;
    const prov = (provHint ? String(provHint).toUpperCase().trim() : provForPostal(p));
    const city = cityHint ? String(cityHint).toUpperCase().trim() : '';
    if (POSTAL_OVERRIDE[p]){
      const c = POSTAL_OVERRIDE[p];
      return { lat: c.lat, lon: c.lon, prec: 'postal', prov, city };
    }
    if (city && prov){
      const k = city + '|' + prov;
      if (CITY_COORD[k]){
        const c = CITY_COORD[k];
        return { lat: c.lat, lon: c.lon, prec: 'city', prov, city };
      }
    }
    if (prov && PROV_CENTER[prov]){
      const c = PROV_CENTER[prov];
      return { lat: c.lat, lon: c.lon, prec: 'prov', prov, city: '' };
    }
    return null;
  }
  \<close>
\<close>

definition truthy :: "string option \<Rightarrow> bool" where
  "truthy h = (case h of None \<Rightarrow> False | Some s \<Rightarrow> s \<noteq> '''')"

definition hint_prov :: "(string \<rightharpoonup> string) \<Rightarrow> string \<Rightarrow> string option \<Rightarrow> string" where
  "hint_prov POSTAL_PROV p provHint =
     (if truthy provHint then trim (toUpperCase (the provHint)) else provForPostal POSTAL_PROV p)"

definition hint_city :: "string option \<Rightarrow> string" where
  "hint_city cityHint = (if truthy cityHint then trim (toUpperCase (the cityHint)) else '''')"

definition mk_ll :: "coord \<Rightarrow> prec \<Rightarrow> string \<Rightarrow> string \<Rightarrow> ll" where
  "mk_ll c pr pv ct = \<lparr>lat = lat c, lon = lon c, prec = pr, prov = pv, ll_city = ct\<rparr>"

definition latLonForPostal ::
  "tech list \<Rightarrow> (string \<rightharpoonup> string) \<Rightarrow> string \<Rightarrow> string option \<Rightarrow> string option \<Rightarrow> ll option" where
  "latLonForPostal TECHS POSTAL_PROV p6 cityHint provHint =
     (let p = normalizePostal p6 in
      if p = '''' then None
      else
        let pv = hint_prov POSTAL_PROV p provHint;
            ct = hint_city cityHint
        in case POSTAL_OVERRIDE TECHS p of
          Some c \<Rightarrow> Some (mk_ll c Postal pv ct)
        | None \<Rightarrow>
           (case (if ct \<noteq> '''' \<and> pv \<noteq> '''' then map_of CITY_COORD (ct @ ''|'' @ pv) else None) of
              Some c \<Rightarrow> Some (mk_ll c City pv ct)
            | None \<Rightarrow>
               (case (if pv \<noteq> '''' then map_of PROV_CENTER pv else None) of
                  Some c \<Rightarrow> Some (mk_ll c Prov pv '''')
                | None \<Rightarrow> None)))"

section \<open>Distance estimator\<close>

text \<open>
  \<^verbatim>\<open>
  function haversineKm(a, b){
    const R = 6371;
    const toRad = (x)=>x * Math.PI / 180;
    const dLat = toRad(b.lat - a.lat);
    const dLon = toRad(b.lon - a.lon);
    const lat1 = toRad(a.lat);
    const lat2 = toRad(b.lat);
    const s = Math.sin(dLat/2)**2 + Math.cos(lat1)*Math.cos(lat2)*Math.sin(dLon/2)**2;
    const c = 2 * Math.asin(Math.min(1, Math.sqrt(s)));
    return R * c;
  }
  \<close>
  \<open>Math.sqrt\<close> of a negative number is \<open>NaN\<close>, where HOL's \<open>sqrt\<close> is negative;
  \<open>haversine_s_nonneg\<close> below shows that \<open>s\<close> is never negative, so the two agree.
\<close>

definition toRad :: "real \<Rightarrow> real" where
  "toRad x = x * pi / 180"

definition haversine_s :: "'a coord_scheme \<Rightarrow> 'b coord_scheme \<Rightarrow> real" where
  "haversine_s a b =
     (let dLat = toRad (lat b - lat a);
          dLon = toRad (lon b - lon a);
          lat1 = toRad (lat a);
          lat2 = toRad (lat b)
      in (sin (dLat / 2))\<^sup>2 + cos lat1 * cos lat2 * (sin (dLon / 2))\<^sup>2)"

definition haversineKm :: "'a coord_scheme \<Rightarrow> 'b coord_scheme \<Rightarrow> real" where
  "haversineKm a b =
     (let R = 6371;
          s = haversine_s a b;
          c = 2 * arcsin (min 1 (sqrt s))
      in R * c)"

text \<open>
  The straight-line distance is taken over the reals: \<open>Math.sin\<close>, \<open>Math.cos\<close>,
  \<open>Math.asin\<close> and \<open>Math.sqrt\<close> are implementation-approximated in JavaScript, and so
  is every figure derived from them. The factor and the two ETA renderings below are
  plain arithmetic on numbers, and follow binary64.
\<close>

subsection \<open>Binary64 arithmetic\<close>

text \<open>
  A finite JavaScript number is a real with at most 53 significant bits and an exponent
  in the binary64 range. \<open>pow2 e\<close> is the power \<open>2 ^ e\<close> for an integer \<open>e\<close>.
  \<open>binade x\<close> is the exponent of the binade of \<open>x\<close>, the \<open>e\<close> with
  \<open>2 ^ e \<le> \<bar>x\<bar> < 2 ^ (e + 1)\<close>, kept within -1022 (below it the subnormal numbers
  share one spacing) and 1023; the two loops find it by halving or doubling at most
  1023 or 1022 times. The numbers of that binade are the multiples of \<open>2 ^ (e - 52)\<close>.
\<close>

definition pow2 :: "int \<Rightarrow> real" where
  "pow2 e = (if 0 \<le> e then 2 ^ nat e else 1 / 2 ^ nat (- e))"

fun binade_up :: "nat \<Rightarrow> real \<Rightarrow> int \<Rightarrow> int" where
  "binade_up 0 a e = e"
| "binade_up (Suc n) a e = (if 2 \<le> a then binade_up n (a / 2) (e + 1) else e)"

fun binade_down :: "nat \<Rightarrow> real \<Rightarrow> int \<Rightarrow> int" where
  "binade_down 0 a e = e"
| "binade_down (Suc n) a e = (if a < 1 then binade_down n (a * 2) (e - 1) else e)"

definition binade :: "real \<Rightarrow> int" where
  "binade x = (if 1 \<le> \<bar>x\<bar> then binade_up 1023 \<bar>x\<bar> 0 else binade_down 1022 \<bar>x\<bar> 0)"

text \<open>
  Every arithmetic operation returns the exact result rounded to the nearest number,
  a tie going to the one with the even significand (\<open>round64\<close>); a rounded result of
  magnitude \<open>2 ^ 1024\<close> or more is an infinity (\<open>binary64\<close>). A decimal literal of
  the source denotes the number nearest to it, so \<open>binary64\<close> also reads the literals
  that are not numbers themselves: \<open>1.8\<close> is read as \<open>binary64 1.8\<close>, the number
  \<open>8106479329266893 / 2 ^ 52\<close>, and likewise \<open>5.40\<close> or \<open>1.1\<close>; \<open>Fin x\<close> stands
  for a value of the program only when \<open>x\<close> is a number. The two zeros are not told
  apart: nothing that the page renders depends on the sign of a zero.
\<close>

definition round_even :: "real \<Rightarrow> int" where
  "round_even q =
     (let n = \<lfloor>q\<rfloor>; r = q - of_int n
      in if r < 1 / 2 then n else if 1 / 2 < r then n + 1 else if even n then n else n + 1)"

definition round64 :: "real \<Rightarrow> real" where
  "round64 x = (let u = pow2 (binade x - 52) in of_int (round_even (x / u)) * u)"

datatype jsnum = Fin real | PInf | NInf | NaN

definition binary64 :: "real \<Rightarrow> jsnum" where
  "binary64 x =
     (let y = round64 x
      in if pow2 1024 \<le> y then PInf else if y \<le> - pow2 1024 then NInf else Fin y)"

definition isFinite :: "jsnum \<Rightarrow> bool" where
  "isFinite x = (case x of Fin _ \<Rightarrow> True | _ \<Rightarrow> False)"

definition js_sgn :: "jsnum \<Rightarrow> real" where
  "js_sgn x = (case x of Fin v \<Rightarrow> sgn v | PInf \<Rightarrow> 1 | NInf \<Rightarrow> -1 | NaN \<Rightarrow> 0)"

text \<open>
  The product of two numbers: \<open>NaN\<close> when either is \<open>NaN\<close> or when an infinity meets
  a zero, an infinity of the product's sign when either is an infinity, and the rounded
  product otherwise (an infinity when it overflows).
\<close>

definition js_mul :: "jsnum \<Rightarrow> jsnum \<Rightarrow> jsnum" where
  "js_mul x y =
     (if x = NaN \<or> y = NaN then NaN
      else case (x, y) of
        (Fin a, Fin b) \<Rightarrow> binary64 (a * b)
      | _ \<Rightarrow> (let s = js_sgn x * js_sgn y
              in if s > 0 then PInf else if s < 0 then NInf else NaN))"

subsection \<open>The effective factor\<close>

text \<open>
  \<^verbatim>\<open>
  function clamp(x, lo, hi){
    x = Number(x);
    if (!isFinite(x)) return lo;
    return Math.max(lo, Math.min(hi, x));
  }
  \<close>
\<close>

definition clamp :: "jsnum \<Rightarrow> real \<Rightarrow> real \<Rightarrow> real" where
  "clamp x lo hi = (if \<not> isFinite x then lo else case x of Fin v \<Rightarrow> max lo (min hi v) | _ \<Rightarrow> lo)"

text \<open>
  \<^verbatim>\<open>
  function effectiveDriveFactor(base, ticketLL, techLL){
    let m = base;
    if (ticketLL && ticketLL.prec === 'prov'){
      const prov = ticketLL.prov || '';
      m *= (PROV_PENALTY[prov] || 6.0);
    }
    if (techLL && techLL.prec === 'prov'){
      m *= 1.8;
    }
    return clamp(m, 1, 12);
  }
  \<close>
  \<open>PROV_PENALTY[prov]\<close> is the table's entry for a region of the table and
  \<open>undefined\<close> for most other strings, and then the multiplier is 6.0. But
  \<open>PROV_PENALTY\<close> is an object literal, and \<open>prov\<close> is whatever region the given
  coordinate carries: for the name of a member that every object inherits from
  \<open>Object.prototype\<close> the lookup gives that member, a function (for \<open>__proto__\<close>
  the prototype itself), which is truthy and is not a number, so that the product is
  \<open>NaN\<close>.
\<close>

definition inherited :: "string list" where
  "inherited =
     [''constructor'', ''hasOwnProperty'', ''isPrototypeOf'', ''propertyIsEnumerable'',
      ''toLocaleString'', ''toString'', ''valueOf'', ''__proto__'',
      ''__defineGetter__'', ''__defineSetter__'', ''__lookupGetter__'', ''__lookupSetter__'']"

definition prov_penalty :: "string \<Rightarrow> jsnum" where
  "prov_penalty pv =
     (case map_of PROV_PENALTY pv of
        Some v \<Rightarrow> (let d = binary64 v in if d = Fin 0 then Fin 6 else d)
      | None \<Rightarrow> if pv \<in> set inherited then NaN else Fin 6)"

definition effectiveDriveFactor :: "jsnum \<Rightarrow> ll option \<Rightarrow> ll option \<Rightarrow> real" where
  "effectiveDriveFactor base ticketLL techLL =
     (let m0 = base;
          m1 = (case ticketLL of
                  Some t \<Rightarrow> if prec t = Prov then js_mul m0 (prov_penalty (prov t)) else m0
                | None \<Rightarrow> m0);
          m2 = (case techLL of
                  Some t \<Rightarrow> if prec t = Prov then js_mul m1 (binary64 1.8) else m1
                | None \<Rightarrow> m1)
      in clamp m2 1 12)"

subsection \<open>Rendering a number\<close>

text \<open>
  A template literal renders a number with the fewest decimal digits that read back as
  that number; of two such digit strings the one nearer to the number is taken, and of
  two equally near the one with the even last digit. The numbers rendered here are
  integers. Up to \<open>2 ^ 53\<close> every integer is a number, so these are all its digits.
  Beyond, \<open>shortest n\<close> is the integer that the digits denote: it tries the two
  multiples of \<open>10 ^ j\<close> next to \<open>n\<close>, from the largest \<open>j\<close> down (\<open>2 ^ 60\<close> is
  rendered \<open>1152921504606847000\<close>). Up to 21 digits are written out (the digits
  found, then zeros); a longer integer is written with an exponent (\<open>1.25e+306\<close>).
\<close>

fun show_nat :: "nat \<Rightarrow> string" where
  "show_nat n = (if n < 10 then [digits ! n] else show_nat (n div 10) @ [digits ! (n mod 10)])"

declare show_nat.simps [simp del]

definition reads_as :: "int \<Rightarrow> int \<Rightarrow> bool" where
  "reads_as c n = (round64 (of_int c) = of_int n)"

fun shortest_from :: "nat \<Rightarrow> int \<Rightarrow> int" where
  "shortest_from 0 n = n"
| "shortest_from (Suc j) n =
     (let p = 10 ^ Suc j;
          c1 = (n div p) * p;
          c2 = c1 + p
      in if reads_as c1 n \<and> reads_as c2 n then
           (if n - c1 < c2 - n then c1
            else if c2 - n < n - c1 then c2
            else if even (n div p) then c1 else c2)
         else if reads_as c1 n then c1
         else if reads_as c2 n then c2
         else shortest_from j n)"

definition shortest :: "int \<Rightarrow> int" where
  "shortest n = shortest_from (length (show_nat (nat n)) - 1) n"

definition strip_zeros :: "string \<Rightarrow> string" where
  "strip_zeros ds = rev (dropWhile (\<lambda>c. c = CHR ''0'') (rev ds))"

definition js_show_nat :: "nat \<Rightarrow> string" where
  "js_show_nat n =
     (if n < 2 ^ 53 then show_nat n
      else
        let ds = show_nat (nat (shortest (int n)))
        in if length ds \<le> 21 then ds
           else
             (case strip_zeros ds of
                [] \<Rightarrow> []
              | [d] \<Rightarrow> d # ''e+'' @ show_nat (length ds - 1)
              | d # rest \<Rightarrow> d # CHR ''.'' # rest @ ''e+'' @ show_nat (length ds - 1)))"

definition js_show :: "int \<Rightarrow> string" where
  "js_show i = (if i < 0 then CHR ''-'' # js_show_nat (nat (- i)) else js_show_nat (nat i))"

text \<open>
  \<open>Math.round x\<close> is \<open>\<lfloor>x + 1/2\<rfloor>\<close>, computed exactly. The page's dash (U+2014,
  written \<open>--\<close> in the listings below) is the three bytes of its UTF-8 encoding.
\<close>

definition js_round :: "real \<Rightarrow> int" where
  "js_round x = \<lfloor>x + 1 / 2\<rfloor>"

definition dash :: string where
  "dash = [CHR 0xE2, CHR 0x80, CHR 0x94]"

subsection \<open>The two ETA renderings\<close>

text \<open>
  \<^verbatim>\<open>
  function etaFromKm(km, speed){
    if (!isFinite(km) || !isFinite(speed) || speed <= 0) return '--';
    const hours = km / speed;
    const h = Math.floor(hours);
    const m = Math.round((hours - h) * 60);
    if (h <= 0) return `${m} min`;
    return `${h}h ${m}m`;
  }
  \<close>
  The quotient is rounded, and overflows when the speed is small enough: \<open>h\<close> is then
  that infinity and \<open>m\<close> is \<open>NaN\<close>. The difference \<open>hours - h\<close> lies in [0, 1] and
  its product with 60 in [0, 60]; both are rounded and neither overflows.
\<close>

definition etaFromKm :: "jsnum \<Rightarrow> jsnum \<Rightarrow> string" where
  "etaFromKm km speed =
     (case (km, speed) of
        (Fin k, Fin v) \<Rightarrow>
          if v \<le> 0 then dash
          else
            (case binary64 (k / v) of
               Fin hours \<Rightarrow>
                 let h = \<lfloor>hours\<rfloor>;
                     m = js_round (round64 (round64 (hours - of_int h) * 60))
                 in if h \<le> 0 then js_show m @ '' min''
                    else js_show h @ ''h '' @ js_show m @ ''m''
             | PInf \<Rightarrow> ''Infinityh NaNm''
             | NInf \<Rightarrow> ''NaN min''
             | NaN \<Rightarrow> ''NaNh NaNm'')
      | _ \<Rightarrow> dash)"

text \<open>
  \<^verbatim>\<open>
  function etaFromMinutes(min){
    if (!isFinite(min)) return '--';
    const total = Math.max(0, Math.round(Number(min)));
    const h = Math.floor(total / 60);
    const m = total % 60;
    if (h <= 0) return `${total} min`;
    return `${h}h ${m}m`;
  }
  \<close>
  The page calls it on a row's \<open>driveMin\<close>, which is \<open>null\<close> or a finite number;
  \<open>isFinite(null)\<close> is true and \<open>Number(null)\<close> is 0. The quotient is rounded; the
  remainder of two numbers is exact.
\<close>

definition etaFromMinutes :: "real option \<Rightarrow> string" where
  "etaFromMinutes mn =
     (let total = max 0 (js_round (case mn of None \<Rightarrow> 0 | Some v \<Rightarrow> v));
          h = \<lfloor>round64 (of_int total / 60)\<rfloor>;
          m = total mod 60
      in if h \<le> 0 then js_show total @ '' min''
         else js_show h @ ''h '' @ js_show m @ ''m'')"

section \<open>Ranking engine\<close>

text \<open>
  \<^verbatim>\<open>
  const CA_POSTAL_RE =
    /\b([ABCEGHJ-NPRSTVXY]\d[ABCEGHJ-NPRSTVXY])\s*([0-9][ABCEGHJ-NPRSTVXY][0-9])\b/i;
  function extractPostalFromText(text){
    const t = String(text || '');
    const m = t.match(CA_POSTAL_RE);
    if (!m) return '';
    return normalizePostal(m[1] + m[2]);
  }
  \<close>
  The leftmost match: \<open>scan_postal\<close> walks the text and remembers whether the previous
  character is a word character (for the leading \<open>\b\<close>); \<open>match_here\<close> matches the
  pattern at the current position. After the first group only a digit can follow the
  white space, so the greedy \<open>\s*\<close> has one way to match.
\<close>

definition is_word :: "char \<Rightarrow> bool" where
  "is_word c = (c \<in> set upper_letters \<or> c \<in> set lower_letters \<or> c \<in> set digits \<or> c = CHR ''_'')"

definition is_postal_letter :: "char \<Rightarrow> bool" where
  "is_postal_letter c = (upper_char c \<in> set ''ABCEGHJKLMNPRSTVXY'')"

fun match_here :: "string \<Rightarrow> string option" where
  "match_here (a # b # c # rest) =
     (if is_postal_letter a \<and> is_digit b \<and> is_postal_letter c then
        (case dropWhile is_space rest of
           d # e # f # after \<Rightarrow>
             if is_digit d \<and> is_postal_letter e \<and> is_digit f
                \<and> (case after of [] \<Rightarrow> True | x # _ \<Rightarrow> \<not> is_word x)
             then Some [a, b, c, d, e, f] else None
         | _ \<Rightarrow> None)
      else None)"
| "match_here _ = None"

fun scan_postal :: "bool \<Rightarrow> string \<Rightarrow> string option" where
  "scan_postal prev_word [] = None"
| "scan_postal prev_word (x # xs) =
     (case (if prev_word then None else match_here (x # xs)) of
        Some m \<Rightarrow> Some m
      | None \<Rightarrow> scan_postal (is_word x) xs)"

definition extractPostalFromText :: "string \<Rightarrow> string" where
  "extractPostalFromText t = (case scan_postal False t of None \<Rightarrow> '''' | Some m \<Rightarrow> normalizePostal m)"

text \<open>
  A scored roster entry, as \<open>findClosest\<close> pushes it:
  \<^verbatim>\<open>{tech, km, miles, ll, driveKm: null, driveMiles: null, driveMin: null}\<close>
\<close>

record row =
  tech :: tech
  km :: real
  miles :: real
  ll :: ll
  driveKm :: "real option"
  driveMiles :: "real option"
  driveMin :: "real option"

text \<open>
  \<^verbatim>\<open>
  for (const tech of TECHS){
    const ll = latLonForPostal(tech.postal, tech.city, tech.province);
    if (!ll) continue;
    const km = haversineKm(ticketLL, ll);
    const miles = km * 0.621371;
    scored.push({tech, km, miles, ll, driveKm: null, driveMiles: null, driveMin: null});
  }
  \<close>
\<close>

fun score_loop :: "tech list \<Rightarrow> (string \<rightharpoonup> string) \<Rightarrow> ll \<Rightarrow> tech list \<Rightarrow> row list" where
  "score_loop TS PP ticketLL [] = []"
| "score_loop TS PP ticketLL (t # ts) =
     (case latLonForPostal TS PP (postal t) (Some (city t)) (Some (province t)) of
        None \<Rightarrow> score_loop TS PP ticketLL ts
      | Some l \<Rightarrow>
          (let k = haversineKm ticketLL l
           in \<lparr>tech = t, km = k, miles = k * 0.621371, ll = l,
               driveKm = None, driveMiles = None, driveMin = None\<rparr>)
          # score_loop TS PP ticketLL ts)"

text \<open>
  \<open>Array.prototype.sort\<close> with a comparator is a stable sort: an element stays behind
  the earlier elements that the comparator does not put after it. Both comparators of
  the page are consistent (they compare finite numbers), so the result is determined.
\<close>

fun insort_cmp :: "('a \<Rightarrow> 'a \<Rightarrow> real) \<Rightarrow> 'a \<Rightarrow> 'a list \<Rightarrow> 'a list" where
  "insort_cmp cmp x [] = [x]"
| "insort_cmp cmp x (y # ys) =
     (if cmp x y \<le> 0 then x # y # ys else y # insort_cmp cmp x ys)"

definition js_sort :: "('a \<Rightarrow> 'a \<Rightarrow> real) \<Rightarrow> 'a list \<Rightarrow> 'a list" where
  "js_sort cmp xs = foldr (insort_cmp cmp) xs []"

text \<open>\<^verbatim>\<open>scored.sort((a,b)=>a.km-b.km);\<close>\<close>

definition cmp_km :: "row \<Rightarrow> row \<Rightarrow> real" where
  "cmp_km a b = km a - km b"

text \<open>
  \<^verbatim>\<open>
  candidates.sort((a,b)=>{
    const am = (a.driveMin != null) ? a.driveMin : 1e12;
    const bm = (b.driveMin != null) ? b.driveMin : 1e12;
    if (am !== bm) return am - bm;
    const ak = (a.driveKm != null) ? a.driveKm : 1e12;
    const bk = (b.driveKm != null) ? b.driveKm : 1e12;
    return ak - bk;
  });
  \<close>
\<close>

definition or_1e12 :: "real option \<Rightarrow> real" where
  "or_1e12 v = (case v of Some x \<Rightarrow> x | None \<Rightarrow> 1000000000000)"

definition cmp_drive :: "row \<Rightarrow> row \<Rightarrow> real" where
  "cmp_drive a b =
     (let am = or_1e12 (driveMin a);
          bm = or_1e12 (driveMin b)
      in if am \<noteq> bm then am - bm
         else
           let ak = or_1e12 (driveKm a);
               bk = or_1e12 (driveKm b)
           in ak - bk)"

text \<open>
  The routing gateway, seen from the page. \<open>fetch\<close> either fails or gives a response
  with its \<open>ok\<close> flag and its body parsed as JSON (\<open>None\<close> when the body is empty or
  not JSON). Of the parsed body the page reads \<open>ok\<close>, \<open>distances_km[i]\<close> and
  \<open>durations_min[i]\<close>; an entry is a number or something else, and a missing array
  reads like an empty one (every index is \<open>undefined\<close>).
  \<^verbatim>\<open>
  async function postJson(url, body){
    const r = await fetch(url, {...});
    let j = null;
    const text = await r.text();
    try{ j = text ? JSON.parse(text) : null; }catch(e){}
    if (!r.ok){
      const msg = (j && j.error) ? j.error : `HTTP ${r.status}`;
      throw new Error(msg);
    }
    return j;
  }
  \<close>
\<close>

datatype jsval = Num jsnum | NotNum

record ors_reply =
  ok :: bool
  distances_km :: "jsval list"
  durations_min :: "jsval list"

datatype fetched = NetworkError | Response bool "ors_reply option"

type_synonym gateway = "string \<Rightarrow> string list \<Rightarrow> fetched"

datatype exn = FetchFailed | HttpError | RoutingFailed

definition postJson :: "fetched \<Rightarrow> exn + ors_reply option" where
  "postJson r =
     (case r of
        NetworkError \<Rightarrow> Inl FetchFailed
      | Response r_ok j \<Rightarrow> if \<not> r_ok then Inl HttpError else Inr j)"

definition nth_opt :: "'a list \<Rightarrow> nat \<Rightarrow> 'a option" where
  "nth_opt xs i = (if i < length xs then Some (xs ! i) else None)"

text \<open>\<^verbatim>\<open>(typeof dk === 'number' && isFinite(dk)) ? dk : null\<close>\<close>

definition finite_number :: "jsval option \<Rightarrow> real option" where
  "finite_number v = (case v of Some (Num (Fin x)) \<Rightarrow> Some x | _ \<Rightarrow> None)"

text \<open>
  \<^verbatim>\<open>
  for (let i=0; i<candidates.length; i++){
    const dk = j.distances_km?.[i];
    const dm = j.durations_min?.[i];
    candidates[i].driveKm = (typeof dk === 'number' && isFinite(dk)) ? dk : null;
    candidates[i].driveMin = (typeof dm === 'number' && isFinite(dm)) ? dm : null;
    candidates[i].driveMiles = candidates[i].driveKm != null
      ? candidates[i].driveKm * 0.621371 : null;
  }
  \<close>
\<close>

fun annotate :: "ors_reply \<Rightarrow> nat \<Rightarrow> row list \<Rightarrow> row list" where
  "annotate j i [] = []"
| "annotate j i (c # cs) =
     (let dk = finite_number (nth_opt (distances_km j) i);
          dm = finite_number (nth_opt (durations_min j) i)
      in c\<lparr>driveKm := dk, driveMin := dm, driveMiles := map_option (\<lambda>k. k * 0.621371) dk\<rparr>)
     # annotate j (Suc i) cs"

text \<open>
  \<^verbatim>\<open>best = candidates.find(x=>x.driveKm!=null && x.driveMin!=null) || candidates[0];\<close>
\<close>

definition has_both :: "row \<Rightarrow> bool" where
  "has_both x = (driveKm x \<noteq> None \<and> driveMin x \<noteq> None)"

definition pick_best :: "row list \<Rightarrow> row option" where
  "pick_best candidates =
     (case find has_both candidates of
        Some b \<Rightarrow> Some b
      | None \<Rightarrow> (case candidates of [] \<Rightarrow> None | c # _ \<Rightarrow> Some c))"

text \<open>
  The body of the \<open>try\<close> block. \<open>candidates\<close> is a copy of the first 25 entries of
  \<open>scored\<close> that shares the row objects, so the loop above also changes the rows of
  \<open>scored\<close>: an outcome carries the annotated rows in baseline order, the re-ranked
  candidates and the best entry.
  \<^verbatim>\<open>
  const candidates = scored.slice(0, 25);
  try{
    const j = await postJson(ORS_ENDPOINT, {
      ticket_postal: p, tech_postals: candidates.map(x => x.tech.postal) });
    if (!j || !j.ok) throw new Error(j?.error || 'ORS routing failed');
    ...
    listToRender = candidates;
    usedORS = true;
  }catch(e){ usedORS = false; }
  \<close>
\<close>

record ors_outcome =
  annotated :: "row list"
  reranked :: "row list"
  picked :: "row option"

definition try_ors :: "gateway \<Rightarrow> string \<Rightarrow> row list \<Rightarrow> exn + ors_outcome" where
  "try_ors gw p scored =
     (let candidates = take 25 scored in
      case postJson (gw p (map (\<lambda>x. postal (tech x)) candidates)) of
        Inl e \<Rightarrow> Inl e
      | Inr None \<Rightarrow> Inl RoutingFailed
      | Inr (Some j) \<Rightarrow>
          if \<not> ok j then Inl RoutingFailed
          else
            let ann = annotate j 0 candidates;
                srt = js_sort cmp_drive ann
            in Inr \<lparr>annotated = ann, reranked = srt, picked = pick_best srt\<rparr>)"

text \<open>
  \<^verbatim>\<open>
  function renderTopList(sorted, showDriving){
    const top = sorted.slice(0, Math.min(8, sorted.length));
    for (const row of top){
      const right = (showDriving && row.driveKm != null && row.driveMin != null)
        ? (driving time and distance) : (straight-line miles and km);
      ...
    }
  }
  \<close>
  Each rendered item is the row and whether its driving data is shown.
\<close>

definition renderTopList :: "row list \<Rightarrow> bool \<Rightarrow> (row \<times> bool) list" where
  "renderTopList rows showDriving =
     map (\<lambda>r. (r, showDriving \<and> driveKm r \<noteq> None \<and> driveMin r \<noteq> None))
       (take (min 8 (length rows)) rows)"

text \<open>
  The page and the form. \<open>driveFactor\<close> and \<open>speedKmh\<close> are the numbers that
  \<open>parseFloat\<close> reads from the two inputs (\<open>NaN\<close> when there is no number). Of
  the bounds and defaults only \<open>0.8\<close> is not a number itself: it denotes the number
  nearest to it.
  \<^verbatim>\<open>
  const baseFactor = Math.max(0.8, Math.min(5, parseFloat(driveFactor.value || '1.25') || 1.25));
  const speed = Math.max(20, Math.min(130, parseFloat(speedKmh.value || '80') || 80));
  \<close>
\<close>

record page =
  TECHS :: "tech list"
  POSTAL_PROV :: "string \<rightharpoonup> string"
  ORS_ENDPOINT :: string

record form =
  postalInput :: string
  ticketText :: string
  driveFactor :: jsnum
  speedKmh :: jsnum

definition input_number :: "real \<Rightarrow> real \<Rightarrow> real \<Rightarrow> jsnum \<Rightarrow> real" where
  "input_number lo hi dflt parsed =
     (case parsed of
        Fin v \<Rightarrow> max lo (min hi (if v = 0 then dflt else v))
      | NaN \<Rightarrow> max lo (min hi dflt)
      | PInf \<Rightarrow> max lo hi
      | NInf \<Rightarrow> lo)"

datatype failure = NoValidPostal | TicketUnresolved | NoTechLocations

datatype mode = Driving | Estimate

record result =
  mode :: mode
  best :: row
  effFactor :: "real option"
  shownDriveKm :: real
  eta :: string
  topList :: "(row \<times> bool) list"

text \<open>
  The fallback of \<open>findClosest\<close> (\<open>// Fallback: original estimate logic\<close>):
  \<^verbatim>\<open>
  const best2 = scored[0];
  const effFactor = effectiveDriveFactor(baseFactor, ticketLL, best2.ll);
  const driveKm = best2.km * effFactor;
  const eta = etaFromKm(driveKm, speed);
  ... Mode: estimate ...
  renderTopList(scored, false);
  \<close>
\<close>

definition estimate :: "real \<Rightarrow> real \<Rightarrow> ll \<Rightarrow> row list \<Rightarrow> failure + result" where
  "estimate baseFactor speed ticketLL scored =
     (case scored of
        [] \<Rightarrow> Inl NoTechLocations
      | best2 # _ \<Rightarrow>
          let eff = effectiveDriveFactor (Fin baseFactor) (Some ticketLL) (Some (ll best2));
              dkm = km best2 * eff
          in Inr \<lparr>mode = Estimate, best = best2, effFactor = Some eff, shownDriveKm = dkm,
                  eta = etaFromKm (Fin dkm) (Fin speed),
                  topList = renderTopList scored False\<rparr>)"

text \<open>
  The baseline ranking of \<open>findClosest\<close>: every resolved technician, sorted by
  straight-line distance.
\<close>

definition baseline :: "page \<Rightarrow> ll \<Rightarrow> row list" where
  "baseline pg ticketLL =
     js_sort cmp_km (score_loop (TECHS pg) (POSTAL_PROV pg) ticketLL (TECHS pg))"

definition ticketPostal :: "form \<Rightarrow> string" where
  "ticketPostal fm =
     (let p = normalizePostal (postalInput fm)
      in if p = '''' then extractPostalFromText (ticketText fm) else p)"

definition baseFactor :: "form \<Rightarrow> real" where
  "baseFactor fm = input_number (round64 0.8) 5 1.25 (driveFactor fm)"

definition speed :: "form \<Rightarrow> real" where
  "speed fm = input_number 20 130 80 (speedKmh fm)"

text \<open>
  \<open>findClosest\<close> writes its answer into the page; here it returns it: one of the three
  failures it reports, or the mode, the best entry, the figures shown for it and the
  rendered shortlist.
  \<^verbatim>\<open>
  async function findClosest(){
    const baseFactor = ...; const speed = ...;
    let p = normalizePostal(postalInput.value);
    if (!p){ p = extractPostalFromText(ticketText.value); ... }
    if (!p){ setStatus('No valid Canadian postal code found.', false); ...; return; }
    const ticketLL = latLonForPostal(p, null, null);
    if (!ticketLL){ setStatus('Unable to resolve location for ticket postal code.', false); return; }
    const scored = []; for (const tech of TECHS){ ... }
    if (!scored.length){ setStatus('No tech locations available.', false); return; }
    scored.sort((a,b)=>a.km-b.km);
    let usedORS = false; let best = null; let listToRender = scored;
    if (ORS_ENDPOINT){ const candidates = scored.slice(0, 25); try{ ... }catch(e){ usedORS = false; } }
    if (usedORS && best && best.driveKm != null){
      const eta = etaFromMinutes(best.driveMin);
      ... Mode: ORS driving ...
      renderTopList(listToRender, true);
      return;
    }
    // Fallback: original estimate logic
    ...
  }
  \<close>
\<close>

definition findClosest :: "page \<Rightarrow> gateway \<Rightarrow> form \<Rightarrow> failure + result" where
  "findClosest pg gw fm =
     (let p = ticketPostal fm
      in if p = '''' then Inl NoValidPostal
         else case latLonForPostal (TECHS pg) (POSTAL_PROV pg) p None None of
           None \<Rightarrow> Inl TicketUnresolved
         | Some ticketLL \<Rightarrow>
             let scored = baseline pg ticketLL
             in if scored = [] then Inl NoTechLocations
                else
                  case (if ORS_ENDPOINT pg \<noteq> '''' then try_ors gw p scored
                        else Inl RoutingFailed) of
                    Inl e \<Rightarrow> estimate (baseFactor fm) (speed fm) ticketLL scored
                  | Inr out \<Rightarrow>
                      (case picked out of
                         Some b \<Rightarrow>
                           (case driveKm b of
                              Some dk \<Rightarrow>
                                Inr \<lparr>mode = Driving, best = b, effFactor = None,
                                     shownDriveKm = dk, eta = etaFromMinutes (driveMin b),
                                     topList = renderTopList (reranked out) True\<rparr>
                            | None \<Rightarrow>
                                estimate (baseFactor fm) (speed fm) ticketLL
                                  (annotated out @ drop 25 scored))
                       | None \<Rightarrow>
                           estimate (baseFactor fm) (speed fm) ticketLL
                             (annotated out @ drop 25 scored)))"

text \<open>
  What holds of every row that the scoring loop pushes: its technician is on the roster,
  its location is the technician's resolved location, its distance is the straight-line
  distance from the ticket.
\<close>

definition scored_row :: "page \<Rightarrow> ll \<Rightarrow> row \<Rightarrow> bool" where
  "scored_row pg ticketLL x =
     (tech x \<in> set (TECHS pg)
      \<and> latLonForPostal (TECHS pg) (POSTAL_PROV pg) (postal (tech x))
            (Some (city (tech x))) (Some (province (tech x))) = Some (ll x)
      \<and> km x = haversineKm ticketLL (ll x)
      \<and> miles x = km x * 0.621371)"

section \<open>Routing gateway: the matrix function behind \<open>/api/canada/ors_matrix\<close>\<close>

text \<open>
  The function that answers the page's request
  \<open>{ ticket_postal, tech_postals }\<close> with \<open>{ ok, distances_km, durations_min }\<close>.
  \<^verbatim>\<open>
  function normPostal(x) {
    return String(x || "").toUpperCase().replace(/[^A-Z0-9]/g, "").slice(0, 6);
  }
  \<close>
\<close>

definition normPostal :: "string \<Rightarrow> string" where
  "normPostal x = take 6 (filter (\<lambda>c. is_upper c \<or> is_digit c) (toUpperCase x))"

text \<open>
  The geocoding service: \<open>fetch\<close> fails, or answers with its \<open>ok\<close> flag and the
  coordinates of the first feature (\<open>None\<close> when there is none). A body that is not
  JSON makes \<open>r.json()\<close> reject, like a failed \<open>fetch\<close>.
  \<^verbatim>\<open>
  async function geocodePostalCA(postal) {
    const key = normPostal(postal);
    if (!key) return null;
    if (GEO_CACHE.has(key)) return GEO_CACHE.get(key);
    ...
    const r = await fetch(url.toString(), {...});
    if (!r.ok) throw new Error(`ORS geocode failed: ${r.status}`);
    const data = await r.json();
    const coords = data?.features?.[0]?.geometry?.coordinates;
    if (!Array.isArray(coords) || coords.length < 2) return null;
    const ll = { lon: coords[0], lat: coords[1] };
    GEO_CACHE.set(key, ll);
    return ll;
  }
  \<close>
\<close>

datatype geo_reply = GeoFetchFailed | GeoHttp bool "coord option"

datatype thrown = GeocodeFailed | MatrixFailed | Rejected

definition geocodePostalCA ::
  "(string \<rightharpoonup> coord) \<Rightarrow> (string \<Rightarrow> geo_reply) \<Rightarrow> string \<Rightarrow> thrown + coord option" where
  "geocodePostalCA GEO_CACHE geo p =
     (let key = normPostal p in
      if key = '''' then Inr None
      else case GEO_CACHE key of
        Some c \<Rightarrow> Inr (Some c)
      | None \<Rightarrow>
         (case geo key of
            GeoFetchFailed \<Rightarrow> Inl Rejected
          | GeoHttp r_ok coords \<Rightarrow> if \<not> r_ok then Inl GeocodeFailed else Inr coords))"

text \<open>
  The matrix service: it fails (rejected \<open>fetch\<close>, response not \<open>ok\<close>, body not
  JSON), or gives the first rows of \<open>distances\<close> and \<open>durations\<close> (\<open>[]\<close> when absent).
  \<^verbatim>\<open>
  async function matrixKmMin(sourceLL, destLLs) {
    ...
    if (!r.ok) { ...; throw new Error(`ORS matrix failed: ...`); }
    const data = await r.json();
    const distances = data?.distances?.[0] || [];
    const durations = data?.durations?.[0] || [];
    return { distances, durations };
  }
  \<close>
\<close>

datatype matrix_reply = MatrixFetchFailed | MatrixHttp bool "jsval list" "jsval list"

definition matrixKmMin ::
  "(coord \<Rightarrow> coord list \<Rightarrow> matrix_reply) \<Rightarrow> coord \<Rightarrow> coord list
     \<Rightarrow> thrown + (jsval list \<times> jsval list)" where
  "matrixKmMin matrix sourceLL destLLs =
     (case matrix sourceLL destLLs of
        MatrixFetchFailed \<Rightarrow> Inl Rejected
      | MatrixHttp r_ok distances durations \<Rightarrow>
          if \<not> r_ok then Inl MatrixFailed else Inr (distances, durations))"

text \<open>\<open>Promise.all\<close>: the results in order, or the first rejection.\<close>

fun promise_all :: "('e + 'a) list \<Rightarrow> 'e + 'a list" where
  "promise_all [] = Inr []"
| "promise_all (r # rs) =
     (case r of
        Inl e \<Rightarrow> Inl e
      | Inr v \<Rightarrow> (case promise_all rs of Inl e \<Rightarrow> Inl e | Inr vs \<Rightarrow> Inr (v # vs)))"

datatype err =
  MethodNotAllowed | MissingKey | InvalidJson | MissingFields
  | NoTicketGeocode | NoTechGeocode | InvalidOrigin | OrsFailed | Caught thrown

datatype body = BOk | BErr err | BMatrix "jsnum option list" "jsnum option list"

record response =
  statusCode :: nat
  body :: body

definition resp :: "nat \<Rightarrow> body \<Rightarrow> response" where
  "resp code b = \<lparr>statusCode = code, body = b\<rparr>"

record payload =
  ticket_postal :: string
  tech_postals :: "string list"

record event =
  httpMethod :: string
  payload :: "payload option"

text \<open>
  \<^verbatim>\<open>
  distances_km[origIdx] = typeof d === "number" ? d : null;
  durations_min[origIdx] = typeof t === "number" ? t / 60 : null;
  \<close>
\<close>

definition as_number :: "jsval option \<Rightarrow> jsnum option" where
  "as_number v = (case v of Some (Num x) \<Rightarrow> Some x | _ \<Rightarrow> None)"

definition div60 :: "jsnum \<Rightarrow> jsnum" where
  "div60 x = (case x of Fin v \<Rightarrow> Fin (v / 60) | other \<Rightarrow> other)"

text \<open>
  The \<open>try\<close> block of the handler.
  \<^verbatim>\<open>
  const src = await geocodePostalCA(ticket);
  if (!src) return resp(200, { ok: false, error: "Could not geocode ticket_postal" });
  const destsRaw = await Promise.all(tech.map(geocodePostalCA));
  // Keep alignment: compute matrix only for valid dests, then expand back.
  const validIdx = [];
  const validDests = [];
  destsRaw.forEach((ll, i) => { if (ll) { validIdx.push(i); validDests.push(ll); } });
  if (validDests.length === 0) {
    return resp(200, { ok: false, error: "Could not geocode any tech_postals" });
  }
  const { distances, durations } = await matrixKmMin(src, validDests);
  const distances_km = new Array(tech.length).fill(null);
  const durations_min = new Array(tech.length).fill(null);
  validIdx.forEach((origIdx, j) => {
    const d = distances[j];
    const t = durations[j];
    distances_km[origIdx] = typeof d === "number" ? d : null;
    durations_min[origIdx] = typeof t === "number" ? t / 60 : null;
  });
  return resp(200, { ok: true, distances_km, durations_min });
  \<close>
  The geocoding calls of \<open>Promise.all\<close> all read the cache before any of them writes
  it, so they see the cache as the ticket's geocoding left it.
\<close>

definition expand_back ::
  "nat \<Rightarrow> nat list \<Rightarrow> (jsval option \<Rightarrow> jsnum option) \<Rightarrow> jsval list \<Rightarrow> jsnum option list" where
  "expand_back n validIdx conv vals =
     fold (\<lambda>(origIdx, j) arr. arr[origIdx := conv (nth_opt vals j)])
       (zip validIdx [0..<length validIdx]) (replicate n None)"

definition handler_try ::
  "(string \<rightharpoonup> coord) \<Rightarrow> (string \<Rightarrow> geo_reply) \<Rightarrow> (coord \<Rightarrow> coord list \<Rightarrow> matrix_reply)
     \<Rightarrow> string \<Rightarrow> string list \<Rightarrow> thrown + response" where
  "handler_try GEO_CACHE geo matrix ticket techs =
     (case geocodePostalCA GEO_CACHE geo ticket of
        Inl e \<Rightarrow> Inl e
      | Inr None \<Rightarrow> Inr (resp 200 (BErr NoTicketGeocode))
      | Inr (Some src) \<Rightarrow>
          let cache1 = GEO_CACHE(normPostal ticket \<mapsto> src) in
          case promise_all (map (geocodePostalCA cache1 geo) techs) of
            Inl e \<Rightarrow> Inl e
          | Inr destsRaw \<Rightarrow>
              let validIdx = filter (\<lambda>i. destsRaw ! i \<noteq> None) [0..<length destsRaw];
                  validDests = map the (filter (\<lambda>d. d \<noteq> None) destsRaw)
              in if validDests = [] then Inr (resp 200 (BErr NoTechGeocode))
                 else case matrixKmMin matrix src validDests of
                   Inl e \<Rightarrow> Inl e
                 | Inr (distances, durations) \<Rightarrow>
                     Inr (resp 200
                       (BMatrix
                          (expand_back (length techs) validIdx as_number distances)
                          (expand_back (length techs) validIdx
                             (\<lambda>t. map_option div60 (as_number t)) durations))))"

text \<open>
  \<^verbatim>\<open>
  exports.handler = async function handler(event) {
    if (event.httpMethod === "OPTIONS") return resp(200, { ok: true });
    if (event.httpMethod !== "POST") return resp(405, {...});
    if (!ORS_KEY) return resp(500, {...});
    let payload = {};
    try { payload = JSON.parse(event.body || "{}"); }
    catch { return resp(400, { ok: false, error: "Invalid JSON body" }); }
    const ticket_postal = payload.ticket_postal;
    const tech_postals = Array.isArray(payload.tech_postals) ? payload.tech_postals : [];
    const ticket = normPostal(ticket_postal);
    const tech = tech_postals.map(normPostal).filter(Boolean).slice(0, 40);
    if (!ticket || tech.length === 0) return resp(400, {...});
    try { ... } catch (e) { return resp(200, { ok: false, error: String(e?.message || e) }); }
  };
  \<close>
\<close>

definition handler ::
  "string \<Rightarrow> (string \<rightharpoonup> coord) \<Rightarrow> (string \<Rightarrow> geo_reply) \<Rightarrow> (coord \<Rightarrow> coord list \<Rightarrow> matrix_reply)
     \<Rightarrow> event \<Rightarrow> response" where
  "handler ORS_KEY GEO_CACHE geo matrix ev =
     (if httpMethod ev = ''OPTIONS'' then resp 200 BOk
      else if httpMethod ev \<noteq> ''POST'' then resp 405 (BErr MethodNotAllowed)
      else if ORS_KEY = '''' then resp 500 (BErr MissingKey)
      else case payload ev of
        None \<Rightarrow> resp 400 (BErr InvalidJson)
      | Some pl \<Rightarrow>
          let ticket = normPostal (ticket_postal pl);
              techs = take 40 (filter (\<lambda>s. s \<noteq> '''') (map normPostal (tech_postals pl)))
          in if ticket = '''' \<or> techs = [] then resp 400 (BErr MissingFields)
             else case handler_try GEO_CACHE geo matrix ticket techs of
               Inl e \<Rightarrow> resp 200 (BErr (Caught e))
             | Inr r \<Rightarrow> r)"

section \<open>Routing gateway: the route \<open>/canada/ors_matrix\<close> of the edge function\<close>

text \<open>
  The edge function answers \<open>{ job_lat, job_lng, tech: [...] }\<close>; the origin is a
  coordinate, the destinations are the technicians' postal codes. \<open>techList\<close> is modelled
  by the postal string of each entry
  (\<open>(t?.tech_postal ?? t?.postal ?? "").toString()\<close>).
  The geocoder: \<open>fetch\<close> fails, or answers with its \<open>ok\<close> flag and the coordinates of
  the first result when both are finite numbers (\<open>None\<close> otherwise, also for a body that
  is not a JSON array).
  \<^verbatim>\<open>
  const geoCache = new Map<string, { lat: number; lng: number } | null>();
  async function geocodePostal(postalRaw: string) {
    const postal = (postalRaw || "").toString().trim().replace(/\s+/g, "");
    if (!postal) return null;
    if (geoCache.has(postal)) return geoCache.get(postal) ?? null;
    const r = await fetch(url, {...});
    if (!r.ok) { geoCache.set(postal, null); return null; }
    const arr = (await r.json().catch(() => [])) as any[];
    const first = Array.isArray(arr) && arr.length ? arr[0] : null;
    const lat = Number(first?.lat);
    const lng = Number(first?.lon);
    const out = Number.isFinite(lat) && Number.isFinite(lng) ? { lat, lng } : null;
    geoCache.set(postal, out);
    return out;
  }
  \<close>
  The function returns its result and the cache as it leaves it; a rejected \<open>fetch\<close>
  is \<open>Inl\<close>.
\<close>

datatype nominatim_reply = NominatimFetchFailed | NominatimHttp bool "coord option"

definition clean_postal :: "string \<Rightarrow> string" where
  "clean_postal postalRaw = filter (\<lambda>c. \<not> is_space c) (trim postalRaw)"

definition geocodePostal ::
  "(string \<rightharpoonup> coord option) \<Rightarrow> (string \<Rightarrow> nominatim_reply) \<Rightarrow> string
     \<Rightarrow> thrown + (coord option \<times> (string \<rightharpoonup> coord option))" where
  "geocodePostal geoCache nominatim postalRaw =
     (let p = clean_postal postalRaw in
      if p = '''' then Inr (None, geoCache)
      else case geoCache p of
        Some cached \<Rightarrow> Inr (cached, geoCache)
      | None \<Rightarrow>
         (case nominatim p of
            NominatimFetchFailed \<Rightarrow> Inl Rejected
          | NominatimHttp r_ok out \<Rightarrow>
              if \<not> r_ok then Inr (None, geoCache(p \<mapsto> None))
              else Inr (out, geoCache(p \<mapsto> out))))"

text \<open>
  \<^verbatim>\<open>
  const destinations: Array<[number, number]> = [];
  const idxMap: Array<number | null> = [];
  for (const t of techList) {
    const postal = (t?.tech_postal ?? t?.postal ?? "").toString();
    const geo = await geocodePostal(postal).catch(() => null);
    if (!geo) { idxMap.push(null); continue; }
    destinations.push([geo.lng, geo.lat]);
    idxMap.push(destinations.length - 1);
  }
  \<close>
\<close>

fun destinations_loop ::
  "(string \<Rightarrow> nominatim_reply) \<Rightarrow> string list \<Rightarrow> (string \<rightharpoonup> coord option)
     \<Rightarrow> coord list \<Rightarrow> nat option list \<Rightarrow> coord list \<times> nat option list" where
  "destinations_loop nominatim [] geoCache destinations idxMap = (destinations, idxMap)"
| "destinations_loop nominatim (t # ts) geoCache destinations idxMap =
     (case geocodePostal geoCache nominatim t of
        Inl e \<Rightarrow> destinations_loop nominatim ts geoCache destinations (idxMap @ [None])
      | Inr (None, cache') \<Rightarrow>
          destinations_loop nominatim ts cache' destinations (idxMap @ [None])
      | Inr (Some geo, cache') \<Rightarrow>
          destinations_loop nominatim ts cache' (destinations @ [geo])
            (idxMap @ [Some (length destinations)]))"

text \<open>
  The matrix service, as the route reads it: \<open>fetch\<close> fails, or answers with its
  \<open>ok\<close> flag and its body (\<open>None\<close> when it is not JSON), of which the route reads
  the first row of \<open>distances\<close> and of \<open>durations\<close> (\<open>[]\<close> when absent).
  \<^verbatim>\<open>
  const distances_km = techList.map(() => null as number | null);
  const durations_min = techList.map(() => null as number | null);
  for (let i = 0; i < idxMap.length; i++) {
    const di = idxMap[i];
    if (di === null) continue;
    const dist_m = distRow?.[di + 1];
    const dur_s = durRow?.[di + 1];
    if (typeof dist_m === "number" && Number.isFinite(dist_m)) {
      distances_km[i] = Math.round((dist_m / 1000) * 100) / 100;
    }
    if (typeof dur_s === "number" && Number.isFinite(dur_s)) {
      durations_min[i] = Math.round((dur_s / 60) * 10) / 10;
    }
  }
  \<close>
  \<open>fill_loop\<close> is that loop for one of the two arrays.
\<close>

datatype ors_reply2 = OrsFetchFailed | OrsHttp bool "(jsval list \<times> jsval list) option"

function fill_loop ::
  "nat option list \<Rightarrow> jsval list \<Rightarrow> (real \<Rightarrow> real) \<Rightarrow> nat \<Rightarrow> jsnum option list
     \<Rightarrow> jsnum option list" where
  "fill_loop idxMap row conv i arr =
     (if i < length idxMap then
        (case idxMap ! i of
           None \<Rightarrow> fill_loop idxMap row conv (Suc i) arr
         | Some di \<Rightarrow>
            (case finite_number (nth_opt row (di + 1)) of
               Some v \<Rightarrow> fill_loop idxMap row conv (Suc i) (arr[i := Some (Fin (conv v))])
             | None \<Rightarrow> fill_loop idxMap row conv (Suc i) arr))
      else arr)"
  by pat_completeness auto
termination
  by (relation "measure (\<lambda>(idxMap, row, conv, i, arr). length idxMap - i)") auto

declare fill_loop.simps [simp del]

definition km_2dp :: "real \<Rightarrow> real" where
  "km_2dp dist_m = of_int (js_round ((dist_m / 1000) * 100)) / 100"

definition min_1dp :: "real \<Rightarrow> real" where
  "min_1dp dur_s = of_int (js_round ((dur_s / 60) * 10)) / 10"

record matrix_request =
  job_lat :: jsnum
  job_lng :: jsnum
  techList :: "string list"

text \<open>
  The route: the checks on the key and on the origin, the early answers, the matrix
  call and the expansion. A rejected matrix \<open>fetch\<close> reaches the function's outer
  \<open>catch\<close> (status 500).
\<close>

definition ors_matrix_route ::
  "string \<Rightarrow> (string \<Rightarrow> nominatim_reply) \<Rightarrow> (jsnum \<times> jsnum \<Rightarrow> coord list \<Rightarrow> ors_reply2)
     \<Rightarrow> matrix_request \<Rightarrow> response" where
  "ors_matrix_route ORS_API_KEY nominatim ors req =
     (if ORS_API_KEY = '''' then resp 500 (BErr MissingKey)
      else if \<not> isFinite (job_lat req) \<or> \<not> isFinite (job_lng req)
        then resp 400 (BErr InvalidOrigin)
      else if techList req = [] then resp 200 (BMatrix [] [])
      else
        let (destinations, idxMap) = destinations_loop nominatim (techList req) Map.empty [] []
        in if destinations = []
           then resp 200 (BMatrix (map (\<lambda>t. None) (techList req))
                                  (map (\<lambda>t. None) (techList req)))
           else case ors (job_lat req, job_lng req) destinations of
             OrsFetchFailed \<Rightarrow> resp 500 (BErr (Caught Rejected))
           | OrsHttp r_ok None \<Rightarrow> resp 502 (BErr OrsFailed)
           | OrsHttp r_ok (Some (distRow, durRow)) \<Rightarrow>
               if \<not> r_ok then resp 502 (BErr OrsFailed)
               else resp 200
                 (BMatrix
                    (fill_loop idxMap distRow km_2dp 0 (map (\<lambda>t. None) (techList req)))
                    (fill_loop idxMap durRow min_1dp 0 (map (\<lambda>t. None) (techList req)))))"

text \<open>
  What the geocoder gives for a destination, whatever the cache holds: nothing for a
  blank postal code, for a failed \<open>fetch\<close> and for a response that is not \<open>ok\<close>.
\<close>

definition geocode_outcome :: "(string \<Rightarrow> nominatim_reply) \<Rightarrow> string \<Rightarrow> coord option" where
  "geocode_outcome nominatim t =
     (let p = clean_postal t in
      if p = '''' then None
      else case nominatim p of
        NominatimFetchFailed \<Rightarrow> None
      | NominatimHttp r_ok out \<Rightarrow> if r_ok then out else None)"

text \<open>A cache that only holds what the geocoder gives.\<close>

definition cache_ok :: "(string \<Rightarrow> nominatim_reply) \<Rightarrow> (string \<rightharpoonup> coord option) \<Rightarrow> bool" where
  "cache_ok nominatim geoCache =
     (\<forall>p v. geoCache p = Some v \<longrightarrow>
        v = (case nominatim p of
               NominatimFetchFailed \<Rightarrow> None
             | NominatimHttp r_ok out \<Rightarrow> if r_ok then out else None))"

section \<open>A small roster to run the engine on\<close>

text \<open>
  Two technicians in Calgary (the second with a spaced postal code) and one whose
  postal code is garbage; the ticket is in Ottawa. Calgary is in the city table, so
  both Calgary codes get an exact override; the ticket resolves to the centroid of ON.
\<close>

definition ann_tech :: tech where
  "ann_tech = \<lparr>tech_id = ''1'', name = ''Ann'', city = ''Calgary'', province = ''AB'',
               postal = ''T2P1J9''\<rparr>"

definition bob_tech :: tech where
  "bob_tech = \<lparr>tech_id = ''2'', name = ''Bob'', city = ''Calgary'', province = ''AB'',
               postal = ''T2P 1J9''\<rparr>"

definition uma_tech :: tech where
  "uma_tech = \<lparr>tech_id = ''3'', name = ''Uma'', city = '''', province = '''',
               postal = ''N/A''\<rparr>"

definition demo_page :: page where
  "demo_page = \<lparr>TECHS = [ann_tech, uma_tech, bob_tech], POSTAL_PROV = Map.empty,
                ORS_ENDPOINT = ''/api/canada/ors_matrix''\<rparr>"

definition demo_form :: form where
  "demo_form = \<lparr>postalInput = ''k1a 0b1'', ticketText = '''', driveFactor = Fin 1.25,
                speedKmh = Fin 80\<rparr>"

definition demo_ticket :: ll where
  "demo_ticket = \<lparr>lat = 43.6532, lon = -79.3832, prec = Prov, prov = ''ON'', ll_city = ''''\<rparr>"

definition calgary :: ll where
  "calgary = \<lparr>lat = 51.0447, lon = -114.0719, prec = Postal, prov = ''AB'',
              ll_city = ''CALGARY''\<rparr>"

definition demo_row :: "tech \<Rightarrow> row" where
  "demo_row t = \<lparr>tech = t, km = haversineKm demo_ticket calgary,
                 miles = haversineKm demo_ticket calgary * 0.621371, ll = calgary,
                 driveKm = None, driveMiles = None, driveMin = None\<rparr>"

definition driven :: "row \<Rightarrow> real option \<Rightarrow> real option \<Rightarrow> row" where
  "driven r dk dm = r\<lparr>driveKm := dk, driveMin := dm,
                      driveMiles := map_option (\<lambda>k. k * 0.621371) dk\<rparr>"

text \<open>
  Gateways for the small roster: one that answers HTTP 502, one that answers
  \<open>{ ok: true, distances_km, durations_min }\<close> with the given arrays, and one that
  answers only the request for the given destinations.
\<close>

definition gateway_502 :: gateway where
  "gateway_502 p ps = Response False None"

definition gateway_reply :: "jsval list \<Rightarrow> jsval list \<Rightarrow> gateway" where
  "gateway_reply ds ts p ps =
     Response True (Some \<lparr>ok = True, distances_km = ds, durations_min = ts\<rparr>)"

definition gateway_only_for :: "string list \<Rightarrow> gateway \<Rightarrow> gateway" where
  "gateway_only_for req gw p ps = (if ps = req then gw p ps else NetworkError)"

section \<open>Properties of the postal normalizer\<close>

lemma upper_char_upper_all: "\<forall>c \<in> set upper_letters. upper_char c = c \<and> \<not> is_space c"
  unfolding upper_letters_def upper_char_def lower_letters_def is_space_def by simp

lemma upper_char_digit_all: "\<forall>c \<in> set digits. upper_char c = c \<and> \<not> is_space c"
  unfolding digits_def upper_letters_def upper_char_def lower_letters_def is_space_def by simp

lemma upper_char_upper: "is_upper c \<Longrightarrow> upper_char c = c"
  using upper_char_upper_all by (simp add: is_upper_def)

lemma upper_char_digit: "is_digit c \<Longrightarrow> upper_char c = c"
  using upper_char_digit_all by (simp add: is_digit_def)

lemma upper_char_space: "upper_char CHR '' '' = CHR '' ''"
  by (simp add: upper_char_def upper_letters_def lower_letters_def)

lemma not_space_upper: "is_upper c \<Longrightarrow> \<not> is_space c"
  using upper_char_upper_all by (simp add: is_upper_def)

lemma not_space_digit: "is_digit c \<Longrightarrow> \<not> is_space c"
  using upper_char_digit_all by (simp add: is_digit_def)

lemma space_not_alnum: "\<not> is_upper CHR '' '' \<and> \<not> is_digit CHR '' ''"
  by (simp add: is_upper_def is_digit_def upper_letters_def digits_def)

lemma postal_pattern_cases:
  assumes "postal_pattern s"
  obtains a b c d e f where "s = [a, b, c, d, e, f]"
    "is_upper a" "is_digit b" "is_upper c" "is_digit d" "is_upper e" "is_digit f"
  using assms by (cases s rule: postal_pattern.cases) auto

lemma normalizePostal_result:
  "normalizePostal x = '''' \<or> postal_pattern (normalizePostal x)"
  by (simp add: normalizePostal_def Let_def)

lemma normalizePostal_fixed:
  assumes "postal_pattern s"
  shows "normalizePostal s = s"
proof -
  from assms obtain a b c d e f where s: "s = [a, b, c, d, e, f]"
    and cls: "is_upper a" "is_digit b" "is_upper c" "is_digit d" "is_upper e" "is_digit f"
    by (rule postal_pattern_cases)
  have up: "toUpperCase s = s"
    using cls by (simp add: s toUpperCase_def upper_char_upper upper_char_digit)
  have tr: "trim s = s"
    using cls by (simp add: s trim_def not_space_upper not_space_digit)
  show ?thesis
    using cls unfolding normalizePostal_def up tr by (simp add: s)
qed

lemma normalizePostal_spaced:
  assumes "postal_pattern s"
  shows "normalizePostal (take 3 s @ '' '' @ drop 3 s) = s"
proof -
  from assms obtain a b c d e f where s: "s = [a, b, c, d, e, f]"
    and cls: "is_upper a" "is_digit b" "is_upper c" "is_digit d" "is_upper e" "is_digit f"
    by (rule postal_pattern_cases)
  have sp: "take 3 s @ '' '' @ drop 3 s = [a, b, c, CHR '' '', d, e, f]"
    by (simp add: s)
  have up: "toUpperCase [a, b, c, CHR '' '', d, e, f] = [a, b, c, CHR '' '', d, e, f]"
    using cls by (simp add: toUpperCase_def upper_char_upper upper_char_digit upper_char_space)
  have tr: "trim [a, b, c, CHR '' '', d, e, f] = [a, b, c, CHR '' '', d, e, f]"
    using cls by (simp add: trim_def not_space_upper not_space_digit)
  show ?thesis
    unfolding sp using cls by (simp add: normalizePostal_def up tr space_not_alnum s)
qed

text \<open>
  Claim C7. A raw string that normalizes successfully survives the format/normalize
  round trip: \<open>normalize (format (normalize x)) = normalize x\<close>. Formatting the
  normalized six-character token puts one space after its third character. The
  normalizer is total: on any input it returns either the failure value \<open>''''\<close> or a
  token of the letter-digit-letter-digit-letter-digit pattern.
\<close>

theorem normalizePostal_roundtrip:
  assumes "normalizePostal x \<noteq> ''''"
  shows "normalizePostal (formatPostal (normalizePostal x)) = normalizePostal x
    \<and> formatPostal (normalizePostal x)
           = take 3 (normalizePostal x) @ '' '' @ drop 3 (normalizePostal x)
    \<and> length (normalizePostal x) = 6
    \<and> length (formatPostal (normalizePostal x)) = 7
    \<and> formatPostal (normalizePostal x) ! 3 = CHR '' ''
    \<and> (\<forall>y. normalizePostal y = '''' \<or> postal_pattern (normalizePostal y))"
proof -
  let ?p = "normalizePostal x"
  have pat: "postal_pattern ?p"
    using assms normalizePostal_result [of x] by simp
  have idem: "normalizePostal ?p = ?p"
    using pat by (rule normalizePostal_fixed)
  have fmt: "formatPostal ?p = take 3 ?p @ '' '' @ drop 3 ?p"
    using assms by (simp add: formatPostal_def idem Let_def)
  have rt: "normalizePostal (formatPostal ?p) = ?p"
    unfolding fmt using pat by (rule normalizePostal_spaced)
  from pat obtain a b c d e f where s: "?p = [a, b, c, d, e, f]"
    by (rule postal_pattern_cases)
  have l6: "length ?p = 6" by (simp add: s)
  have l7: "length (formatPostal ?p) = 7" unfolding fmt by (simp add: s)
  have sp: "formatPostal ?p ! 3 = CHR '' ''" unfolding fmt by (simp add: s)
  have tot: "\<forall>y. normalizePostal y = '''' \<or> postal_pattern (normalizePostal y)"
    by (simp add: normalizePostal_result)
  from rt fmt l6 l7 sp tot show ?thesis by blast
qed

lemmas string_eval = normalizePostal_def trim_def toUpperCase_def upper_char_def is_upper_def
  is_digit_def is_space_def upper_letters_def lower_letters_def digits_def

lemma normalizePostal_K1A: "normalizePostal ''k1a 0b1'' = ''K1A0B1''"
  by (simp add: string_eval)

theorem normalizePostal_roundtrip_witness:
  "normalizePostal ''k1a 0b1'' = ''K1A0B1''
   \<and> formatPostal ''K1A0B1'' = ''K1A 0B1''
   \<and> normalizePostal (formatPostal ''K1A0B1'') = ''K1A0B1''
   \<and> normalizePostal ''not a postal code'' = ''''"
proof -
  have ok: "normalizePostal ''k1a 0b1'' \<noteq> ''''"
    by (simp add: normalizePostal_K1A)
  have bad: "normalizePostal ''not a postal code'' = ''''"
    by (simp add: string_eval)
  note rt = normalizePostal_roundtrip [OF ok, unfolded normalizePostal_K1A]
  from rt have "formatPostal ''K1A0B1'' = ''K1A 0B1''" by simp
  with rt bad show ?thesis
    using normalizePostal_K1A by blast
qed

section \<open>Properties of the distance estimator\<close>

lemma toRad_diff: "toRad (x - y) = toRad x - toRad y"
  by (simp add: toRad_def algebra_simps diff_divide_distrib)

lemma sin_half_sq: "(sin (x / 2))\<^sup>2 = (1 - cos (x::real)) / 2"
  using cos_double_sin [of "x / 2"] by simp

lemma haversine_s_nonneg: "0 \<le> haversine_s a b"
proof -
  define p where "p = toRad (lat a)"
  define q where "q = toRad (lat b)"
  define y where "y = toRad (lon b - lon a) / 2"
  have s: "haversine_s a b = (sin ((q - p) / 2))\<^sup>2 + cos p * cos q * (sin y)\<^sup>2"
    by (simp add: haversine_s_def Let_def toRad_diff p_def q_def y_def)
  show ?thesis
  proof (cases "0 \<le> cos p * cos q")
    case True
    then show ?thesis unfolding s by (simp add: mult_nonneg_nonneg)
  next
    case False
    then have neg: "cos p * cos q < 0" by simp
    have "(sin y)\<^sup>2 \<le> 1" using sin_cos_squared_add [of y] zero_le_power2 [of "cos y"] by linarith
    then have "cos p * cos q * 1 \<le> cos p * cos q * (sin y)\<^sup>2"
      using neg by (intro mult_left_mono_neg) simp_all
    moreover have "(sin ((q - p) / 2))\<^sup>2 + cos p * cos q = (1 + cos (p + q)) / 2"
      by (simp add: sin_half_sq cos_diff cos_add field_simps)
    moreover have "0 \<le> (1 + cos (p + q)) / 2"
    proof -
      have "- 1 \<le> cos (p + q)" by (rule cos_ge_minus_one)
      then have "0 \<le> 1 + cos (p + q)" by linarith
      then show ?thesis by simp
    qed
    ultimately show ?thesis unfolding s by linarith
  qed
qed

lemma haversine_s_sym: "haversine_s a b = haversine_s b a"
proof -
  have 1: "(sin (toRad (lat b - lat a) / 2))\<^sup>2 = (sin (toRad (lat a - lat b) / 2))\<^sup>2"
    by (simp add: sin_half_sq toRad_diff cos_diff mult.commute)
  have 2: "(sin (toRad (lon b - lon a) / 2))\<^sup>2 = (sin (toRad (lon a - lon b) / 2))\<^sup>2"
    by (simp add: sin_half_sq toRad_diff cos_diff mult.commute)
  show ?thesis
    unfolding haversine_s_def Let_def 1 2 by (simp add: mult.commute)
qed

lemma haversine_s_self: "haversine_s a a = 0"
  by (simp add: haversine_s_def toRad_def)

text \<open>
  Claim C8. The straight-line distance is symmetric, it is 0 from a point to itself and
  it is never negative; it is the great-circle haversine formula with Earth radius
  6371 km, on coordinates in degrees (converted to radians by \<open>pi / 180\<close>), in
  kilometres.
\<close>

theorem haversineKm_properties:
  "haversineKm a b = haversineKm b a
   \<and> haversineKm a a = 0
   \<and> 0 \<le> haversineKm a b
   \<and> haversineKm a b = 6371 * (2 * arcsin (min 1 (sqrt (haversine_s a b))))
   \<and> haversine_s a b
       = (sin ((lat b - lat a) * pi / 180 / 2))\<^sup>2
         + cos (lat a * pi / 180) * cos (lat b * pi / 180)
           * (sin ((lon b - lon a) * pi / 180 / 2))\<^sup>2"
proof -
  have sym: "haversineKm a b = haversineKm b a"
    by (simp add: haversineKm_def haversine_s_sym [of a b])
  have self: "haversineKm a a = 0"
    by (simp add: haversineKm_def haversine_s_self)
  have "0 \<le> min 1 (sqrt (haversine_s a b))"
    using haversine_s_nonneg [of a b] by simp
  moreover have "min 1 (sqrt (haversine_s a b)) \<le> 1" by simp
  ultimately have "0 \<le> arcsin (min 1 (sqrt (haversine_s a b)))"
    by (intro arcsin_nonneg) simp
  then have nonneg: "0 \<le> haversineKm a b"
    by (simp add: haversineKm_def)
  have formula: "haversineKm a b = 6371 * (2 * arcsin (min 1 (sqrt (haversine_s a b))))"
    by (simp add: haversineKm_def)
  have s: "haversine_s a b
       = (sin ((lat b - lat a) * pi / 180 / 2))\<^sup>2
         + cos (lat a * pi / 180) * cos (lat b * pi / 180)
           * (sin ((lon b - lon a) * pi / 180 / 2))\<^sup>2"
    by (simp add: haversine_s_def toRad_def)
  from sym self nonneg formula s show ?thesis by blast
qed

subsection \<open>Binary64 rounding\<close>

lemma pow2_powi: "pow2 e = 2 powi e"
  by (simp add: pow2_def power_int_def inverse_eq_divide power_one_over)

lemma pow2_pos: "0 < pow2 e"
  by (simp add: pow2_powi zero_less_power_int)

lemma pow2_add: "pow2 (a + b) = pow2 a * pow2 b"
  by (simp add: pow2_powi power_int_add)

lemma pow2_mono: "a \<le> b \<Longrightarrow> pow2 a \<le> pow2 b"
  by (simp add: pow2_powi power_int_increasing)

lemma pow2_less: "pow2 a < pow2 b \<Longrightarrow> a < b"
  using pow2_mono [of b a] by (cases "a < b") auto

lemma pow2_0: "pow2 0 = 1"
  by (simp add: pow2_def)

lemma pow2_1: "pow2 1 = 2"
  by (simp add: pow2_def)

lemma pow2_Suc: "pow2 (e + 1) = 2 * pow2 e"
  by (simp add: pow2_add pow2_1)

lemma pow2_pred: "pow2 (e - 1) = pow2 e / 2"
  using pow2_Suc [of "e - 1"] by simp

lemma pow2_nat: "0 \<le> e \<Longrightarrow> pow2 e = of_int (2 ^ nat e)"
  by (simp add: pow2_def)

lemma pow2_grid: "b \<le> c \<Longrightarrow> pow2 c = of_int (2 ^ nat (c - b)) * pow2 b"
proof -
  assume bc: "b \<le> c"
  have "pow2 c = pow2 ((c - b) + b)" by simp
  also have "\<dots> = pow2 (c - b) * pow2 b" by (rule pow2_add)
  also have "pow2 (c - b) = of_int (2 ^ nat (c - b))" using bc by (intro pow2_nat) simp
  finally show ?thesis .
qed

lemma int_grid: "b \<le> 0 \<Longrightarrow> of_int n = of_int (n * 2 ^ nat (- b)) * pow2 b"
proof -
  assume "b \<le> 0"
  then have "1 = of_int (2 ^ nat (- b)) * pow2 b"
    using pow2_grid [of b 0] by (simp only: pow2_0 diff_0)
  then have "of_int n = of_int n * (of_int (2 ^ nat (- b)) * pow2 b)" by simp
  then show ?thesis by (simp only: of_int_mult mult.assoc)
qed

text \<open>
  The two loops of \<open>binade\<close>: while they run, \<open>a * 2 ^ e\<close> stays the magnitude they
  started from, and they stop in its binade or at the end of the range.
\<close>

lemma binade_up_spec:
  "1 \<le> a \<Longrightarrow>
     e \<le> binade_up n a e \<and> binade_up n a e \<le> e + int n
     \<and> pow2 (binade_up n a e) \<le> a * pow2 e
     \<and> (binade_up n a e = e + int n \<or> a * pow2 e < pow2 (binade_up n a e + 1))"
proof (induction n arbitrary: a e)
  case 0
  then show ?case using pow2_pos [of e] by simp
next
  case (Suc n)
  show ?case
  proof (cases "2 \<le> a")
    case True
    then have "1 \<le> a / 2" by simp
    from Suc.IH [OF this, of "e + 1"] True show ?thesis
      by (auto simp add: pow2_Suc)
  next
    case False
    with Suc.prems pow2_pos [of e] show ?thesis
      by (simp add: pow2_Suc)
  qed
qed

lemma binade_down_spec:
  "0 \<le> a \<Longrightarrow> a < 2 \<Longrightarrow>
     e - int n \<le> binade_down n a e \<and> binade_down n a e \<le> e
     \<and> a * pow2 e < pow2 (binade_down n a e + 1)
     \<and> (binade_down n a e = e - int n \<or> pow2 (binade_down n a e) \<le> a * pow2 e)"
proof (induction n arbitrary: a e)
  case 0
  then show ?case using pow2_pos [of e] by (simp add: pow2_Suc)
next
  case (Suc n)
  show ?case
  proof (cases "a < 1")
    case True
    with Suc.prems have "0 \<le> a * 2" "a * 2 < 2" by simp_all
    from Suc.IH [OF this, of "e - 1"] True show ?thesis
      by (auto simp add: pow2_pred)
  next
    case False
    with Suc.prems pow2_pos [of e] show ?thesis
      by (simp add: pow2_Suc)
  qed
qed

lemma binade_range: "- 1022 \<le> binade x \<and> binade x \<le> 1023"
proof (cases "1 \<le> \<bar>x\<bar>")
  case True
  from binade_up_spec [OF this, of 0 1023] True show ?thesis
    by (simp add: binade_def)
next
  case False
  then have "0 \<le> \<bar>x\<bar>" "\<bar>x\<bar> < 2" by simp_all
  from binade_down_spec [OF this, of 0 1022] False show ?thesis
    by (simp add: binade_def)
qed

lemma binade_lower: "binade x = - 1022 \<or> pow2 (binade x) \<le> \<bar>x\<bar>"
proof (cases "1 \<le> \<bar>x\<bar>")
  case True
  from binade_up_spec [OF this, of 0 1023] True show ?thesis
    by (simp add: binade_def pow2_0)
next
  case False
  then have "0 \<le> \<bar>x\<bar>" "\<bar>x\<bar> < 2" by simp_all
  from binade_down_spec [OF this, of 0 1022] False show ?thesis
    by (simp add: binade_def pow2_0)
qed

lemma binade_upper: "binade x = 1023 \<or> \<bar>x\<bar> < pow2 (binade x + 1)"
proof (cases "1 \<le> \<bar>x\<bar>")
  case True
  from binade_up_spec [OF this, of 0 1023] True show ?thesis
    by (simp add: binade_def pow2_0)
next
  case False
  then have "0 \<le> \<bar>x\<bar>" "\<bar>x\<bar> < 2" by simp_all
  from binade_down_spec [OF this, of 0 1022] False show ?thesis
    by (simp add: binade_def pow2_0)
qed

lemma binade_le: "\<bar>x\<bar> < pow2 (e + 1) \<Longrightarrow> - 1022 \<le> e \<Longrightarrow> binade x \<le> e"
proof (rule ccontr)
  assume x: "\<bar>x\<bar> < pow2 (e + 1)" and e: "- 1022 \<le> e" and "\<not> binade x \<le> e"
  then have b: "e + 1 \<le> binade x" by simp
  with e binade_lower [of x] have "pow2 (binade x) \<le> \<bar>x\<bar>" by auto
  with pow2_mono [OF b] x show False by simp
qed

lemma binade_ge: "pow2 e \<le> \<bar>x\<bar> \<Longrightarrow> e \<le> 1023 \<Longrightarrow> e \<le> binade x"
proof (rule ccontr)
  assume x: "pow2 e \<le> \<bar>x\<bar>" and e: "e \<le> 1023" and "\<not> e \<le> binade x"
  then have b: "binade x + 1 \<le> e" by simp
  with e binade_upper [of x] have "\<bar>x\<bar> < pow2 (binade x + 1)" by auto
  with pow2_mono [OF b] x show False by simp
qed

lemma binade_eq:
  "pow2 e \<le> \<bar>x\<bar> \<Longrightarrow> \<bar>x\<bar> < pow2 (e + 1) \<Longrightarrow> - 1022 \<le> e \<Longrightarrow> e \<le> 1023 \<Longrightarrow> binade x = e"
  using binade_le [of x e] binade_ge [of e x] by simp

lemma round_even_le: "q \<le> of_int k \<Longrightarrow> round_even q \<le> k"
proof -
  assume q: "q \<le> of_int k"
  then have f: "\<lfloor>q\<rfloor> \<le> k" using floor_mono [of q "of_int k"] by simp
  show ?thesis
  proof (cases "\<lfloor>q\<rfloor> = k")
    case True
    with q have "q - of_int \<lfloor>q\<rfloor> \<le> 0" by simp
    then show ?thesis using True by (simp add: round_even_def Let_def)
  next
    case False
    with f have "\<lfloor>q\<rfloor> + 1 \<le> k" by simp
    then show ?thesis by (simp add: round_even_def Let_def)
  qed
qed

lemma round_even_ge: "of_int k \<le> q \<Longrightarrow> k \<le> round_even q"
proof -
  assume "of_int k \<le> q"
  then have "k \<le> \<lfloor>q\<rfloor>" by (simp add: le_floor_iff)
  then show ?thesis by (simp add: round_even_def Let_def)
qed

lemma round_even_err: "\<bar>of_int (round_even q) - q\<bar> \<le> 1 / 2"
proof -
  have "of_int \<lfloor>q\<rfloor> \<le> q" "q < of_int \<lfloor>q\<rfloor> + 1" by linarith+
  then show ?thesis by (auto simp: round_even_def Let_def)
qed

text \<open>
  Rounding never crosses a number of the binade's grid, so it keeps every bound that
  lies on the grid: zero, a power of two at or above the spacing, and an integer while
  the spacing is at most one.
\<close>

lemma round64_grid_le:
  assumes "x \<le> of_int k * pow2 (binade x - 52)"
  shows "round64 x \<le> of_int k * pow2 (binade x - 52)"
proof -
  have u: "0 < pow2 (binade x - 52)" by (rule pow2_pos)
  with assms have "x / pow2 (binade x - 52) \<le> of_int k"
    by (simp add: pos_divide_le_eq)
  then have "round_even (x / pow2 (binade x - 52)) \<le> k" by (rule round_even_le)
  then have "real_of_int (round_even (x / pow2 (binade x - 52))) \<le> of_int k" by simp
  with u show ?thesis by (simp add: round64_def Let_def)
qed

lemma round64_grid_ge:
  assumes "of_int k * pow2 (binade x - 52) \<le> x"
  shows "of_int k * pow2 (binade x - 52) \<le> round64 x"
proof -
  have u: "0 < pow2 (binade x - 52)" by (rule pow2_pos)
  with assms have "of_int k \<le> x / pow2 (binade x - 52)"
    by (simp add: pos_le_divide_eq)
  then have "k \<le> round_even (x / pow2 (binade x - 52))" by (rule round_even_ge)
  then have "real_of_int k \<le> of_int (round_even (x / pow2 (binade x - 52)))" by simp
  with u show ?thesis by (simp add: round64_def Let_def)
qed

lemma round64_nonneg: "0 \<le> x \<Longrightarrow> 0 \<le> round64 x"
  using round64_grid_ge [of 0 x] by simp

lemma round64_nonpos: "x \<le> 0 \<Longrightarrow> round64 x \<le> 0"
  using round64_grid_le [of x 0] by simp

lemma round64_0: "round64 0 = 0"
  using round64_nonneg [of 0] round64_nonpos [of 0] by simp

lemma round64_le_pow2:
  assumes "x \<le> pow2 c" and "binade x - 52 \<le> c"
  shows "round64 x \<le> pow2 c"
proof -
  define K :: int where "K = 2 ^ nat (c - (binade x - 52))"
  have g: "pow2 c = of_int K * pow2 (binade x - 52)"
    unfolding K_def using assms(2) by (rule pow2_grid)
  from assms(1) have "x \<le> of_int K * pow2 (binade x - 52)" unfolding g .
  then have "round64 x \<le> of_int K * pow2 (binade x - 52)" by (rule round64_grid_le)
  then show ?thesis unfolding g .
qed

lemma round64_ge_minus_pow2:
  assumes "- pow2 c \<le> x" and "binade x - 52 \<le> c"
  shows "- pow2 c \<le> round64 x"
proof -
  define K :: int where "K = - (2 ^ nat (c - (binade x - 52)))"
  have "pow2 c = of_int (2 ^ nat (c - (binade x - 52))) * pow2 (binade x - 52)"
    using assms(2) by (rule pow2_grid)
  then have g: "- pow2 c = of_int K * pow2 (binade x - 52)"
    unfolding K_def by simp
  from assms(1) have "of_int K * pow2 (binade x - 52) \<le> x" unfolding g .
  then have "of_int K * pow2 (binade x - 52) \<le> round64 x" by (rule round64_grid_ge)
  then show ?thesis unfolding g .
qed

lemma round64_ge_pow2:
  assumes "pow2 e \<le> x" and "- 1022 \<le> e" and "e \<le> 1023"
  shows "pow2 e \<le> round64 x"
proof -
  have x: "\<bar>x\<bar> = x" using assms(1) pow2_pos [of e] by simp
  with assms have eb: "e \<le> binade x" using binade_ge [of e x] by simp
  have "pow2 (binade x) \<le> x"
  proof (cases "binade x = - 1022")
    case True
    with eb assms(2) have "binade x = e" by simp
    with assms(1) show ?thesis by simp
  next
    case False
    with binade_lower [of x] x show ?thesis by simp
  qed
  moreover have grid: "pow2 (binade x) = of_int (2 ^ 52) * pow2 (binade x - 52)"
    using pow2_grid [of "binade x - 52" "binade x"] by simp
  ultimately have "of_int (2 ^ 52) * pow2 (binade x - 52) \<le> round64 x"
    using round64_grid_ge [of "2 ^ 52" x] by simp
  with grid pow2_mono [OF eb] show ?thesis by simp
qed

lemma round64_le_int:
  assumes "x \<le> of_int n" and "binade x \<le> 52"
  shows "round64 x \<le> of_int n"
proof -
  define K :: int where "K = n * 2 ^ nat (- (binade x - 52))"
  have g: "real_of_int n = of_int K * pow2 (binade x - 52)"
    unfolding K_def by (rule int_grid) (use assms(2) in simp)
  from assms(1) have "x \<le> of_int K * pow2 (binade x - 52)" unfolding g .
  then have "round64 x \<le> of_int K * pow2 (binade x - 52)" by (rule round64_grid_le)
  then show ?thesis unfolding g .
qed

text \<open>The rounding error is at most half the spacing of the binade.\<close>

lemma round64_err_abs: "\<bar>round64 x - x\<bar> \<le> pow2 (binade x - 53)"
proof -
  define u where "u = pow2 (binade x - 52)"
  have u: "0 < u" unfolding u_def by (rule pow2_pos)
  have half: "pow2 (binade x - 53) = u / 2"
    unfolding u_def using pow2_pred [of "binade x - 52"] by simp
  have "round64 x - x = (of_int (round_even (x / u)) - x / u) * u"
    using u by (simp add: round64_def u_def [symmetric] field_simps)
  then have "\<bar>round64 x - x\<bar> = \<bar>of_int (round_even (x / u)) - x / u\<bar> * u"
    using u by (simp add: abs_mult)
  also have "\<dots> \<le> (1 / 2) * u"
    using round_even_err [of "x / u"] u by (intro mult_right_mono) simp_all
  finally show ?thesis using half by simp
qed

lemma round64_err:
  assumes "pow2 (- 1022) \<le> \<bar>x\<bar>"
  shows "\<bar>round64 x - x\<bar> \<le> \<bar>x\<bar> / 2 ^ 53"
proof -
  have b: "pow2 (binade x) \<le> \<bar>x\<bar>"
    using binade_lower [of x] assms by auto
  have "pow2 (binade x) = 2 ^ 53 * pow2 (binade x - 53)"
    using pow2_grid [of "binade x - 53" "binade x"] by simp
  with b have "pow2 (binade x - 53) \<le> \<bar>x\<bar> / 2 ^ 53" by simp
  with round64_err_abs [of x] show ?thesis by simp
qed

text \<open>Evaluating a rounding, once the binade is known.\<close>

lemma round64_eval:
  "pow2 e \<le> \<bar>x\<bar> \<Longrightarrow> \<bar>x\<bar> < pow2 (e + 1) \<Longrightarrow> - 1022 \<le> e \<Longrightarrow> e \<le> 1023
     \<Longrightarrow> round64 x = of_int (round_even (x / pow2 (e - 52))) * pow2 (e - 52)"
  by (simp add: round64_def binade_eq Let_def)

lemma binary64_finite:
  assumes "\<bar>x\<bar> < pow2 (e + 1)" and "- 1022 \<le> e" and "e \<le> 1022"
  shows "binary64 x = Fin (round64 x)"
proof -
  from assms have b: "binade x - 52 \<le> e + 1" using binade_le [of x e] by simp
  from assms(1) have "x \<le> pow2 (e + 1)" "- pow2 (e + 1) \<le> x" by simp_all
  with b have r: "round64 x \<le> pow2 (e + 1)" "- pow2 (e + 1) \<le> round64 x"
    by (simp_all add: round64_le_pow2 round64_ge_minus_pow2)
  have "pow2 (e + 1) < pow2 1024"
    using pow2_mono [of "e + 1" 1023] assms(3) pow2_Suc [of 1023] pow2_pos [of 1023] by simp
  with r show ?thesis by (simp add: binary64_def Let_def)
qed

lemma binary64_eval:
  assumes "pow2 e \<le> \<bar>x\<bar>" "\<bar>x\<bar> < pow2 (e + 1)" "- 1022 \<le> e" "e \<le> 1022"
  shows "binary64 x = Fin (of_int (round_even (x / pow2 (e - 52))) * pow2 (e - 52))"
proof -
  have "binary64 x = Fin (round64 x)" using assms(2-4) by (rule binary64_finite)
  moreover have "round64 x = of_int (round_even (x / pow2 (e - 52))) * pow2 (e - 52)"
    using assms by (intro round64_eval) simp_all
  ultimately show ?thesis by simp
qed

lemma binary64_overflow: "pow2 1024 \<le> x \<Longrightarrow> binary64 x = PInf"
proof -
  assume x: "pow2 1024 \<le> x"
  have "pow2 1023 \<le> x" using x pow2_mono [of 1023 1024] by simp
  moreover have "0 < pow2 1023" by (rule pow2_pos)
  ultimately have "pow2 1023 \<le> \<bar>x\<bar>" by simp
  then have b: "binade x = 1023" using binade_ge [of 1023 x] binade_range [of x] by simp
  have "pow2 1024 = of_int (2 ^ 53) * pow2 (binade x - 52)"
    using pow2_grid [of "971" 1024] b by simp
  with x round64_grid_ge [of "2 ^ 53" x] show ?thesis
    by (simp add: binary64_def Let_def)
qed

text \<open>A fraction of an hour and its minutes: two roundings that stay within their bounds.\<close>

lemma unit_round:
  assumes "0 \<le> d" "d < 1"
  shows "0 \<le> round64 d \<and> round64 d \<le> 1 \<and> \<bar>round64 d - d\<bar> \<le> 1 / 2 ^ 53"
proof -
  from assms have "\<bar>d\<bar> < pow2 (0 + 1)" by (simp add: pow2_def)
  then have b: "binade d \<le> 0" by (rule binade_le) simp
  then have b52: "binade d \<le> 52" by simp
  have "d \<le> of_int 1" using assms by simp
  then have "round64 d \<le> of_int 1" using b52 by (rule round64_le_int)
  moreover have "0 \<le> round64 d" using assms(1) by (rule round64_nonneg)
  moreover have "pow2 (binade d - 53) \<le> pow2 (- 53)" using b by (intro pow2_mono) simp
  then have "\<bar>round64 d - d\<bar> \<le> 1 / 2 ^ 53"
    using round64_err_abs [of d] by (simp add: pow2_def)
  ultimately show ?thesis by simp
qed

lemma sixty_round:
  assumes "0 \<le> g" "g \<le> 60"
  shows "0 \<le> round64 g \<and> round64 g \<le> 60 \<and> \<bar>round64 g - g\<bar> \<le> 1 / 2 ^ 48"
proof -
  from assms have "\<bar>g\<bar> < pow2 (5 + 1)" by (simp add: pow2_def)
  then have b: "binade g \<le> 5" by (rule binade_le) simp
  then have b52: "binade g \<le> 52" by simp
  have "g \<le> of_int 60" using assms by simp
  then have "round64 g \<le> of_int 60" using b52 by (rule round64_le_int)
  moreover have "0 \<le> round64 g" using assms(1) by (rule round64_nonneg)
  moreover have "pow2 (binade g - 53) \<le> pow2 (- 48)" using b by (intro pow2_mono) simp
  then have "\<bar>round64 g - g\<bar> \<le> 1 / 2 ^ 48"
    using round64_err_abs [of g] by (simp add: pow2_def)
  ultimately show ?thesis by simp
qed

lemma minutes_round:
  assumes "0 \<le> d" "d < 1"
  shows "0 \<le> js_round (round64 (round64 d * 60))
       \<and> js_round (round64 (round64 d * 60)) \<le> 60
       \<and> \<bar>round64 (round64 d * 60) - d * 60\<bar> \<le> 1 / 2 ^ 46"
proof -
  from unit_round [OF assms]
  have f: "0 \<le> round64 d" "round64 d \<le> 1" "\<bar>round64 d - d\<bar> \<le> 1 / 2 ^ 53" by simp_all
  then have "0 \<le> round64 d * 60" "round64 d * 60 \<le> 60" by simp_all
  from sixty_round [OF this]
  have m: "0 \<le> round64 (round64 d * 60)" "round64 (round64 d * 60) \<le> 60"
    "\<bar>round64 (round64 d * 60) - round64 d * 60\<bar> \<le> 1 / 2 ^ 48" by simp_all
  have r: "0 \<le> js_round (round64 (round64 d * 60))" "js_round (round64 (round64 d * 60)) \<le> 60"
    using m(1,2) unfolding js_round_def by linarith+
  have "\<bar>round64 (round64 d * 60) - d * 60\<bar>
        = \<bar>(round64 (round64 d * 60) - round64 d * 60) + 60 * (round64 d - d)\<bar>"
    by (simp add: algebra_simps)
  also have "\<dots> \<le> \<bar>round64 (round64 d * 60) - round64 d * 60\<bar> + \<bar>60 * (round64 d - d)\<bar>"
    by (rule abs_triangle_ineq)
  finally have t: "\<bar>round64 (round64 d * 60) - d * 60\<bar>
        \<le> \<bar>round64 (round64 d * 60) - round64 d * 60\<bar> + \<bar>60 * (round64 d - d)\<bar>" .
  have e: "\<bar>60 * (round64 d - d)\<bar> = 60 * \<bar>round64 d - d\<bar>"
    by (subst abs_mult) simp
  have n: "1 / 2 ^ 48 + 60 * (1 / 2 ^ 53) \<le> (1::real) / 2 ^ 46" by simp
  from t e m(3) f(3) n have "\<bar>round64 (round64 d * 60) - d * 60\<bar> \<le> 1 / 2 ^ 46"
    by linarith
  then show ?thesis using r by simp
qed

lemma quotient_finite:
  assumes "\<bar>k\<bar> < pow2 1024" and "16 \<le> v"
  shows "binary64 (k / v) = Fin (round64 (k / v))"
proof -
  have v: "0 < v" using assms(2) by simp
  have "\<bar>k / v\<bar> = \<bar>k\<bar> / v" using v by simp
  also have "\<dots> \<le> \<bar>k\<bar> / 16" using assms(2) by (intro divide_left_mono) simp_all
  also have "\<dots> < pow2 1024 / 16" using assms(1) by simp
  also have "pow2 1024 / 16 = pow2 (1019 + 1)"
    using pow2_grid [of 1020 1024] by simp
  finally show ?thesis by (rule binary64_finite) simp_all
qed

lemma js_show_small: "0 \<le> m \<Longrightarrow> m \<le> 60 \<Longrightarrow> js_show m = show_nat (nat m)"
proof -
  assume m: "0 \<le> m" "m \<le> 60"
  then have "nat m < 2 ^ 53" by simp
  with m show ?thesis
    by (simp only: js_show_def js_show_nat_def if_True not_less [symmetric] if_False)
qed

subsection \<open>The effective factor\<close>

lemma clamp_range: "lo \<le> hi \<Longrightarrow> lo \<le> clamp x lo hi \<and> clamp x lo hi \<le> hi"
  by (cases x) (simp_all add: clamp_def isFinite_def)












lemma binary64_6: "binary64 6 = Fin 6"
  by (subst binary64_eval [where e = 2]) (simp_all add: pow2_def round_even_def Let_def)

lemma binary64_7_5: "binary64 (15 / 2) = Fin (15 / 2)"
  by (subst binary64_eval [where e = 2]) (simp_all add: pow2_def round_even_def Let_def)


lemma prov_penalty_ON: "prov_penalty ''ON'' = Fin 6"
  by (simp add: prov_penalty_def PROV_PENALTY_def binary64_6)




lemma js_round_nearest: "\<bar>of_int (js_round x) - x\<bar> \<le> 1 / 2"
  unfolding js_round_def by linarith

lemma input_number_range:
  "lo \<le> hi \<Longrightarrow> lo \<le> input_number lo hi d x \<and> input_number lo hi d x \<le> hi"
  by (cases x) (simp_all add: input_number_def)

section \<open>Properties of the geolocation resolver\<close>

lemma normalizePostal_idem: "normalizePostal (normalizePostal x) = normalizePostal x"
proof (cases "normalizePostal x = ''''")
  case True
  then show ?thesis by (simp add: string_eval)
next
  case False
  with normalizePostal_result [of x] have "postal_pattern (normalizePostal x)" by simp
  then show ?thesis by (rule normalizePostal_fixed)
qed

lemma latLonForPostal_invalid:
  "normalizePostal p6 = '''' \<Longrightarrow> latLonForPostal TS PP p6 cityHint provHint = None"
  by (simp add: latLonForPostal_def)

lemma PROV_CENTER_empty: "map_of PROV_CENTER '''' = None"
  by (simp add: PROV_CENTER_def)

lemma provFromFirstLetter_unrecognized:
  "\<forall>c \<in> set ''DFIOQUWZ''. provFromFirstLetter [c] = ''''"
  by (simp add: provFromFirstLetter_def toUpperCase_def upper_char_def upper_letters_def
      lower_letters_def)

lemma provFromFirstLetter_recognized:
  "\<forall>c \<in> set ''ABCEGHJKLMNPRSTVXY''. map_of PROV_CENTER (provFromFirstLetter [c]) \<noteq> None"
  by (simp add: provFromFirstLetter_def toUpperCase_def upper_char_def upper_letters_def
      lower_letters_def PROV_CENTER_def)

text \<open>
  Claim C4 (as amended). For a postal code that normalizes to \<open>p\<close>, the tiers are
  tried in order and the first hit wins: (1) the override table gives an exact
  (\<open>postal\<close>) coordinate; (2) with a non-empty city and a non-empty region, the
  (upper-cased city, region) centroid gives a \<open>city\<close> coordinate; (3) the region's
  centroid gives a \<open>prov\<close> coordinate; (4) otherwise the result is unresolved. The
  region of tiers 2 and 3 is the upper-cased, trimmed region hint whenever a non-empty
  hint is given; only without a hint is it taken from the postal-to-region map when
  the map has the code, and otherwise derived from the code's first character. A first
  character that the derivation does not know (D, F, I, O, Q, U, W, Z) gives the empty
  region, and then, with no hint, no map entry and no override, an unresolved result.
\<close>

theorem latLonForPostal_tiers:
  assumes p: "normalizePostal p6 = p" and ok: "p \<noteq> ''''"
  shows
   "(let region = (if truthy provHint then trim (toUpperCase (the provHint))
                   else case PP p of
                          Some pr \<Rightarrow> if pr \<noteq> '''' then toUpperCase pr
                                     else provFromFirstLetter (take 1 p)
                        | None \<Rightarrow> provFromFirstLetter (take 1 p));
         cty = (if truthy cityHint then trim (toUpperCase (the cityHint)) else '''');
         city_hit = (if cty \<noteq> '''' \<and> region \<noteq> ''''
                     then map_of CITY_COORD (cty @ ''|'' @ region) else None);
         r = latLonForPostal TS PP p6 cityHint provHint
     in (\<forall>c. POSTAL_OVERRIDE TS p = Some c \<longrightarrow> r = Some (mk_ll c Postal region cty))
      \<and> (\<forall>c. POSTAL_OVERRIDE TS p = None \<and> city_hit = Some c
              \<longrightarrow> r = Some (mk_ll c City region cty))
      \<and> (\<forall>c. POSTAL_OVERRIDE TS p = None \<and> city_hit = None
               \<and> map_of PROV_CENTER region = Some c
              \<longrightarrow> r = Some (mk_ll c Prov region ''''))
      \<and> (POSTAL_OVERRIDE TS p = None \<and> city_hit = None
               \<and> map_of PROV_CENTER region = None
              \<longrightarrow> r = None)
      \<and> (\<not> truthy provHint \<and> PP p = None \<and> provFromFirstLetter (take 1 p) = ''''
              \<longrightarrow> region = '''' \<and> (POSTAL_OVERRIDE TS p = None \<longrightarrow> r = None)))
    \<and> (\<forall>c \<in> set ''DFIOQUWZ''. provFromFirstLetter [c] = '''')"
proof -
  have idem: "normalizePostal p = p"
    using p normalizePostal_idem [of p6] by simp
  have region: "hint_prov PP p provHint
      = (if truthy provHint then trim (toUpperCase (the provHint))
         else case PP p of
                Some pr \<Rightarrow> if pr \<noteq> '''' then toUpperCase pr
                           else provFromFirstLetter (take 1 p)
              | None \<Rightarrow> provFromFirstLetter (take 1 p))"
    using ok by (simp add: hint_prov_def provForPostal_def idem)
  have r: "latLonForPostal TS PP p6 cityHint provHint
      = (let pv = hint_prov PP p provHint; ct = hint_city cityHint
         in case POSTAL_OVERRIDE TS p of
              Some c \<Rightarrow> Some (mk_ll c Postal pv ct)
            | None \<Rightarrow>
               (case (if ct \<noteq> '''' \<and> pv \<noteq> '''' then map_of CITY_COORD (ct @ ''|'' @ pv) else None) of
                  Some c \<Rightarrow> Some (mk_ll c City pv ct)
                | None \<Rightarrow>
                   (case (if pv \<noteq> '''' then map_of PROV_CENTER pv else None) of
                      Some c \<Rightarrow> Some (mk_ll c Prov pv '''')
                    | None \<Rightarrow> None)))"
    using ok by (simp add: latLonForPostal_def p)
  have main: "?thesis"
    unfolding Let_def r region [symmetric] hint_city_def [symmetric]
    using provFromFirstLetter_unrecognized PROV_CENTER_empty
    by (auto simp: region split: option.splits if_splits)
  then show ?thesis .
qed

lemmas resolver_eval = latLonForPostal_def hint_prov_def hint_city_def truthy_def
  provForPostal_def provFromFirstLetter_def POSTAL_OVERRIDE_def mk_ll_def
  PROV_CENTER_def CITY_COORD_def

theorem latLonForPostal_tiers_witness:
  "latLonForPostal [] Map.empty ''k1a 0b1'' None None
     = Some \<lparr>lat = 43.6532, lon = -79.3832, prec = Prov, prov = ''ON'', ll_city = ''''\<rparr>
   \<and> provFromFirstLetter ''D'' = ''''"
proof -
  have ok: "''K1A0B1'' \<noteq> ''''" by simp
  have ov: "POSTAL_OVERRIDE [] ''K1A0B1'' = None"
    by (simp add: POSTAL_OVERRIDE_def)
  have reg: "provFromFirstLetter ''K'' = ''ON''"
    by (simp add: provFromFirstLetter_def toUpperCase_def upper_char_def upper_letters_def
        lower_letters_def)
  have cen: "map_of PROV_CENTER ''ON'' = Some \<lparr>lat = 43.6532, lon = -79.3832\<rparr>"
    by (simp add: PROV_CENTER_def)
  show ?thesis
    using latLonForPostal_tiers [OF normalizePostal_K1A ok,
        where provHint = None and cityHint = None and TS = "[]" and PP = Map.empty]
    by (simp add: Let_def truthy_def ov reg cen mk_ll_def)
qed

text \<open>
  The claim as stated takes the region of tier 3 from the map or from the first
  character. With the region hint \<open>Ontario\<close> the code K1A0B1 is unresolved although
  its first character gives ON, which has a centroid; with the hint \<open>ON\<close> the code
  V5K0A1 resolves to the centroid of ON, not to that of BC.
\<close>

theorem latLonForPostal_hint_counterexample:
  "latLonForPostal [] Map.empty ''K1A0B1'' None (Some ''Ontario'') = None
   \<and> POSTAL_OVERRIDE [] ''K1A0B1'' = None
   \<and> provForPostal Map.empty ''K1A0B1'' = ''ON''
   \<and> map_of PROV_CENTER ''ON'' = Some \<lparr>lat = 43.6532, lon = -79.3832\<rparr>
   \<and> latLonForPostal [] Map.empty ''V5K0A1'' None (Some ''ON'')
       = Some \<lparr>lat = 43.6532, lon = -79.3832, prec = Prov, prov = ''ON'', ll_city = ''''\<rparr>
   \<and> provForPostal Map.empty ''V5K0A1'' = ''BC''
   \<and> map_of PROV_CENTER ''BC'' = Some \<lparr>lat = 49.2827, lon = -123.1207\<rparr>"
  by (simp add: resolver_eval string_eval)

section \<open>Properties of the ranking engine\<close>

subsection \<open>The sort\<close>

lemma mset_insort_cmp: "mset (insort_cmp cmp x xs) = add_mset x (mset xs)"
  by (induction xs) simp_all

lemma mset_js_sort: "mset (js_sort cmp xs) = mset xs"
  unfolding js_sort_def by (induction xs) (simp_all add: mset_insort_cmp)

lemma set_js_sort: "set (js_sort cmp xs) = set xs"
  using mset_js_sort [of cmp xs] by (metis set_mset_mset)

lemma length_js_sort: "length (js_sort cmp xs) = length xs"
  using mset_js_sort [of cmp xs] by (metis size_mset)

lemma js_sort_Nil_iff: "js_sort cmp xs = [] \<longleftrightarrow> xs = []"
  using length_js_sort [of cmp xs] by (metis length_0_conv)

lemma set_insort_cmp: "set (insort_cmp cmp x xs) = insert x (set xs)"
  using mset_insort_cmp [of cmp x xs] by (metis set_mset_add_mset_insert set_mset_mset)

lemma sorted_insort_cmp:
  assumes total: "\<And>a b. cmp a b \<le> 0 \<or> cmp b a \<le> 0"
    and trans: "\<And>a b c. cmp a b \<le> 0 \<Longrightarrow> cmp b c \<le> 0 \<Longrightarrow> cmp a c \<le> 0"
  shows "sorted_wrt (\<lambda>a b. cmp a b \<le> 0) xs
    \<Longrightarrow> sorted_wrt (\<lambda>a b. cmp a b \<le> 0) (insort_cmp cmp x xs)"
proof (induction xs)
  case Nil
  then show ?case by simp
next
  case (Cons y ys)
  show ?case
  proof (cases "cmp x y \<le> 0")
    case True
    with Cons.prems trans show ?thesis by auto
  next
    case False
    with total have "cmp y x \<le> 0" by blast
    with False Cons show ?thesis by (auto simp: set_insort_cmp)
  qed
qed

lemma sorted_js_sort:
  assumes total: "\<And>a b. cmp a b \<le> 0 \<or> cmp b a \<le> 0"
    and trans: "\<And>a b c. cmp a b \<le> 0 \<Longrightarrow> cmp b c \<le> 0 \<Longrightarrow> cmp a c \<le> 0"
  shows "sorted_wrt (\<lambda>a b. cmp a b \<le> 0) (js_sort cmp xs)"
  unfolding js_sort_def
proof (induction xs)
  case Nil
  then show ?case by simp
next
  case (Cons x xs)
  have "sorted_wrt (\<lambda>a b. cmp a b \<le> 0) (insort_cmp cmp x (foldr (insort_cmp cmp) xs []))"
    using total trans Cons.IH by (rule sorted_insort_cmp)
  then show ?case by simp
qed

lemma cmp_km_le: "cmp_km a b \<le> 0 \<longleftrightarrow> km a \<le> km b"
  by (simp add: cmp_km_def)

lemma sorted_baseline_km: "sorted (map km (js_sort cmp_km xs))"
proof -
  have "sorted_wrt (\<lambda>a b. cmp_km a b \<le> 0) (js_sort cmp_km xs)"
    by (rule sorted_js_sort) (auto simp: cmp_km_le)
  then show ?thesis
    by (simp add: sorted_map cmp_km_le)
qed

text \<open>The key of the re-ranking: duration, then distance, \<open>null\<close> read as \<open>1e12\<close>.\<close>

lemma cmp_drive_le:
  "cmp_drive a b \<le> 0 \<longleftrightarrow>
     or_1e12 (driveMin a) < or_1e12 (driveMin b)
     \<or> (or_1e12 (driveMin a) = or_1e12 (driveMin b) \<and> or_1e12 (driveKm a) \<le> or_1e12 (driveKm b))"
  by (auto simp: cmp_drive_def Let_def)

lemma sorted_reranked:
  "sorted_wrt (\<lambda>a b. or_1e12 (driveMin a) < or_1e12 (driveMin b)
     \<or> (or_1e12 (driveMin a) = or_1e12 (driveMin b) \<and> or_1e12 (driveKm a) \<le> or_1e12 (driveKm b)))
     (js_sort cmp_drive xs)"
proof -
  have "sorted_wrt (\<lambda>a b. cmp_drive a b \<le> 0) (js_sort cmp_drive xs)"
  proof (rule sorted_js_sort)
    show "cmp_drive a b \<le> 0 \<or> cmp_drive b a \<le> 0" for a b
      unfolding cmp_drive_le by linarith
    show "cmp_drive a b \<le> 0 \<Longrightarrow> cmp_drive b c \<le> 0 \<Longrightarrow> cmp_drive a c \<le> 0" for a b c
      unfolding cmp_drive_le by linarith
  qed
  then show ?thesis by (simp add: cmp_drive_le)
qed

subsection \<open>Scored rows\<close>

lemma score_loop_rows:
  "x \<in> set (score_loop TS PP tll ts) \<Longrightarrow>
     tech x \<in> set ts
     \<and> latLonForPostal TS PP (postal (tech x)) (Some (city (tech x))) (Some (province (tech x)))
         = Some (ll x)
     \<and> km x = haversineKm tll (ll x) \<and> miles x = km x * 0.621371
     \<and> driveKm x = None \<and> driveMin x = None \<and> driveMiles x = None"
  by (induction ts) (auto simp: Let_def split: option.splits)

lemma score_loop_complete:
  "t \<in> set ts \<Longrightarrow>
   latLonForPostal TS PP (postal t) (Some (city t)) (Some (province t)) = Some l \<Longrightarrow>
   \<exists>x \<in> set (score_loop TS PP tll ts). tech x = t \<and> ll x = l"
  by (induction ts) (auto simp: Let_def split: option.splits)

lemma baseline_rows: "x \<in> set (baseline pg tll) \<Longrightarrow> scored_row pg tll x"
  unfolding baseline_def set_js_sort scored_row_def
  by (drule score_loop_rows) simp

lemma baseline_undriven:
  "x \<in> set (baseline pg tll) \<Longrightarrow> driveKm x = None \<and> driveMin x = None \<and> driveMiles x = None"
  unfolding baseline_def set_js_sort
  by (drule score_loop_rows) simp

lemma annotate_length: "length (annotate j i cs) = length cs"
  by (induction cs arbitrary: i) (simp_all add: Let_def)

lemma annotate_rows:
  "x \<in> set (annotate j i cs) \<Longrightarrow>
     \<exists>c \<in> set cs. tech x = tech c \<and> km x = km c \<and> miles x = miles c \<and> ll x = ll c"
  by (induction cs arbitrary: i) (auto simp: Let_def)

lemma annotate_map_tech: "map tech (annotate j i cs) = map tech cs"
  by (induction cs arbitrary: i) (simp_all add: Let_def)

lemma annotate_map_km: "map km (annotate j i cs) = map km cs"
  by (induction cs arbitrary: i) (simp_all add: Let_def)

lemma annotate_scored:
  assumes "\<forall>c \<in> set cs. scored_row pg tll c" and "x \<in> set (annotate j i cs)"
  shows "scored_row pg tll x"
proof -
  from annotate_rows [OF assms(2)] obtain c where
    "c \<in> set cs" "tech x = tech c" "km x = km c" "miles x = miles c" "ll x = ll c" by blast
  with assms(1) show ?thesis by (auto simp: scored_row_def)
qed

lemma pick_best_mem: "pick_best cs = Some b \<Longrightarrow> b \<in> set cs"
  by (auto simp: pick_best_def find_Some_iff split: option.splits list.splits)

lemma pick_best_Nil: "pick_best cs = None \<longleftrightarrow> cs = []"
  by (auto simp: pick_best_def split: option.splits list.splits)

lemma renderTopList_rows: "fst ` set (renderTopList rows sd) \<subseteq> set rows"
  by (auto simp: renderTopList_def dest: in_set_takeD)

lemma renderTopList_length: "length (renderTopList rows sd) \<le> 8"
  by (simp add: renderTopList_def)

lemma renderTopList_fst: "map fst (renderTopList rows sd) = take 8 rows"
  by (simp add: renderTopList_def comp_def take_map [symmetric] min_def)

subsection \<open>The paths of \<open>findClosest\<close>\<close>

lemma try_ors_failure:
  assumes "gw p (map (\<lambda>x. postal (tech x)) (take 25 scored)) = NetworkError
     \<or> (\<exists>j. gw p (map (\<lambda>x. postal (tech x)) (take 25 scored)) = Response False j)
     \<or> gw p (map (\<lambda>x. postal (tech x)) (take 25 scored)) = Response True None
     \<or> (\<exists>j. gw p (map (\<lambda>x. postal (tech x)) (take 25 scored)) = Response True (Some j)
            \<and> \<not> ok j)"
  shows "\<exists>e. try_ors gw p scored = Inl e"
  using assms by (auto simp: try_ors_def postJson_def Let_def)

lemma try_ors_success:
  assumes "gw p (map (\<lambda>x. postal (tech x)) (take 25 scored)) = Response True (Some j)"
    and "ok j"
  shows "try_ors gw p scored
    = Inr \<lparr>annotated = annotate j 0 (take 25 scored),
           reranked = js_sort cmp_drive (annotate j 0 (take 25 scored)),
           picked = pick_best (js_sort cmp_drive (annotate j 0 (take 25 scored)))\<rparr>"
  using assms by (simp add: try_ors_def postJson_def Let_def)

lemma try_ors_cong:
  assumes "gw' p (map (\<lambda>x. postal (tech x)) (take 25 scored))
         = gw p (map (\<lambda>x. postal (tech x)) (take 25 scored))"
  shows "try_ors gw' p scored = try_ors gw p scored"
  using assms by (simp add: try_ors_def)

lemma findClosest_scored:
  assumes "ticketPostal fm = p" "p \<noteq> ''''"
    and "latLonForPostal (TECHS pg) (POSTAL_PROV pg) p None None = Some tll"
    and "baseline pg tll \<noteq> []"
  shows "findClosest pg gw fm =
     (case (if ORS_ENDPOINT pg \<noteq> '''' then try_ors gw p (baseline pg tll) else Inl RoutingFailed) of
        Inl e \<Rightarrow> estimate (baseFactor fm) (speed fm) tll (baseline pg tll)
      | Inr out \<Rightarrow>
          (case picked out of
             Some b \<Rightarrow>
               (case driveKm b of
                  Some dk \<Rightarrow>
                    Inr \<lparr>mode = Driving, best = b, effFactor = None,
                         shownDriveKm = dk, eta = etaFromMinutes (driveMin b),
                         topList = renderTopList (reranked out) True\<rparr>
                | None \<Rightarrow>
                    estimate (baseFactor fm) (speed fm) tll
                      (annotated out @ drop 25 (baseline pg tll)))
           | None \<Rightarrow>
               estimate (baseFactor fm) (speed fm) tll
                 (annotated out @ drop 25 (baseline pg tll))))"
  using assms by (simp add: findClosest_def Let_def)

lemma findClosest_failures:
  "findClosest pg gw fm = Inr r \<Longrightarrow>
     ticketPostal fm \<noteq> ''''
     \<and> (\<exists>tll. latLonForPostal (TECHS pg) (POSTAL_PROV pg) (ticketPostal fm) None None = Some tll
           \<and> baseline pg tll \<noteq> [])"
  by (auto simp: findClosest_def Let_def split: if_splits option.splits)

lemma estimate_result:
  assumes "scored = b # rest"
  shows "estimate base spd tll scored =
     Inr \<lparr>mode = Estimate, best = b,
          effFactor = Some (effectiveDriveFactor (Fin base) (Some tll) (Some (ll b))),
          shownDriveKm = km b * effectiveDriveFactor (Fin base) (Some tll) (Some (ll b)),
          eta = etaFromKm (Fin (km b * effectiveDriveFactor (Fin base) (Some tll) (Some (ll b))))
                  (Fin spd),
          topList = renderTopList scored False\<rparr>"
  using assms by (simp add: estimate_def Let_def)

subsection \<open>Rows of the result\<close>

lemma estimate_rows:
  assumes "estimate base spd tll scored = Inr r"
  shows "mode r = Estimate \<and> best r \<in> set scored \<and> fst ` set (topList r) \<subseteq> set scored
    \<and> length (topList r) \<le> 8"
proof (cases scored)
  case Nil
  with assms show ?thesis by (simp add: estimate_def)
next
  case (Cons b rest)
  from assms estimate_result [OF Cons, of base spd tll]
  have r: "r = \<lparr>mode = Estimate, best = b,
          effFactor = Some (effectiveDriveFactor (Fin base) (Some tll) (Some (ll b))),
          shownDriveKm = km b * effectiveDriveFactor (Fin base) (Some tll) (Some (ll b)),
          eta = etaFromKm (Fin (km b * effectiveDriveFactor (Fin base) (Some tll) (Some (ll b))))
                  (Fin spd),
          topList = renderTopList scored False\<rparr>"
    by simp
  show ?thesis
    using renderTopList_rows [of scored False] renderTopList_length [of scored False]
    by (simp add: r Cons)
qed

lemma try_ors_rows:
  assumes "try_ors gw p scored = Inr out" and "\<forall>c \<in> set scored. scored_row pg tll c"
  shows "(\<forall>x \<in> set (annotated out). scored_row pg tll x)
       \<and> (\<forall>x \<in> set (reranked out). scored_row pg tll x)
       \<and> (\<forall>b. picked out = Some b \<longrightarrow> scored_row pg tll b)"
proof -
  from assms(1) obtain j where out: "out = \<lparr>annotated = annotate j 0 (take 25 scored),
      reranked = js_sort cmp_drive (annotate j 0 (take 25 scored)),
      picked = pick_best (js_sort cmp_drive (annotate j 0 (take 25 scored)))\<rparr>"
    by (auto simp: try_ors_def Let_def split: sum.splits option.splits if_splits)
  have cands: "\<forall>c \<in> set (take 25 scored). scored_row pg tll c"
    using assms(2) by (auto dest: in_set_takeD)
  have ann: "\<forall>x \<in> set (annotate j 0 (take 25 scored)). scored_row pg tll x"
    using annotate_scored [OF cands] by blast
  moreover have "\<forall>b. pick_best (js_sort cmp_drive (annotate j 0 (take 25 scored))) = Some b
      \<longrightarrow> scored_row pg tll b"
    using ann pick_best_mem [of "js_sort cmp_drive (annotate j 0 (take 25 scored))"]
    by (auto simp: set_js_sort)
  ultimately show ?thesis
    by (simp add: out set_js_sort)
qed

lemma findClosest_rows:
  assumes res: "findClosest pg gw fm = Inr r"
    and tll: "latLonForPostal (TECHS pg) (POSTAL_PROV pg) (ticketPostal fm) None None = Some tll"
  shows "scored_row pg tll (best r) \<and> (\<forall>x \<in> fst ` set (topList r). scored_row pg tll x)
    \<and> length (topList r) \<le> 8"
proof -
  from findClosest_failures [OF res] tll
  have p: "ticketPostal fm \<noteq> ''''" and ne: "baseline pg tll \<noteq> []" by auto
  note fc = findClosest_scored [OF refl p tll ne, of gw]
  have base: "\<forall>c \<in> set (baseline pg tll). scored_row pg tll c"
    by (simp add: baseline_rows)
  show ?thesis
  proof (cases "if ORS_ENDPOINT pg \<noteq> '''' then try_ors gw (ticketPostal fm) (baseline pg tll)
                else Inl RoutingFailed")
    case (Inl e)
    with fc res have "estimate (baseFactor fm) (speed fm) tll (baseline pg tll) = Inr r"
      by simp
    from estimate_rows [OF this] base show ?thesis by blast
  next
    case (Inr out)
    then have t: "try_ors gw (ticketPostal fm) (baseline pg tll) = Inr out"
      by (simp split: if_splits)
    note rows = try_ors_rows [OF t base]
    have fb: "\<forall>x \<in> set (annotated out @ drop 25 (baseline pg tll)). scored_row pg tll x"
      using rows base by (auto dest: in_set_dropD)
    show ?thesis
    proof (cases "\<exists>b dk. picked out = Some b \<and> driveKm b = Some dk")
      case True
      then obtain b dk where b: "picked out = Some b" "driveKm b = Some dk" by blast
      with fc res Inr have r: "r = \<lparr>mode = Driving, best = b, effFactor = None,
          shownDriveKm = dk, eta = etaFromMinutes (driveMin b),
          topList = renderTopList (reranked out) True\<rparr>"
        by simp
      show ?thesis
        using rows b renderTopList_rows [of "reranked out" True]
          renderTopList_length [of "reranked out" True]
        by (auto simp: r)
    next
      case False
      with fc res Inr
      have "estimate (baseFactor fm) (speed fm) tll (annotated out @ drop 25 (baseline pg tll)) = Inr r"
        by (auto split: option.splits)
      from estimate_rows [OF this] fb show ?thesis by blast
    qed
  qed
qed

text \<open>
  Claim C5. Whatever the roster, the ticket and the gateway, every row of the result
  (the best entry and each entry of the shortlist) belongs to a technician of the roster
  whose location resolves, with that resolved location and its straight-line distance
  from the ticket; a technician whose location resolves to nothing is skipped by the
  scoring loop and appears neither as the best entry nor in the shortlist.
\<close>

theorem unresolved_never_ranked:
  assumes "findClosest pg gw fm = Inr r"
  shows "(\<forall>x \<in> insert (best r) (fst ` set (topList r)).
           tech x \<in> set (TECHS pg)
           \<and> latLonForPostal (TECHS pg) (POSTAL_PROV pg) (postal (tech x))
                 (Some (city (tech x))) (Some (province (tech x))) = Some (ll x)
           \<and> (\<exists>ticketLL.
                 latLonForPostal (TECHS pg) (POSTAL_PROV pg) (ticketPostal fm) None None
                   = Some ticketLL
                 \<and> km x = haversineKm ticketLL (ll x)))
    \<and> (\<forall>t \<in> set (TECHS pg).
           latLonForPostal (TECHS pg) (POSTAL_PROV pg) (postal t)
                 (Some (city t)) (Some (province t)) = None
           \<longrightarrow> t \<noteq> tech (best r) \<and> t \<notin> (\<lambda>item. tech (fst item)) ` set (topList r))"
proof -
  from findClosest_failures [OF assms] obtain tll where
    tll: "latLonForPostal (TECHS pg) (POSTAL_PROV pg) (ticketPostal fm) None None = Some tll"
    by blast
  note rows = findClosest_rows [OF assms tll]
  have 1: "\<forall>x \<in> insert (best r) (fst ` set (topList r)).
           tech x \<in> set (TECHS pg)
           \<and> latLonForPostal (TECHS pg) (POSTAL_PROV pg) (postal (tech x))
                 (Some (city (tech x))) (Some (province (tech x))) = Some (ll x)
           \<and> (\<exists>ticketLL.
                 latLonForPostal (TECHS pg) (POSTAL_PROV pg) (ticketPostal fm) None None
                   = Some ticketLL
                 \<and> km x = haversineKm ticketLL (ll x))"
    using rows tll by (auto simp: scored_row_def)
  have 2: "\<forall>t \<in> set (TECHS pg).
           latLonForPostal (TECHS pg) (POSTAL_PROV pg) (postal t)
                 (Some (city t)) (Some (province t)) = None
           \<longrightarrow> t \<noteq> tech (best r) \<and> t \<notin> (\<lambda>item. tech (fst item)) ` set (topList r)"
    using 1 by fastforce
  from 1 2 show ?thesis by blast
qed

subsection \<open>Gateway failure and gateway success\<close>

lemma effectiveDriveFactor_range:
  "1 \<le> effectiveDriveFactor base t u \<and> effectiveDriveFactor base t u \<le> 12"
  unfolding effectiveDriveFactor_def Let_def by (rule clamp_range) simp

lemma baseline_head_nearest:
  assumes "baseline pg tll = b # rest" and "x \<in> set (baseline pg tll)"
  shows "km b \<le> km x"
proof -
  have "sorted (map km (baseline pg tll))"
    unfolding baseline_def by (rule sorted_baseline_km)
  with assms show ?thesis by auto
qed

text \<open>
  Claim C2. Whenever the gateway fails (\<open>fetch\<close> throws, the response is not a success,
  such as HTTP 502, the body is empty or its \<open>ok\<close> is false), \<open>findClosest\<close> still
  returns a result, in estimate mode: the best entry is the head of the baseline
  ranking, the nearest technician by straight-line distance; it carries that distance
  and the effective distance, the distance times the effective factor, which is clamped
  to [1, 12]; the shortlist is the head of the baseline ranking.
\<close>

theorem gateway_failure_falls_back:
  assumes p: "ticketPostal fm = p" "p \<noteq> ''''"
    and tll: "latLonForPostal (TECHS pg) (POSTAL_PROV pg) p None None = Some tll"
    and ne: "baseline pg tll = b # rest"
    and fail: "gw p (map (\<lambda>x. postal (tech x)) (take 25 (baseline pg tll))) = NetworkError
     \<or> (\<exists>j. gw p (map (\<lambda>x. postal (tech x)) (take 25 (baseline pg tll))) = Response False j)
     \<or> gw p (map (\<lambda>x. postal (tech x)) (take 25 (baseline pg tll))) = Response True None
     \<or> (\<exists>j. gw p (map (\<lambda>x. postal (tech x)) (take 25 (baseline pg tll)))
               = Response True (Some j) \<and> \<not> ok j)"
  shows "(let eff = effectiveDriveFactor (Fin (baseFactor fm)) (Some tll) (Some (ll b))
          in findClosest pg gw fm
               = Inr \<lparr>mode = Estimate, best = b, effFactor = Some eff,
                      shownDriveKm = km b * eff,
                      eta = etaFromKm (Fin (km b * eff)) (Fin (speed fm)),
                      topList = renderTopList (baseline pg tll) False\<rparr>
             \<and> 1 \<le> eff \<and> eff \<le> 12)
         \<and> km b = haversineKm tll (ll b)
         \<and> (\<forall>x \<in> set (baseline pg tll). km b \<le> km x)
         \<and> sorted (map km (baseline pg tll))
         \<and> map fst (renderTopList (baseline pg tll) False) = take 8 (baseline pg tll)"
proof -
  have ne': "baseline pg tll \<noteq> []" using ne by simp
  from try_ors_failure [where gw = gw and p = p and scored = "baseline pg tll", OF fail] obtain e where e: "try_ors gw p (baseline pg tll) = Inl e"
    by blast
  have "findClosest pg gw fm = estimate (baseFactor fm) (speed fm) tll (baseline pg tll)"
    using findClosest_scored [OF p tll ne', of gw] e by simp
  then have fc: "findClosest pg gw fm
      = Inr \<lparr>mode = Estimate, best = b,
          effFactor = Some (effectiveDriveFactor (Fin (baseFactor fm)) (Some tll) (Some (ll b))),
          shownDriveKm = km b * effectiveDriveFactor (Fin (baseFactor fm)) (Some tll) (Some (ll b)),
          eta = etaFromKm
                  (Fin (km b * effectiveDriveFactor (Fin (baseFactor fm)) (Some tll) (Some (ll b))))
                  (Fin (speed fm)),
          topList = renderTopList (baseline pg tll) False\<rparr>"
    using estimate_result [OF ne] by simp
  have "b \<in> set (baseline pg tll)" using ne by simp
  then have kb: "km b = haversineKm tll (ll b)"
    using baseline_rows [of b pg tll] by (simp add: scored_row_def)
  have near: "\<forall>x \<in> set (baseline pg tll). km b \<le> km x"
    using baseline_head_nearest [OF ne] by blast
  have srt: "sorted (map km (baseline pg tll))"
    unfolding baseline_def by (rule sorted_baseline_km)
  show ?thesis
    unfolding Let_def
    using fc kb near srt effectiveDriveFactor_range renderTopList_fst by blast
qed

lemma find_first:
  "find P xs = Some b \<Longrightarrow> \<exists>pre post. xs = pre @ b # post \<and> P b \<and> (\<forall>y \<in> set pre. \<not> P y)"
proof (induction xs)
  case Nil
  then show ?case by simp
next
  case (Cons x xs)
  show ?case
  proof (cases "P x")
    case True
    with Cons.prems have "x = b" by simp
    with True show ?thesis by (intro exI [of _ "[]"] exI [of _ xs]) simp
  next
    case False
    with Cons obtain pre post where "xs = pre @ b # post" "P b" "\<forall>y \<in> set pre. \<not> P y"
      by auto
    with False show ?thesis by (intro exI [of _ "x # pre"] exI [of _ post]) simp
  qed
qed

lemma estimate_mode:
  "scored \<noteq> [] \<Longrightarrow> \<exists>r. estimate base spd tll scored = Inr r \<and> mode r = Estimate
     \<and> topList r = renderTopList scored False \<and> best r = hd scored"
  by (cases scored) (simp_all add: estimate_def Let_def)

text \<open>
  Claim C10 (as amended). When the gateway call succeeds: if some candidate has both a
  driving distance and a driving duration, the result is in driving mode and its best
  entry is the first such candidate of the re-ranked order, so it carries both values;
  if no candidate has a driving distance, the result is in estimate mode. If no
  candidate has both values, the first candidate of the re-ranked order is selected,
  and the result is in driving mode exactly when that candidate has a driving distance
  (its duration is then missing).
\<close>

theorem driving_best_selection:
  assumes p: "ticketPostal fm = p" "p \<noteq> ''''"
    and tll: "latLonForPostal (TECHS pg) (POSTAL_PROV pg) p None None = Some tll"
    and ne: "baseline pg tll \<noteq> []"
    and ep: "ORS_ENDPOINT pg \<noteq> ''''"
    and gw: "gw p (map (\<lambda>x. postal (tech x)) (take 25 (baseline pg tll))) = Response True (Some j)"
    and ok: "ok j"
  shows "(let cands = js_sort cmp_drive (annotate j 0 (take 25 (baseline pg tll)))
          in ((\<exists>x \<in> set cands. has_both x) \<longrightarrow>
                (\<exists>r pre post. findClosest pg gw fm = Inr r \<and> mode r = Driving
                   \<and> cands = pre @ best r # post \<and> (\<forall>y \<in> set pre. \<not> has_both y)
                   \<and> driveKm (best r) \<noteq> None \<and> driveMin (best r) \<noteq> None
                   \<and> topList r = renderTopList cands True))
           \<and> ((\<forall>x \<in> set cands. driveKm x = None) \<longrightarrow>
                (\<exists>r. findClosest pg gw fm = Inr r \<and> mode r = Estimate))
           \<and> ((\<forall>x \<in> set cands. \<not> has_both x) \<longrightarrow>
                (\<exists>r. findClosest pg gw fm = Inr r
                   \<and> (mode r = Driving \<longleftrightarrow> driveKm (hd cands) \<noteq> None)
                   \<and> (mode r = Driving \<longrightarrow> best r = hd cands
                         \<and> topList r = renderTopList cands True))))"
proof -
  define ann where "ann = annotate j 0 (take 25 (baseline pg tll))"
  define cands where "cands = js_sort cmp_drive ann"
  have ann_ne: "ann \<noteq> []"
    using ne annotate_length [of j 0 "take 25 (baseline pg tll)"]
    by (cases "baseline pg tll") (auto simp: ann_def)
  then have cands_ne: "cands \<noteq> []" by (simp add: cands_def js_sort_Nil_iff)
  have t: "try_ors gw p (baseline pg tll)
      = Inr \<lparr>annotated = ann, reranked = cands, picked = pick_best cands\<rparr>"
    using try_ors_success [where gw = gw and p = p and scored = "baseline pg tll", OF gw ok] by (simp add: ann_def cands_def)
  note fc = findClosest_scored [OF p tll ne, of gw, unfolded t]
  have fb: "\<exists>r. estimate (baseFactor fm) (speed fm) tll (ann @ drop 25 (baseline pg tll)) = Inr r
      \<and> mode r = Estimate"
    using estimate_mode [where scored = "ann @ drop 25 (baseline pg tll)"
        and base = "baseFactor fm" and spd = "speed fm" and tll = tll] ann_ne
    by auto
  have A: "(\<exists>x \<in> set cands. has_both x) \<longrightarrow>
                (\<exists>r pre post. findClosest pg gw fm = Inr r \<and> mode r = Driving
                   \<and> cands = pre @ best r # post \<and> (\<forall>y \<in> set pre. \<not> has_both y)
                   \<and> driveKm (best r) \<noteq> None \<and> driveMin (best r) \<noteq> None
                   \<and> topList r = renderTopList cands True)"
  proof
    assume "\<exists>x \<in> set cands. has_both x"
    then obtain b where b: "find has_both cands = Some b"
      by (cases "find has_both cands") (auto simp: find_None_iff)
    from find_first [OF b] obtain pre post where
      split: "cands = pre @ b # post" "has_both b" "\<forall>y \<in> set pre. \<not> has_both y" by blast
    from \<open>has_both b\<close> obtain dk where dk: "driveKm b = Some dk" and dm: "driveMin b \<noteq> None"
      by (auto simp: has_both_def)
    have pk: "pick_best cands = Some b" by (simp add: pick_best_def b)
    have "findClosest pg gw fm = Inr \<lparr>mode = Driving, best = b, effFactor = None,
          shownDriveKm = dk, eta = etaFromMinutes (driveMin b),
          topList = renderTopList cands True\<rparr>"
      using fc ep by (simp add: pk dk)
    with split dk dm show "\<exists>r pre post. findClosest pg gw fm = Inr r \<and> mode r = Driving
                   \<and> cands = pre @ best r # post \<and> (\<forall>y \<in> set pre. \<not> has_both y)
                   \<and> driveKm (best r) \<noteq> None \<and> driveMin (best r) \<noteq> None
                   \<and> topList r = renderTopList cands True"
      by (intro exI [of _ "\<lparr>mode = Driving, best = b, effFactor = None,
          shownDriveKm = dk, eta = etaFromMinutes (driveMin b),
          topList = renderTopList cands True\<rparr>"] exI [of _ pre] exI [of _ post]) simp
  qed
  have none: "\<forall>x \<in> set cands. \<not> has_both x \<Longrightarrow> pick_best cands = Some (hd cands)"
    using cands_ne by (cases cands) (auto simp: pick_best_def find_None_iff [THEN iffD2])
  have C: "(\<forall>x \<in> set cands. \<not> has_both x) \<longrightarrow>
                (\<exists>r. findClosest pg gw fm = Inr r
                   \<and> (mode r = Driving \<longleftrightarrow> driveKm (hd cands) \<noteq> None)
                   \<and> (mode r = Driving \<longrightarrow> best r = hd cands
                         \<and> topList r = renderTopList cands True))"
  proof
    assume nb: "\<forall>x \<in> set cands. \<not> has_both x"
    note pk = none [OF nb]
    show "\<exists>r. findClosest pg gw fm = Inr r
                   \<and> (mode r = Driving \<longleftrightarrow> driveKm (hd cands) \<noteq> None)
                   \<and> (mode r = Driving \<longrightarrow> best r = hd cands
                         \<and> topList r = renderTopList cands True)"
    proof (cases "driveKm (hd cands)")
      case None
      with fc ep pk fb show ?thesis by auto
    next
      case (Some dk)
      with fc ep pk show ?thesis by simp
    qed
  qed
  have B: "(\<forall>x \<in> set cands. driveKm x = None) \<longrightarrow>
                (\<exists>r. findClosest pg gw fm = Inr r \<and> mode r = Estimate)"
  proof
    assume nk: "\<forall>x \<in> set cands. driveKm x = None"
    then have nb: "\<forall>x \<in> set cands. \<not> has_both x" by (simp add: has_both_def)
    have "driveKm (hd cands) = None" using nk cands_ne by simp
    with fc ep none [OF nb] fb show "\<exists>r. findClosest pg gw fm = Inr r \<and> mode r = Estimate"
      by auto
  qed
  from A B C show ?thesis
    unfolding Let_def ann_def [symmetric] cands_def [symmetric] by blast
qed

subsection \<open>The ETA of the estimate\<close>

lemma estimate_eta:
  "estimate base spd tll scored = Inr r \<Longrightarrow>
     mode r = Estimate \<and> eta r = etaFromKm (Fin (shownDriveKm r)) (Fin spd)"
  by (cases scored) (auto simp: estimate_def Let_def)

lemma findClosest_estimate_eta:
  assumes "findClosest pg gw fm = Inr r" and "mode r = Estimate"
  shows "eta r = etaFromKm (Fin (shownDriveKm r)) (Fin (speed fm))"
proof -
  from findClosest_failures [OF assms(1)] obtain tll where
    p: "ticketPostal fm \<noteq> ''''"
    and tll: "latLonForPostal (TECHS pg) (POSTAL_PROV pg) (ticketPostal fm) None None = Some tll"
    and ne: "baseline pg tll \<noteq> []"
    by blast
  note fc = findClosest_scored [OF refl p tll ne, of gw]
  from assms fc obtain scored where "estimate (baseFactor fm) (speed fm) tll scored = Inr r"
    by (auto split: sum.splits option.splits)
  then show ?thesis using estimate_eta by blast
qed

lemma speed_cases:
  "speed fm = (case speedKmh fm of
                 Fin x \<Rightarrow> if x = 0 then 80 else max 20 (min 130 x)
               | PInf \<Rightarrow> 130 | NInf \<Rightarrow> 20 | NaN \<Rightarrow> 80)"
  by (simp add: speed_def input_number_def split: jsnum.split)

text \<open>
  Claim C9. For a finite distance \<open>km\<close> and a speed within [20, 130], the
  estimate-mode ETA is that of \<open>hours = km / speed\<close>, the quotient of JavaScript
  numbers: it is a number, within a relative error of \<open>2 ^ -53\<close> of the exact quotient.
  It is rendered as \<open>{h}h {m}m\<close> when it is at least one hour (as it is when the
  distance is at least the speed) and as \<open>{m} min\<close> otherwise, where \<open>h\<close> is the
  whole hours and \<open>m\<close> the remaining minutes rounded to the nearest integer, between
  0 and 60 and written in decimal digits; the minutes that are rounded are within
  \<open>2 ^ -46\<close> of sixty times the remaining fraction of \<open>hours\<close>. The caller clamps
  the speed it reads from the form to [20, 130] (80 when the form has no number or 0),
  and every result of \<open>findClosest\<close> in estimate mode carries the ETA of the distance
  it shows at that speed.
\<close>

theorem etaFromKm_format:
  assumes "\<bar>k\<bar> < pow2 1024" and "20 \<le> v" and "v \<le> 130"
  shows "(let hours = round64 (k / v);
              h = \<lfloor>hours\<rfloor>;
              mins = round64 (round64 (hours - of_int h) * 60);
              m = js_round mins
          in etaFromKm (Fin k) (Fin v)
               = (if 1 \<le> hours then js_show h @ ''h '' @ js_show m @ ''m''
                  else js_show m @ '' min'')
             \<and> binary64 (k / v) = Fin hours
             \<and> (pow2 (- 1022) \<le> \<bar>k / v\<bar> \<longrightarrow> \<bar>hours - k / v\<bar> \<le> \<bar>k / v\<bar> / 2 ^ 53)
             \<and> (v \<le> k \<longrightarrow> 1 \<le> hours)
             \<and> (k < v \<longrightarrow> hours \<le> 1)
             \<and> \<bar>mins - (hours - of_int h) * 60\<bar> \<le> 1 / 2 ^ 46
             \<and> \<bar>of_int m - mins\<bar> \<le> 1 / 2
             \<and> 0 \<le> m \<and> m \<le> 60
             \<and> js_show m = show_nat (nat m))
         \<and> speed fm = (case speedKmh fm of
                         Fin x \<Rightarrow> if x = 0 then 80 else max 20 (min 130 x)
                       | PInf \<Rightarrow> 130 | NInf \<Rightarrow> 20 | NaN \<Rightarrow> 80)
         \<and> 20 \<le> speed fm \<and> speed fm \<le> 130
         \<and> (\<forall>r. findClosest pg gw fm = Inr r \<and> mode r = Estimate
                \<longrightarrow> eta r = etaFromKm (Fin (shownDriveKm r)) (Fin (speed fm)))"
proof -
  define hours where "hours = round64 (k / v)"
  define h where "h = \<lfloor>hours\<rfloor>"
  define mins where "mins = round64 (round64 (hours - of_int h) * 60)"
  define m where "m = js_round mins"
  have v: "0 < v" "16 \<le> v" using assms(2) by simp_all
  have fin: "binary64 (k / v) = Fin hours"
    unfolding hours_def using assms(1) v(2) by (rule quotient_finite)
  have d: "0 \<le> hours - of_int h" "hours - of_int h < 1"
    unfolding h_def by linarith+
  from minutes_round [OF d]
  have mr: "0 \<le> m" "m \<le> 60" "\<bar>mins - (hours - of_int h) * 60\<bar> \<le> 1 / 2 ^ 46"
    unfolding m_def mins_def by simp_all
  have hh: "(h \<le> 0) = (\<not> 1 \<le> hours)"
    unfolding h_def by linarith
  have eq: "etaFromKm (Fin k) (Fin v)
      = (if 1 \<le> hours then js_show h @ ''h '' @ js_show m @ ''m''
         else js_show m @ '' min'')"
    using v(1) hh
    by (simp add: etaFromKm_def fin Let_def h_def [symmetric] mins_def [symmetric]
        m_def [symmetric])
  have err: "pow2 (- 1022) \<le> \<bar>k / v\<bar> \<longrightarrow> \<bar>hours - k / v\<bar> \<le> \<bar>k / v\<bar> / 2 ^ 53"
    unfolding hours_def using round64_err [of "k / v"] by blast
  have ge: "v \<le> k \<longrightarrow> 1 \<le> hours"
  proof
    assume "v \<le> k"
    with v(1) have "pow2 0 \<le> k / v" by (simp add: pow2_0)
    then have "pow2 0 \<le> round64 (k / v)" by (rule round64_ge_pow2) simp_all
    then show "1 \<le> hours" by (simp add: hours_def pow2_0)
  qed
  have le: "k < v \<longrightarrow> hours \<le> 1"
  proof
    assume "k < v"
    with v(1) have q: "k / v < 1" by simp
    show "hours \<le> 1"
    proof (cases "0 \<le> k / v")
      case True
      from unit_round [OF True q] show ?thesis by (simp add: hours_def)
    next
      case False
      then have "round64 (k / v) \<le> 0" by (intro round64_nonpos) simp
      then show ?thesis by (simp add: hours_def)
    qed
  qed
  have near: "\<bar>of_int m - mins\<bar> \<le> 1 / 2"
    unfolding m_def by (rule js_round_nearest)
  have dec: "js_show m = show_nat (nat m)"
    using mr(1,2) by (rule js_show_small)
  have eta: "etaFromKm (Fin k) (Fin v)
               = (if 1 \<le> hours then js_show h @ ''h '' @ js_show m @ ''m''
                  else js_show m @ '' min'')
             \<and> binary64 (k / v) = Fin hours
             \<and> (pow2 (- 1022) \<le> \<bar>k / v\<bar> \<longrightarrow> \<bar>hours - k / v\<bar> \<le> \<bar>k / v\<bar> / 2 ^ 53)
             \<and> (v \<le> k \<longrightarrow> 1 \<le> hours)
             \<and> (k < v \<longrightarrow> hours \<le> 1)
             \<and> \<bar>mins - (hours - of_int h) * 60\<bar> \<le> 1 / 2 ^ 46
             \<and> \<bar>of_int m - mins\<bar> \<le> 1 / 2
             \<and> 0 \<le> m \<and> m \<le> 60
             \<and> js_show m = show_nat (nat m)"
    using eq fin err ge le mr near dec by blast
  have sp: "speed fm = (case speedKmh fm of
                         Fin x \<Rightarrow> if x = 0 then 80 else max 20 (min 130 x)
                       | PInf \<Rightarrow> 130 | NInf \<Rightarrow> 20 | NaN \<Rightarrow> 80)"
    by (rule speed_cases)
  have rg: "20 \<le> speed fm \<and> speed fm \<le> 130"
    unfolding speed_def by (rule input_number_range) simp
  have fc: "\<forall>r. findClosest pg gw fm = Inr r \<and> mode r = Estimate
                \<longrightarrow> eta r = etaFromKm (Fin (shownDriveKm r)) (Fin (speed fm))"
    using findClosest_estimate_eta by blast
  from eta sp rg fc show ?thesis
    unfolding Let_def hours_def [symmetric] h_def [symmetric] mins_def [symmetric]
      m_def [symmetric]
    by blast
qed

subsection \<open>The order of the ranking\<close>

lemma findClosest_gateway_cong:
  assumes p: "ticketPostal fm = p"
    and tll: "latLonForPostal (TECHS pg) (POSTAL_PROV pg) p None None = Some tll"
    and same: "gw' p (map (\<lambda>x. postal (tech x)) (take 25 (baseline pg tll)))
             = gw p (map (\<lambda>x. postal (tech x)) (take 25 (baseline pg tll)))"
  shows "findClosest pg gw' fm = findClosest pg gw fm"
proof -
  have "try_ors gw' p (baseline pg tll) = try_ors gw p (baseline pg tll)"
    using same by (rule try_ors_cong)
  then show ?thesis
    by (simp add: findClosest_def Let_def p tll)
qed

lemma sorted_wrt_nth:
  "sorted_wrt R xs \<Longrightarrow> i < k \<Longrightarrow> k < length xs \<Longrightarrow> R (xs ! i) (xs ! k)"
  by (simp add: sorted_wrt_iff_nth_less)

lemma reranked_null_last:
  assumes "i < k" "k < length (js_sort cmp_drive xs)"
    and "driveMin (js_sort cmp_drive xs ! i) = None"
    and "driveMin (js_sort cmp_drive xs ! k) = Some d"
  shows "1000000000000 \<le> d"
proof -
  from sorted_wrt_nth [OF sorted_reranked assms(1,2)]
  have "or_1e12 (driveMin (js_sort cmp_drive xs ! i)) \<le> or_1e12 (driveMin (js_sort cmp_drive xs ! k))"
    by auto
  with assms(3,4) show ?thesis by (simp add: or_1e12_def)
qed

lemma findClosest_estimate_order:
  assumes res: "findClosest pg gw fm = Inr r" and est: "mode r = Estimate"
    and p: "ticketPostal fm = p"
    and tll: "latLonForPostal (TECHS pg) (POSTAL_PROV pg) p None None = Some tll"
  shows "map (\<lambda>item. tech (fst item)) (topList r) = map tech (take 8 (baseline pg tll))
       \<and> map (\<lambda>item. km (fst item)) (topList r) = map km (take 8 (baseline pg tll))
       \<and> tech (best r) = tech (hd (baseline pg tll))"
proof -
  from findClosest_failures [OF res] p tll
  have pne: "p \<noteq> ''''" and ne: "baseline pg tll \<noteq> []" by auto
  note fc = findClosest_scored [OF p pne tll ne, of gw]
  define B where "B = baseline pg tll"
  have key: "\<And>scored. estimate (baseFactor fm) (speed fm) tll scored = Inr r \<Longrightarrow>
      map tech scored = map tech B \<Longrightarrow> map km scored = map km B \<Longrightarrow>
      map (\<lambda>item. tech (fst item)) (topList r) = map tech (take 8 B)
       \<and> map (\<lambda>item. km (fst item)) (topList r) = map km (take 8 B)
       \<and> tech (best r) = tech (hd B)"
  proof -
    fix scored
    assume e: "estimate (baseFactor fm) (speed fm) tll scored = Inr r"
      and mt: "map tech scored = map tech B" and mk: "map km scored = map km B"
    from e obtain b rest where sc: "scored = b # rest"
      by (cases scored) (simp_all add: estimate_def)
    from e estimate_result [OF sc, of "baseFactor fm" "speed fm" tll]
    have tl: "topList r = renderTopList scored False" and br: "best r = b" by auto
    have "map (\<lambda>item. tech (fst item)) (topList r) = map tech (map fst (topList r))"
      by (simp add: comp_def)
    also have "\<dots> = map tech (take 8 scored)" by (simp add: tl renderTopList_fst)
    also have "\<dots> = map tech (take 8 B)" using mt by (simp add: take_map [symmetric])
    finally have 1: "map (\<lambda>item. tech (fst item)) (topList r) = map tech (take 8 B)" .
    have "map (\<lambda>item. km (fst item)) (topList r) = map km (map fst (topList r))"
      by (simp add: comp_def)
    also have "\<dots> = map km (take 8 scored)" by (simp add: tl renderTopList_fst)
    also have "\<dots> = map km (take 8 B)" using mk by (simp add: take_map [symmetric])
    finally have 2: "map (\<lambda>item. km (fst item)) (topList r) = map km (take 8 B)" .
    from mt sc have "tech b = tech (hd B)" by (cases B) auto
    with 1 2 br show "map (\<lambda>item. tech (fst item)) (topList r) = map tech (take 8 B)
       \<and> map (\<lambda>item. km (fst item)) (topList r) = map km (take 8 B)
       \<and> tech (best r) = tech (hd B)" by simp
  qed
  have ann: "\<And>j. map tech (annotate j 0 (take 25 B) @ drop 25 B) = map tech B
      \<and> map km (annotate j 0 (take 25 B) @ drop 25 B) = map km B"
  proof -
    fix j
    have "map tech (annotate j 0 (take 25 B) @ drop 25 B)
        = map tech (take 25 B) @ map tech (drop 25 B)"
      by (simp add: annotate_map_tech)
    also have "\<dots> = map tech (take 25 B @ drop 25 B)" by (simp only: map_append)
    finally have 1: "map tech (annotate j 0 (take 25 B) @ drop 25 B) = map tech B" by simp
    have "map km (annotate j 0 (take 25 B) @ drop 25 B)
        = map km (take 25 B) @ map km (drop 25 B)"
      by (simp add: annotate_map_km)
    also have "\<dots> = map km (take 25 B @ drop 25 B)" by (simp only: map_append)
    finally have 2: "map km (annotate j 0 (take 25 B) @ drop 25 B) = map km B" by simp
    from 1 2 show "map tech (annotate j 0 (take 25 B) @ drop 25 B) = map tech B
      \<and> map km (annotate j 0 (take 25 B) @ drop 25 B) = map km B" by simp
  qed
  show ?thesis
  proof (cases "if ORS_ENDPOINT pg \<noteq> '''' then try_ors gw p (baseline pg tll)
                else Inl RoutingFailed")
    case (Inl e)
    with fc res have "estimate (baseFactor fm) (speed fm) tll B = Inr r"
      by (simp add: B_def)
    from key [OF this] show ?thesis by (simp add: B_def)
  next
    case (Inr out)
    then have t: "try_ors gw p B = Inr out"
      by (simp add: B_def split: if_splits)
    then obtain j where out: "annotated out = annotate j 0 (take 25 B)"
      by (auto simp: try_ors_def Let_def split: sum.splits option.splits if_splits)
    have "estimate (baseFactor fm) (speed fm) tll (annotated out @ drop 25 B) = Inr r"
      using fc res Inr est by (auto simp: B_def split: option.splits)
    from key [OF this] ann [of j] show ?thesis by (simp add: out B_def)
  qed
qed

text \<open>
  Claim C1 (as amended). The baseline ranking is all resolved technicians sorted
  ascending by straight-line distance. The gateway is asked about the first 25 of that
  order and nothing else. When it succeeds, those candidates are re-ranked by driving
  duration and then driving distance, ascending, a missing value being read as
  \<open>1e12\<close>: a candidate without a duration comes after every candidate whose
  duration is below \<open>1e12\<close>. The re-ranked order is the final ranking whenever the
  result is in driving mode; a result in estimate mode is ranked in baseline order.
\<close>

theorem ranking_order:
  assumes p: "ticketPostal fm = p"
    and tll: "latLonForPostal (TECHS pg) (POSTAL_PROV pg) p None None = Some tll"
  shows
    "sorted (map km (baseline pg tll))
     \<and> mset (baseline pg tll) = mset (score_loop (TECHS pg) (POSTAL_PROV pg) tll (TECHS pg))
     \<and> (\<forall>gw'. gw' p (map (\<lambda>x. postal (tech x)) (take 25 (baseline pg tll)))
                 = gw p (map (\<lambda>x. postal (tech x)) (take 25 (baseline pg tll)))
               \<longrightarrow> findClosest pg gw' fm = findClosest pg gw fm)
     \<and> (\<forall>j. gw p (map (\<lambda>x. postal (tech x)) (take 25 (baseline pg tll)))
                 = Response True (Some j) \<and> ok j
          \<longrightarrow> (let cands = js_sort cmp_drive (annotate j 0 (take 25 (baseline pg tll)))
               in sorted_wrt
                    (\<lambda>a b. or_1e12 (driveMin a) < or_1e12 (driveMin b)
                       \<or> (or_1e12 (driveMin a) = or_1e12 (driveMin b)
                           \<and> or_1e12 (driveKm a) \<le> or_1e12 (driveKm b))) cands
                  \<and> mset cands = mset (annotate j 0 (take 25 (baseline pg tll)))
                  \<and> map tech (annotate j 0 (take 25 (baseline pg tll)))
                      = map tech (take 25 (baseline pg tll))
                  \<and> (\<forall>i k d. i < k \<and> k < length cands \<and> driveMin (cands ! i) = None
                        \<and> driveMin (cands ! k) = Some d \<longrightarrow> 1000000000000 \<le> d)
                  \<and> (\<forall>r. findClosest pg gw fm = Inr r \<and> mode r = Driving
                        \<longrightarrow> topList r = renderTopList cands True
                            \<and> map fst (topList r) = take 8 cands)))
     \<and> (\<forall>r. findClosest pg gw fm = Inr r \<and> mode r = Estimate
          \<longrightarrow> map (\<lambda>item. tech (fst item)) (topList r) = map tech (take 8 (baseline pg tll))
              \<and> map (\<lambda>item. km (fst item)) (topList r) = map km (take 8 (baseline pg tll)))"
proof -
  have 1: "sorted (map km (baseline pg tll))"
    unfolding baseline_def by (rule sorted_baseline_km)
  have 2: "mset (baseline pg tll) = mset (score_loop (TECHS pg) (POSTAL_PROV pg) tll (TECHS pg))"
    unfolding baseline_def by (rule mset_js_sort)
  have 3: "\<forall>gw'. gw' p (map (\<lambda>x. postal (tech x)) (take 25 (baseline pg tll)))
                 = gw p (map (\<lambda>x. postal (tech x)) (take 25 (baseline pg tll)))
               \<longrightarrow> findClosest pg gw' fm = findClosest pg gw fm"
    using findClosest_gateway_cong [OF p tll] by blast
  have 4: "\<forall>j. gw p (map (\<lambda>x. postal (tech x)) (take 25 (baseline pg tll)))
                 = Response True (Some j) \<and> ok j
          \<longrightarrow> (let cands = js_sort cmp_drive (annotate j 0 (take 25 (baseline pg tll)))
               in sorted_wrt
                    (\<lambda>a b. or_1e12 (driveMin a) < or_1e12 (driveMin b)
                       \<or> (or_1e12 (driveMin a) = or_1e12 (driveMin b)
                           \<and> or_1e12 (driveKm a) \<le> or_1e12 (driveKm b))) cands
                  \<and> mset cands = mset (annotate j 0 (take 25 (baseline pg tll)))
                  \<and> map tech (annotate j 0 (take 25 (baseline pg tll)))
                      = map tech (take 25 (baseline pg tll))
                  \<and> (\<forall>i k d. i < k \<and> k < length cands \<and> driveMin (cands ! i) = None
                        \<and> driveMin (cands ! k) = Some d \<longrightarrow> 1000000000000 \<le> d)
                  \<and> (\<forall>r. findClosest pg gw fm = Inr r \<and> mode r = Driving
                        \<longrightarrow> topList r = renderTopList cands True
                            \<and> map fst (topList r) = take 8 cands))"
  proof (intro allI impI)
    fix j
    assume "gw p (map (\<lambda>x. postal (tech x)) (take 25 (baseline pg tll)))
                 = Response True (Some j) \<and> ok j"
    then have gw: "gw p (map (\<lambda>x. postal (tech x)) (take 25 (baseline pg tll)))
                 = Response True (Some j)" and ok: "ok j" by auto
    define cands where "cands = js_sort cmp_drive (annotate j 0 (take 25 (baseline pg tll)))"
    note t = try_ors_success [where gw = gw and p = p and scored = "baseline pg tll", OF gw ok]
    have drv: "\<forall>r. findClosest pg gw fm = Inr r \<and> mode r = Driving
                        \<longrightarrow> topList r = renderTopList cands True
                            \<and> map fst (topList r) = take 8 cands"
    proof (intro allI impI)
      fix r
      assume a: "findClosest pg gw fm = Inr r \<and> mode r = Driving"
      then have res: "findClosest pg gw fm = Inr r" and dr: "mode r = Driving" by auto
      from findClosest_failures [OF res] p tll
      have pne: "p \<noteq> ''''" and ne: "baseline pg tll \<noteq> []" by auto
      note fc = findClosest_scored [OF p pne tll ne, of gw]
      have ep: "ORS_ENDPOINT pg \<noteq> ''''"
      proof (rule ccontr)
        assume "\<not> ORS_ENDPOINT pg \<noteq> ''''"
        with fc res have "estimate (baseFactor fm) (speed fm) tll (baseline pg tll) = Inr r"
          by simp
        from estimate_rows [OF this] dr show False by simp
      qed
      have "topList r = renderTopList cands True"
      proof (cases "\<exists>b dk. pick_best cands = Some b \<and> driveKm b = Some dk")
        case True
        then obtain b dk where "pick_best cands = Some b" "driveKm b = Some dk" by blast
        with fc res ep t show ?thesis by (simp add: cands_def)
      next
        case False
        with fc res ep t
        have "estimate (baseFactor fm) (speed fm) tll
                (annotate j 0 (take 25 (baseline pg tll)) @ drop 25 (baseline pg tll)) = Inr r"
          by (auto simp: cands_def split: option.splits)
        from estimate_rows [OF this] dr show ?thesis by simp
      qed
      then show "topList r = renderTopList cands True \<and> map fst (topList r) = take 8 cands"
        by (simp add: renderTopList_fst)
    qed
    show "let cands = js_sort cmp_drive (annotate j 0 (take 25 (baseline pg tll)))
               in sorted_wrt
                    (\<lambda>a b. or_1e12 (driveMin a) < or_1e12 (driveMin b)
                       \<or> (or_1e12 (driveMin a) = or_1e12 (driveMin b)
                           \<and> or_1e12 (driveKm a) \<le> or_1e12 (driveKm b))) cands
                  \<and> mset cands = mset (annotate j 0 (take 25 (baseline pg tll)))
                  \<and> map tech (annotate j 0 (take 25 (baseline pg tll)))
                      = map tech (take 25 (baseline pg tll))
                  \<and> (\<forall>i k d. i < k \<and> k < length cands \<and> driveMin (cands ! i) = None
                        \<and> driveMin (cands ! k) = Some d \<longrightarrow> 1000000000000 \<le> d)
                  \<and> (\<forall>r. findClosest pg gw fm = Inr r \<and> mode r = Driving
                        \<longrightarrow> topList r = renderTopList cands True
                            \<and> map fst (topList r) = take 8 cands)"
      unfolding Let_def cands_def [symmetric]
      using drv
      by (auto simp: cands_def sorted_reranked mset_js_sort annotate_map_tech
          intro: reranked_null_last)
  qed
  have 5: "\<forall>r. findClosest pg gw fm = Inr r \<and> mode r = Estimate
          \<longrightarrow> map (\<lambda>item. tech (fst item)) (topList r) = map tech (take 8 (baseline pg tll))
              \<and> map (\<lambda>item. km (fst item)) (topList r) = map km (take 8 (baseline pg tll))"
    using findClosest_estimate_order [OF _ _ p tll] by blast
  from 1 2 3 4 5 show ?thesis by blast
qed

subsection \<open>Running the engine on the small roster\<close>

lemma demo_ticketPostal: "ticketPostal demo_form = ''K1A0B1''"
  by (simp add: ticketPostal_def demo_form_def normalizePostal_K1A)

lemma demo_norm_T2P: "normalizePostal ''T2P1J9'' = ''T2P1J9''"
  and demo_norm_T2P_spaced: "normalizePostal ''T2P 1J9'' = ''T2P1J9''"
  and demo_norm_NA: "normalizePostal ''N/A'' = ''''"
  and demo_norm_K1A0B1: "normalizePostal ''K1A0B1'' = ''K1A0B1''"
  by (simp_all add: string_eval)

lemma demo_city_key: "trim (toUpperCase ''Calgary'') = ''CALGARY''"
  and demo_prov_key: "trim (toUpperCase ''AB'') = ''AB''"
  by (simp_all add: string_eval)

lemma demo_city_coord:
  "map_of CITY_COORD ''CALGARY|AB'' = Some \<lparr>lat = 51.0447, lon = -114.0719\<rparr>"
  by (simp add: CITY_COORD_def)

lemma demo_fields:
  "postal ann_tech = ''T2P1J9''" "city ann_tech = ''Calgary''" "province ann_tech = ''AB''"
  "postal bob_tech = ''T2P 1J9''" "city bob_tech = ''Calgary''" "province bob_tech = ''AB''"
  "postal uma_tech = ''N/A''" "city uma_tech = []" "province uma_tech = []"
  "tech_id ann_tech = ''1''" "tech_id bob_tech = ''2''" "tech_id uma_tech = ''3''"
  by (simp_all add: ann_tech_def bob_tech_def uma_tech_def)

lemma demo_override:
  "POSTAL_OVERRIDE [ann_tech, uma_tech, bob_tech]
     = [''T2P1J9'' \<mapsto> \<lparr>lat = 51.0447, lon = -114.0719\<rparr>]"
  by (simp add: POSTAL_OVERRIDE_def demo_fields demo_norm_T2P
      demo_norm_T2P_spaced demo_norm_NA demo_city_key demo_prov_key demo_city_coord)

lemma demo_ticket_ll:
  "latLonForPostal (TECHS demo_page) (POSTAL_PROV demo_page) ''K1A0B1'' None None
     = Some demo_ticket"
  by (simp add: demo_page_def latLonForPostal_def demo_norm_K1A0B1 demo_override demo_ticket_def
      hint_prov_def hint_city_def truthy_def provForPostal_def provFromFirstLetter_def
      toUpperCase_def upper_char_def upper_letters_def lower_letters_def mk_ll_def
      PROV_CENTER_def)

lemma demo_ann_ll:
  "latLonForPostal [ann_tech, uma_tech, bob_tech] Map.empty (postal ann_tech)
     (Some (city ann_tech)) (Some (province ann_tech)) = Some calgary"
  by (simp add: latLonForPostal_def demo_fields demo_norm_T2P demo_override calgary_def
      hint_prov_def hint_city_def truthy_def demo_city_key demo_prov_key mk_ll_def Let_def)

lemma demo_bob_ll:
  "latLonForPostal [ann_tech, uma_tech, bob_tech] Map.empty (postal bob_tech)
     (Some (city bob_tech)) (Some (province bob_tech)) = Some calgary"
  by (simp add: latLonForPostal_def demo_fields demo_norm_T2P_spaced demo_override calgary_def
      hint_prov_def hint_city_def truthy_def demo_city_key demo_prov_key mk_ll_def Let_def)

lemma demo_uma_ll:
  "latLonForPostal [ann_tech, uma_tech, bob_tech] Map.empty (postal uma_tech)
     (Some (city uma_tech)) (Some (province uma_tech)) = None"
  by (simp add: latLonForPostal_def demo_fields demo_norm_NA)

lemma demo_scored:
  "score_loop [ann_tech, uma_tech, bob_tech] Map.empty demo_ticket [ann_tech, uma_tech, bob_tech]
     = [demo_row ann_tech, demo_row bob_tech]"
  by (simp add: demo_ann_ll demo_bob_ll demo_uma_ll demo_row_def Let_def)

lemma demo_baseline:
  "baseline demo_page demo_ticket = [demo_row ann_tech, demo_row bob_tech]"
  by (simp only: baseline_def demo_page_def page.select_convs demo_scored)
    (simp add: js_sort_def cmp_km_def demo_row_def)

lemma demo_request:
  "map (\<lambda>x. postal (tech x)) (take 25 (baseline demo_page demo_ticket))
     = [''T2P1J9'', ''T2P 1J9'']"
  by (simp add: demo_baseline demo_row_def demo_fields)

lemma demo_annotate:
  "annotate \<lparr>ok = True, distances_km = ds, durations_min = ts\<rparr> 0
       (take 25 (baseline demo_page demo_ticket))
     = [driven (demo_row ann_tech) (finite_number (nth_opt ds 0)) (finite_number (nth_opt ts 0)),
        driven (demo_row bob_tech) (finite_number (nth_opt ds 1)) (finite_number (nth_opt ts 1))]"
  by (simp add: demo_baseline driven_def Let_def)

lemma round64_0_8: "round64 0.8 \<le> 1"
  using unit_round [of "0.8"] by simp

lemma demo_speed: "speed demo_form = 80" and demo_baseFactor: "baseFactor demo_form = 1.25"
  using round64_0_8
  by (simp_all add: speed_def baseFactor_def demo_form_def input_number_def)

lemma demo_factor:
  "effectiveDriveFactor (Fin (baseFactor demo_form)) (Some demo_ticket) (Some calgary) = 7.5"
  by (simp add: effectiveDriveFactor_def demo_baseFactor demo_ticket_def calgary_def
      prov_penalty_ON js_mul_def binary64_7_5 clamp_def isFinite_def)

lemma demo_row_fields:
  "ll (demo_row t) = calgary" "tech (demo_row t) = t"
  "km (demo_row t) = haversineKm demo_ticket calgary"
  "ll (driven r dk dm) = ll r" "tech (driven r dk dm) = tech r" "km (driven r dk dm) = km r"
  "driveKm (driven r dk dm) = dk" "driveMin (driven r dk dm) = dm"
  by (simp_all add: demo_row_def driven_def)

lemma demo_techs_distinct: "uma_tech \<noteq> ann_tech" "uma_tech \<noteq> bob_tech" "ann_tech \<noteq> bob_tech"
  by (simp_all add: ann_tech_def bob_tech_def uma_tech_def)

lemma etaFromMinutes_None: "etaFromMinutes None = ''0 min''"
  by (simp add: etaFromMinutes_def js_round_def round64_0 js_show_def js_show_nat_def
      show_nat.simps digits_def)

text \<open>The page's answer when the gateway fails with HTTP 502.\<close>

lemma demo_gateway_502:
  "findClosest demo_page gateway_502 demo_form
     = Inr \<lparr>mode = Estimate, best = demo_row ann_tech, effFactor = Some 7.5,
            shownDriveKm = haversineKm demo_ticket calgary * 7.5,
            eta = etaFromKm (Fin (haversineKm demo_ticket calgary * 7.5)) (Fin 80),
            topList = [(demo_row ann_tech, False), (demo_row bob_tech, False)]\<rparr>"
proof -
  have ne: "baseline demo_page demo_ticket \<noteq> []" by (simp add: demo_baseline)
  have pne: "''K1A0B1'' \<noteq> ''''" by simp
  have "try_ors gateway_502 ''K1A0B1'' (baseline demo_page demo_ticket) = Inl HttpError"
    by (simp add: try_ors_def postJson_def gateway_502_def)
  then have "findClosest demo_page gateway_502 demo_form
      = estimate (baseFactor demo_form) (speed demo_form) demo_ticket
          [demo_row ann_tech, demo_row bob_tech]"
    using findClosest_scored [OF demo_ticketPostal pne demo_ticket_ll ne, of gateway_502]
    by (simp add: demo_baseline)
  then show ?thesis
    by (simp add: estimate_def Let_def demo_row_fields demo_factor demo_speed renderTopList_def
        demo_row_def)
qed

text \<open>The page's answer when the gateway succeeds, before the re-ranking is evaluated.\<close>

lemma demo_gateway_ok:
  "findClosest demo_page (gateway_reply ds ts) demo_form
     = (let ann = [driven (demo_row ann_tech) (finite_number (nth_opt ds 0))
                     (finite_number (nth_opt ts 0)),
                   driven (demo_row bob_tech) (finite_number (nth_opt ds 1))
                     (finite_number (nth_opt ts 1))];
            cands = js_sort cmp_drive ann
        in case pick_best cands of
             Some b \<Rightarrow>
               (case driveKm b of
                  Some dk \<Rightarrow>
                    Inr \<lparr>mode = Driving, best = b, effFactor = None, shownDriveKm = dk,
                         eta = etaFromMinutes (driveMin b),
                         topList = renderTopList cands True\<rparr>
                | None \<Rightarrow> estimate (baseFactor demo_form) (speed demo_form) demo_ticket ann)
           | None \<Rightarrow> estimate (baseFactor demo_form) (speed demo_form) demo_ticket ann)"
proof -
  have ne: "baseline demo_page demo_ticket \<noteq> []" by (simp add: demo_baseline)
  have pne: "''K1A0B1'' \<noteq> ''''" by simp
  have ep: "ORS_ENDPOINT demo_page \<noteq> ''''" by (simp add: demo_page_def)
  have dr: "drop 25 (baseline demo_page demo_ticket) = []" by (simp add: demo_baseline)
  have t: "try_ors (gateway_reply ds ts) ''K1A0B1'' (baseline demo_page demo_ticket)
      = Inr \<lparr>annotated = annotate \<lparr>ok = True, distances_km = ds, durations_min = ts\<rparr> 0
                            (take 25 (baseline demo_page demo_ticket)),
             reranked = js_sort cmp_drive
                          (annotate \<lparr>ok = True, distances_km = ds, durations_min = ts\<rparr> 0
                            (take 25 (baseline demo_page demo_ticket))),
             picked = pick_best (js_sort cmp_drive
                          (annotate \<lparr>ok = True, distances_km = ds, durations_min = ts\<rparr> 0
                            (take 25 (baseline demo_page demo_ticket))))\<rparr>"
    by (rule try_ors_success) (simp_all add: gateway_reply_def)
  show ?thesis
    unfolding findClosest_scored [OF demo_ticketPostal pne demo_ticket_ll ne] t demo_annotate dr
    using ep by (simp add: Let_def split: option.splits)
qed

lemmas rerank_eval = js_sort_def cmp_drive_def or_1e12_def pick_best_def has_both_def
  finite_number_def nth_opt_def renderTopList_def Let_def demo_row_fields

lemma demo_reranked:
  "js_sort cmp_drive
     (annotate \<lparr>ok = True, distances_km = [Num (Fin 3400), Num (Fin 3390)],
                durations_min = [Num (Fin 2000), Num (Fin 1990)]\<rparr> 0
        (take 25 (baseline demo_page demo_ticket)))
   = [driven (demo_row bob_tech) (Some 3390) (Some 1990),
      driven (demo_row ann_tech) (Some 3400) (Some 2000)]"
  unfolding demo_annotate by (simp add: rerank_eval)

lemma demo_driving:
  "findClosest demo_page
     (gateway_reply [Num (Fin 3400), Num (Fin 3390)] [Num (Fin 2000), Num (Fin 1990)]) demo_form
   = Inr \<lparr>mode = Driving, best = driven (demo_row bob_tech) (Some 3390) (Some 1990),
          effFactor = None, shownDriveKm = 3390, eta = etaFromMinutes (Some 1990),
          topList = [(driven (demo_row bob_tech) (Some 3390) (Some 1990), True),
                     (driven (demo_row ann_tech) (Some 3400) (Some 2000), True)]\<rparr>"
  unfolding demo_gateway_ok by (simp add: rerank_eval)

lemma demo_no_duration:
  "findClosest demo_page
     (gateway_reply [Num (Fin 3400), Num (Fin 3390)] [NotNum, NotNum]) demo_form
   = Inr \<lparr>mode = Driving, best = driven (demo_row bob_tech) (Some 3390) None,
          effFactor = None, shownDriveKm = 3390, eta = etaFromMinutes None,
          topList = [(driven (demo_row bob_tech) (Some 3390) None, False),
                     (driven (demo_row ann_tech) (Some 3400) None, False)]\<rparr>"
  unfolding demo_gateway_ok by (simp add: rerank_eval)

lemma demo_huge_duration:
  "findClosest demo_page
     (gateway_reply [Num (Fin 3400), Num (Fin 3390)] [Num (Fin 2000000000000), NotNum])
     demo_form
   = Inr \<lparr>mode = Driving, best = driven (demo_row ann_tech) (Some 3400) (Some 2000000000000),
          effFactor = None, shownDriveKm = 3400, eta = etaFromMinutes (Some 2000000000000),
          topList = [(driven (demo_row bob_tech) (Some 3390) None, False),
                     (driven (demo_row ann_tech) (Some 3400) (Some 2000000000000), True)]\<rparr>"
  unfolding demo_gateway_ok by (simp add: rerank_eval)

lemma demo_no_distance:
  "findClosest demo_page (gateway_reply [] [Num (Fin 2000), Num (Fin 1990)]) demo_form
   = Inr \<lparr>mode = Estimate, best = driven (demo_row ann_tech) None (Some 2000),
          effFactor = Some 7.5, shownDriveKm = haversineKm demo_ticket calgary * 7.5,
          eta = etaFromKm (Fin (haversineKm demo_ticket calgary * 7.5)) (Fin 80),
          topList = [(driven (demo_row ann_tech) None (Some 2000), False),
                     (driven (demo_row bob_tech) None (Some 1990), False)]\<rparr>"
  unfolding demo_gateway_ok
  by (simp add: rerank_eval estimate_def demo_factor demo_speed)

subsection \<open>The claims on the small roster\<close>

theorem unresolved_never_ranked_witness:
  "uma_tech \<in> set (TECHS demo_page)
   \<and> latLonForPostal (TECHS demo_page) (POSTAL_PROV demo_page) (postal uma_tech)
        (Some (city uma_tech)) (Some (province uma_tech)) = None
   \<and> (case findClosest demo_page gateway_502 demo_form of
        Inl e \<Rightarrow> False
      | Inr r \<Rightarrow> uma_tech \<noteq> tech (best r)
                 \<and> uma_tech \<notin> (\<lambda>item. tech (fst item)) ` set (topList r)
                 \<and> map (\<lambda>item. tech (fst item)) (topList r) = [ann_tech, bob_tech])"
proof -
  have u: "latLonForPostal (TECHS demo_page) (POSTAL_PROV demo_page) (postal uma_tech)
        (Some (city uma_tech)) (Some (province uma_tech)) = None"
    using demo_uma_ll by (simp add: demo_page_def)
  have m: "uma_tech \<in> set (TECHS demo_page)" by (simp add: demo_page_def)
  from unresolved_never_ranked [OF demo_gateway_502] m u
  have "uma_tech \<noteq> tech (best \<lparr>mode = Estimate, best = demo_row ann_tech, effFactor = Some 7.5,
            shownDriveKm = haversineKm demo_ticket calgary * 7.5,
            eta = etaFromKm (Fin (haversineKm demo_ticket calgary * 7.5)) (Fin 80),
            topList = [(demo_row ann_tech, False), (demo_row bob_tech, False)]\<rparr>)
      \<and> uma_tech \<notin> (\<lambda>item. tech (fst item)) ` set (topList
          \<lparr>mode = Estimate, best = demo_row ann_tech, effFactor = Some 7.5,
            shownDriveKm = haversineKm demo_ticket calgary * 7.5,
            eta = etaFromKm (Fin (haversineKm demo_ticket calgary * 7.5)) (Fin 80),
            topList = [(demo_row ann_tech, False), (demo_row bob_tech, False)]\<rparr>)"
    by blast
  with m u show ?thesis
    unfolding demo_gateway_502 by (simp add: demo_row_fields)
qed

theorem gateway_failure_falls_back_witness:
  "findClosest demo_page gateway_502 demo_form
     = Inr \<lparr>mode = Estimate, best = demo_row ann_tech, effFactor = Some 7.5,
            shownDriveKm = haversineKm demo_ticket calgary * 7.5,
            eta = etaFromKm (Fin (haversineKm demo_ticket calgary * 7.5)) (Fin 80),
            topList = [(demo_row ann_tech, False), (demo_row bob_tech, False)]\<rparr>
   \<and> map fst (renderTopList (baseline demo_page demo_ticket) False)
       = [demo_row ann_tech, demo_row bob_tech]"
proof -
  have pne: "''K1A0B1'' \<noteq> ''''" by simp
  have fail: "gateway_502 ''K1A0B1''
        (map (\<lambda>x. postal (tech x)) (take 25 (baseline demo_page demo_ticket))) = NetworkError
     \<or> (\<exists>j. gateway_502 ''K1A0B1''
        (map (\<lambda>x. postal (tech x)) (take 25 (baseline demo_page demo_ticket))) = Response False j)
     \<or> gateway_502 ''K1A0B1''
        (map (\<lambda>x. postal (tech x)) (take 25 (baseline demo_page demo_ticket))) = Response True None
     \<or> (\<exists>j. gateway_502 ''K1A0B1''
        (map (\<lambda>x. postal (tech x)) (take 25 (baseline demo_page demo_ticket)))
               = Response True (Some j) \<and> \<not> ok j)"
    by (simp add: gateway_502_def)
  show ?thesis
    using gateway_failure_falls_back [where gw = gateway_502,
        OF demo_ticketPostal pne demo_ticket_ll demo_baseline fail]
    by (simp add: Let_def demo_row_fields demo_factor demo_speed demo_baseline renderTopList_def
        demo_row_def)
qed

theorem driving_best_selection_witness:
  "(case findClosest demo_page
       (gateway_reply [Num (Fin 3400), Num (Fin 3390)] [Num (Fin 2000), Num (Fin 1990)])
       demo_form of
      Inl e \<Rightarrow> False
    | Inr r \<Rightarrow> mode r = Driving
               \<and> best r = driven (demo_row bob_tech) (Some 3390) (Some 1990)
               \<and> has_both (best r))
   \<and> js_sort cmp_drive (annotate \<lparr>ok = True,
          distances_km = [Num (Fin 3400), Num (Fin 3390)],
          durations_min = [Num (Fin 2000), Num (Fin 1990)]\<rparr> 0
          (take 25 (baseline demo_page demo_ticket)))
      = [driven (demo_row bob_tech) (Some 3390) (Some 1990),
         driven (demo_row ann_tech) (Some 3400) (Some 2000)]"
proof -
  have pne: "''K1A0B1'' \<noteq> ''''" by simp
  have ne: "baseline demo_page demo_ticket \<noteq> []" by (simp add: demo_baseline)
  have ep: "ORS_ENDPOINT demo_page \<noteq> ''''" by (simp add: demo_page_def)
  have okj: "ok \<lparr>ok = True,
          distances_km = [Num (Fin 3400), Num (Fin 3390)],
          durations_min = [Num (Fin 2000), Num (Fin 1990)]\<rparr>" by simp
  have gw: "gateway_reply [Num (Fin 3400), Num (Fin 3390)] [Num (Fin 2000), Num (Fin 1990)]
       ''K1A0B1'' (map (\<lambda>x. postal (tech x)) (take 25 (baseline demo_page demo_ticket)))
     = Response True (Some \<lparr>ok = True,
          distances_km = [Num (Fin 3400), Num (Fin 3390)],
          durations_min = [Num (Fin 2000), Num (Fin 1990)]\<rparr>)"
    by (simp add: gateway_reply_def)
  show ?thesis
    using driving_best_selection [where gw = "gateway_reply [Num (Fin 3400), Num (Fin 3390)]
          [Num (Fin 2000), Num (Fin 1990)]",
        OF demo_ticketPostal pne demo_ticket_ll ne ep gw okj]
    unfolding demo_driving demo_reranked
    by (simp add: has_both_def demo_row_fields)
qed

text \<open>
  Against C10 as stated: the gateway gives both technicians a distance and no duration.
  The result is in driving mode, and its best entry has no driving duration; the ETA
  shown is \<open>0 min\<close>.
\<close>

theorem driving_best_without_duration_counterexample:
  "findClosest demo_page
     (gateway_reply [Num (Fin 3400), Num (Fin 3390)] [NotNum, NotNum]) demo_form
   = Inr \<lparr>mode = Driving, best = driven (demo_row bob_tech) (Some 3390) None,
          effFactor = None, shownDriveKm = 3390, eta = ''0 min'',
          topList = [(driven (demo_row bob_tech) (Some 3390) None, False),
                     (driven (demo_row ann_tech) (Some 3400) None, False)]\<rparr>
   \<and> \<not> has_both (driven (demo_row bob_tech) (Some 3390) None)"
  by (simp add: demo_no_duration etaFromMinutes_None has_both_def demo_row_fields)

theorem ranking_order_witness:
  "sorted (map km (baseline demo_page demo_ticket))
   \<and> findClosest demo_page
       (gateway_only_for [''T2P1J9'', ''T2P 1J9'']
          (gateway_reply [Num (Fin 3400), Num (Fin 3390)] [Num (Fin 2000), Num (Fin 1990)]))
       demo_form
     = findClosest demo_page
         (gateway_reply [Num (Fin 3400), Num (Fin 3390)] [Num (Fin 2000), Num (Fin 1990)])
         demo_form
   \<and> (case findClosest demo_page
         (gateway_reply [Num (Fin 3400), Num (Fin 3390)] [Num (Fin 2000), Num (Fin 1990)])
         demo_form of
        Inl e \<Rightarrow> False
      | Inr r \<Rightarrow> mode r = Driving
          \<and> map (\<lambda>item. tech (fst item)) (topList r) = [bob_tech, ann_tech]
          \<and> map (\<lambda>item. driveMin (fst item)) (topList r) = [Some 1990, Some 2000])"
proof -
  note ro = ranking_order [where gw = "gateway_reply [Num (Fin 3400), Num (Fin 3390)]
          [Num (Fin 2000), Num (Fin 1990)]",
        OF demo_ticketPostal demo_ticket_ll]
  from ro have 1: "sorted (map km (baseline demo_page demo_ticket))" by blast
  from ro have cong: "\<forall>gw'. gw' ''K1A0B1''
        (map (\<lambda>x. postal (tech x)) (take 25 (baseline demo_page demo_ticket)))
      = gateway_reply [Num (Fin 3400), Num (Fin 3390)] [Num (Fin 2000), Num (Fin 1990)]
          ''K1A0B1'' (map (\<lambda>x. postal (tech x)) (take 25 (baseline demo_page demo_ticket)))
      \<longrightarrow> findClosest demo_page gw' demo_form
        = findClosest demo_page
            (gateway_reply [Num (Fin 3400), Num (Fin 3390)] [Num (Fin 2000), Num (Fin 1990)])
            demo_form"
    by blast
  have 2: "findClosest demo_page
       (gateway_only_for [''T2P1J9'', ''T2P 1J9'']
          (gateway_reply [Num (Fin 3400), Num (Fin 3390)] [Num (Fin 2000), Num (Fin 1990)]))
       demo_form
     = findClosest demo_page
         (gateway_reply [Num (Fin 3400), Num (Fin 3390)] [Num (Fin 2000), Num (Fin 1990)])
         demo_form"
    by (rule cong [rule_format]) (simp add: demo_request gateway_only_for_def)
  have 3: "case findClosest demo_page
         (gateway_reply [Num (Fin 3400), Num (Fin 3390)] [Num (Fin 2000), Num (Fin 1990)])
         demo_form of
        Inl e \<Rightarrow> False
      | Inr r \<Rightarrow> mode r = Driving
          \<and> map (\<lambda>item. tech (fst item)) (topList r) = [bob_tech, ann_tech]
          \<and> map (\<lambda>item. driveMin (fst item)) (topList r) = [Some 1990, Some 2000]"
    unfolding demo_driving by (simp add: demo_row_fields)
  from 1 2 3 show ?thesis by blast
qed

text \<open>
  Against C1 as stated. First reply: a duration of \<open>2e12\<close> minutes and a missing one;
  the candidate without a duration is ranked first. Second reply: durations and no
  distances; the gateway call succeeded, yet the final ranking is the baseline order
  (the 2000-minute technician before the 1990-minute one), in estimate mode.
\<close>

theorem ranking_order_counterexample:
  "findClosest demo_page
     (gateway_reply [Num (Fin 3400), Num (Fin 3390)] [Num (Fin 2000000000000), NotNum])
     demo_form
   = Inr \<lparr>mode = Driving, best = driven (demo_row ann_tech) (Some 3400) (Some 2000000000000),
          effFactor = None, shownDriveKm = 3400, eta = etaFromMinutes (Some 2000000000000),
          topList = [(driven (demo_row bob_tech) (Some 3390) None, False),
                     (driven (demo_row ann_tech) (Some 3400) (Some 2000000000000), True)]\<rparr>
   \<and> findClosest demo_page (gateway_reply [] [Num (Fin 2000), Num (Fin 1990)]) demo_form
   = Inr \<lparr>mode = Estimate, best = driven (demo_row ann_tech) None (Some 2000),
          effFactor = Some 7.5, shownDriveKm = haversineKm demo_ticket calgary * 7.5,
          eta = etaFromKm (Fin (haversineKm demo_ticket calgary * 7.5)) (Fin 80),
          topList = [(driven (demo_row ann_tech) None (Some 2000), False),
                     (driven (demo_row bob_tech) None (Some 1990), False)]\<rparr>"
  using demo_huge_duration demo_no_distance by (rule conjI)

text \<open>
  The ETA of 82 km: at 80 km/h the quotient is the number next below 1.025, so the
  remaining minutes are just under 1.5 and the page shows \<open>1h 1m\<close>; at the 130 km/h
  that a form asking for 200 gets, it shows \<open>38 min\<close>.
\<close>

lemma js_show_1: "js_show 1 = ''1''"
  by (simp add: js_show_def js_show_nat_def show_nat.simps digits_def)

lemma js_show_38: "js_show 38 = ''38''"
  by (simp add: js_show_def js_show_nat_def show_nat.simps digits_def)

theorem etaFromKm_format_witness:
  "etaFromKm (Fin 82) (Fin 80) = ''1h 1m''
   \<and> etaFromKm (Fin 82) (Fin 130) = ''38 min''
   \<and> speed \<lparr>postalInput = ''k1a 0b1'', ticketText = '''', driveFactor = Fin 1.25,
             speedKmh = Fin 200\<rparr> = 130
   \<and> speed demo_form = 80
   \<and> (case findClosest demo_page gateway_502 demo_form of
        Inl e \<Rightarrow> False
      | Inr r \<Rightarrow> mode r = Estimate \<and> eta r = etaFromKm (Fin (shownDriveKm r)) (Fin 80))"
proof -
  have k: "\<bar>82::real\<bar> < pow2 1024" by (simp add: pow2_def)
  have v80: "(20::real) \<le> 80" "(80::real) \<le> 130" by simp_all
  have v130: "(20::real) \<le> 130" "(130::real) \<le> 130" by simp_all
  note at80 = etaFromKm_format [OF k v80, of demo_form demo_page gateway_502]
  note at130 = etaFromKm_format [OF k v130,
      of "\<lparr>postalInput = ''k1a 0b1'', ticketText = '''', driveFactor = Fin 1.25,
            speedKmh = Fin 200\<rparr>" demo_page gateway_502]
  have 1: "etaFromKm (Fin 82) (Fin 80) = ''1h 1m''"
  proof -
    have r1: "round64 (82 / 80) = 4616189618054758 / 2 ^ 52"
      by (subst round64_eval [where e = 0]) (simp_all add: pow2_def round_even_def Let_def)
    have f1: "\<lfloor>(4616189618054758::real) / 2 ^ 52\<rfloor> = 1"
      by simp
    have r2: "round64 (4616189618054758 / 2 ^ 52 - real_of_int 1) = 7205759403792768 / 2 ^ 58"
      by (subst round64_eval [where e = "- 6"]) (simp_all add: pow2_def round_even_def Let_def)
    have r3: "round64 (7205759403792768 / 2 ^ 58 * 60) = 6755399441055720 / 2 ^ 52"
      by (subst round64_eval [where e = 0]) (simp_all add: pow2_def round_even_def Let_def)
    have j: "js_round (6755399441055720 / 2 ^ 52) = 1"
      by (simp add: js_round_def)
    from at80 have "etaFromKm (Fin 82) (Fin 80)
        = (if 1 \<le> round64 (82 / 80)
           then js_show \<lfloor>round64 (82 / 80)\<rfloor> @ ''h ''
                @ js_show (js_round (round64 (round64
                    (round64 (82 / 80) - real_of_int \<lfloor>round64 (82 / 80)\<rfloor>) * 60))) @ ''m''
           else js_show (js_round (round64 (round64
                    (round64 (82 / 80) - real_of_int \<lfloor>round64 (82 / 80)\<rfloor>) * 60))) @ '' min'')"
      by (simp add: Let_def)
    also have "\<dots> = ''1h 1m''"
      unfolding r1 f1 r2 r3 j by (simp add: js_show_1)
    finally show ?thesis .
  qed
  have 2: "etaFromKm (Fin 82) (Fin 130) = ''38 min''"
  proof -
    have r1: "round64 (82 / 130) = 5681464145298164 / 2 ^ 53"
      by (subst round64_eval [where e = "- 1"]) (simp_all add: pow2_def round_even_def Let_def)
    have f1: "\<lfloor>(5681464145298164::real) / 2 ^ 53\<rfloor> = 0"
      by simp
    have r2: "round64 (5681464145298164 / 2 ^ 53 - real_of_int 0) = 5681464145298164 / 2 ^ 53"
      by (subst round64_eval [where e = "- 1"]) (simp_all add: pow2_def round_even_def Let_def)
    have r3: "round64 (5681464145298164 / 2 ^ 53 * 60) = 5326372636217029 / 2 ^ 47"
      by (subst round64_eval [where e = 5]) (simp_all add: pow2_def round_even_def Let_def)
    have j: "js_round (5326372636217029 / 2 ^ 47) = 38"
      by (simp add: js_round_def)
    from at130 have "etaFromKm (Fin 82) (Fin 130)
        = (if 1 \<le> round64 (82 / 130)
           then js_show \<lfloor>round64 (82 / 130)\<rfloor> @ ''h ''
                @ js_show (js_round (round64 (round64
                    (round64 (82 / 130) - real_of_int \<lfloor>round64 (82 / 130)\<rfloor>) * 60))) @ ''m''
           else js_show (js_round (round64 (round64
                    (round64 (82 / 130) - real_of_int \<lfloor>round64 (82 / 130)\<rfloor>) * 60))) @ '' min'')"
      by (simp add: Let_def)
    also have "\<dots> = ''38 min''"
      unfolding r1 f1 r2 r3 j by (simp add: js_show_38)
    finally show ?thesis .
  qed
  have 3: "speed \<lparr>postalInput = ''k1a 0b1'', ticketText = '''', driveFactor = Fin 1.25,
             speedKmh = Fin 200\<rparr> = 130"
    using at130 by simp
  have 4: "speed demo_form = 80"
    using at80 by (simp add: demo_form_def)
  from at80 have "\<forall>r. findClosest demo_page gateway_502 demo_form = Inr r \<and> mode r = Estimate
                \<longrightarrow> eta r = etaFromKm (Fin (shownDriveKm r)) (Fin (speed demo_form))"
    by blast
  with 4 have 5: "case findClosest demo_page gateway_502 demo_form of
        Inl e \<Rightarrow> False
      | Inr r \<Rightarrow> mode r = Estimate \<and> eta r = etaFromKm (Fin (shownDriveKm r)) (Fin 80)"
    unfolding demo_gateway_502 by simp
  from 1 2 3 4 5 show ?thesis by blast
qed

section \<open>Properties of the routing gateway\<close>

subsection \<open>The matrix function loses the alignment\<close>

lemma normPostal_examples:
  "normPostal ''K1A 0B1'' = ''K1A0B1''" "normPostal ''M5V 2T6'' = ''M5V2T6''"
  "normPostal ''T2P 1J9'' = ''T2P1J9''" "normPostal '''' = ''''"
  "normPostal ''K1A0B1'' = ''K1A0B1''" "normPostal ''M5V2T6'' = ''M5V2T6''"
  "normPostal ''T2P1J9'' = ''T2P1J9''"
  by (simp_all add: normPostal_def toUpperCase_def upper_char_def is_upper_def is_digit_def
      upper_letters_def lower_letters_def digits_def)

lemma expand_back_single:
  "expand_back (Suc 0) [0] conv vals = [conv (nth_opt vals 0)]"
  by (simp add: expand_back_def)

text \<open>
  Claim C3 asks the gateway to return distance and duration arrays aligned index for
  index with the destinations it was sent, with \<open>null\<close> where a destination does not
  geocode, and never to let one destination's geocoding failure abort the batch. The
  matrix function does not: it drops a destination whose postal code normalizes to the
  empty string before geocoding (the arrays for \<open>["", "M5V 2T6"]\<close> have one entry,
  the second destination's, at index 0); a response of the geocoder that is not \<open>ok\<close>
  for one destination fails the whole request; and a batch whose only destination does
  not geocode is answered by an error instead of \<open>[null]\<close>.
\<close>

theorem handler_breaks_alignment:
  "handler ''key'' Map.empty (\<lambda>k. GeoHttp True (Some \<lparr>lat = 43.6426, lon = -79.3871\<rparr>))
     (\<lambda>src dests. MatrixHttp True [Num (Fin 450)] [Num (Fin 16200)])
     \<lparr>httpMethod = ''POST'',
      payload = Some \<lparr>ticket_postal = ''K1A 0B1'', tech_postals = ['''', ''M5V 2T6'']\<rparr>\<rparr>
   = resp 200 (BMatrix [Some (Fin 450)] [Some (Fin 270)])
   \<and> handler ''key'' Map.empty
     (\<lambda>k. if k = ''M5V2T6'' then GeoHttp False None
          else GeoHttp True (Some \<lparr>lat = 51.0447, lon = -114.0719\<rparr>))
     (\<lambda>src dests. MatrixHttp True [Num (Fin 450)] [Num (Fin 16200)])
     \<lparr>httpMethod = ''POST'',
      payload = Some \<lparr>ticket_postal = ''K1A 0B1'', tech_postals = [''M5V 2T6'', ''T2P 1J9'']\<rparr>\<rparr>
   = resp 200 (BErr (Caught GeocodeFailed))
   \<and> handler ''key'' Map.empty
     (\<lambda>k. if k = ''M5V2T6'' then GeoHttp True None
          else GeoHttp True (Some \<lparr>lat = 51.0447, lon = -114.0719\<rparr>))
     (\<lambda>src dests. MatrixHttp True [Num (Fin 450)] [Num (Fin 16200)])
     \<lparr>httpMethod = ''POST'',
      payload = Some \<lparr>ticket_postal = ''K1A 0B1'', tech_postals = [''M5V 2T6'']\<rparr>\<rparr>
   = resp 200 (BErr NoTechGeocode)"
  by (simp add: handler_def handler_try_def normPostal_examples geocodePostalCA_def
      matrixKmMin_def expand_back_single as_number_def div60_def nth_opt_def Let_def)

subsection \<open>The edge function's route keeps the alignment\<close>

text \<open>
  The other implementation of the route does what the claim says: its arrays have the
  length of \<open>techList\<close>, a destination that does not geocode (blank code, failed
  \<open>fetch\<close>, response not \<open>ok\<close>, no result) has \<open>null\<close> at its index, and no outcome
  of the geocoder makes the route answer with an error.
\<close>

lemma cache_ok_empty: "cache_ok nominatim Map.empty"
  by (simp add: cache_ok_def)

lemma geocodePostal_outcome:
  assumes "cache_ok nominatim geoCache"
  shows "(\<forall>e. geocodePostal geoCache nominatim t = Inl e \<longrightarrow> geocode_outcome nominatim t = None)
       \<and> (\<forall>g cache'. geocodePostal geoCache nominatim t = Inr (g, cache')
             \<longrightarrow> g = geocode_outcome nominatim t \<and> cache_ok nominatim cache')"
  using assms
  by (auto simp: geocodePostal_def geocode_outcome_def cache_ok_def Let_def
      split: option.splits nominatim_reply.splits if_splits)

lemma destinations_loop_idxMap:
  assumes "cache_ok nominatim geoCache"
    and "destinations_loop nominatim ts geoCache ds im = (ds', im')"
  shows "length im' = length im + length ts
       \<and> (\<forall>k < length im. im' ! k = im ! k)
       \<and> (\<forall>k < length ts. (im' ! (length im + k) = None)
                             = (geocode_outcome nominatim (ts ! k) = None))"
  using assms
proof (induction ts arbitrary: geoCache ds im)
  case Nil
  then show ?case by simp
next
  case (Cons t ts)
  note out = geocodePostal_outcome [OF Cons.prems(1), of t]
  show ?case
  proof (cases "geocodePostal geoCache nominatim t")
    case (Inl e)
    with out have none: "geocode_outcome nominatim t = None" by blast
    from Cons.prems(2) Inl
    have "destinations_loop nominatim ts geoCache ds (im @ [None]) = (ds', im')" by simp
    from Cons.IH [OF Cons.prems(1) this]
    have ih: "length im' = length (im @ [None]) + length ts"
      "\<forall>k < length (im @ [None]). im' ! k = (im @ [None]) ! k"
      "\<forall>k < length ts. (im' ! (length (im @ [None]) + k) = None)
                             = (geocode_outcome nominatim (ts ! k) = None)"
      by blast+
    have head: "im' ! length im = None" using ih(2) by (simp add: nth_append)
    have pre: "\<forall>k < length im. im' ! k = im ! k" using ih(2) by (simp add: nth_append)
    have rest: "\<forall>k < length (t # ts). (im' ! (length im + k) = None)
                             = (geocode_outcome nominatim ((t # ts) ! k) = None)"
    proof (intro allI impI)
      fix k assume "k < length (t # ts)"
      then show "(im' ! (length im + k) = None)
                             = (geocode_outcome nominatim ((t # ts) ! k) = None)"
        using head none ih(3) by (cases k) auto
    qed
    from ih(1) pre rest show ?thesis by simp
  next
    case (Inr res)
    obtain g cache' where res: "res = (g, cache')" by (cases res)
    with out Inr have g: "g = geocode_outcome nominatim t" and ok': "cache_ok nominatim cache'"
      by blast+
    show ?thesis
    proof (cases g)
      case None
      from Cons.prems(2) Inr res None
      have "destinations_loop nominatim ts cache' ds (im @ [None]) = (ds', im')" by simp
      from Cons.IH [OF ok' this]
      have ih: "length im' = length (im @ [None]) + length ts"
        "\<forall>k < length (im @ [None]). im' ! k = (im @ [None]) ! k"
        "\<forall>k < length ts. (im' ! (length (im @ [None]) + k) = None)
                             = (geocode_outcome nominatim (ts ! k) = None)"
        by blast+
      have head: "im' ! length im = None" using ih(2) by (simp add: nth_append)
      have pre: "\<forall>k < length im. im' ! k = im ! k" using ih(2) by (simp add: nth_append)
      have rest: "\<forall>k < length (t # ts). (im' ! (length im + k) = None)
                             = (geocode_outcome nominatim ((t # ts) ! k) = None)"
      proof (intro allI impI)
        fix k assume "k < length (t # ts)"
        then show "(im' ! (length im + k) = None)
                             = (geocode_outcome nominatim ((t # ts) ! k) = None)"
          using head g None ih(3) by (cases k) auto
      qed
      from ih(1) pre rest show ?thesis by simp
    next
      case (Some c)
      from Cons.prems(2) Inr res Some
      have "destinations_loop nominatim ts cache' (ds @ [c]) (im @ [Some (length ds)]) = (ds', im')"
        by simp
      from Cons.IH [OF ok' this]
      have ih: "length im' = length (im @ [Some (length ds)]) + length ts"
        "\<forall>k < length (im @ [Some (length ds)]). im' ! k = (im @ [Some (length ds)]) ! k"
        "\<forall>k < length ts. (im' ! (length (im @ [Some (length ds)]) + k) = None)
                             = (geocode_outcome nominatim (ts ! k) = None)"
        by blast+
      have head: "im' ! length im = Some (length ds)" using ih(2) by (simp add: nth_append)
      have gs: "geocode_outcome nominatim t = Some c" using g Some by simp
      have pre: "\<forall>k < length im. im' ! k = im ! k" using ih(2) by (simp add: nth_append)
      have rest: "\<forall>k < length (t # ts). (im' ! (length im + k) = None)
                             = (geocode_outcome nominatim ((t # ts) ! k) = None)"
      proof (intro allI impI)
        fix k assume "k < length (t # ts)"
        then show "(im' ! (length im + k) = None)
                             = (geocode_outcome nominatim ((t # ts) ! k) = None)"
          using head gs ih(3) by (cases k) auto
      qed
      from ih(1) pre rest show ?thesis by simp
    qed
  qed
qed

lemma fill_loop_length: "length (fill_loop idxMap row conv i arr) = length arr"
proof (induction idxMap row conv i arr rule: fill_loop.induct)
  case (1 idxMap row conv i arr)
  show ?case
    by (subst fill_loop.simps) (auto simp: 1 split: option.splits)
qed

lemma fill_loop_null:
  assumes "idxMap ! k = None" and "arr ! k = None"
  shows "fill_loop idxMap row conv i arr ! k = None"
  using assms
proof (induction idxMap row conv i arr rule: fill_loop.induct)
  case (1 idxMap row conv i arr)
  show ?case
  proof (cases "i < length idxMap")
    case False
    then show ?thesis using "1.prems" by (subst fill_loop.simps) simp
  next
    case True
    show ?thesis
    proof (cases "idxMap ! i")
      case None
      with True "1.IH"(1) "1.prems" show ?thesis by (subst fill_loop.simps) simp
    next
      case (Some di)
      then have ik: "i \<noteq> k" using "1.prems"(1) by auto
      show ?thesis
      proof (cases "finite_number (nth_opt row (di + 1))")
        case None
        with True Some "1.IH"(2) "1.prems" show ?thesis by (subst fill_loop.simps) simp
      next
        case (Some v)
        have "(arr[i := Some (Fin (conv v))]) ! k = None"
          using ik "1.prems"(2) by simp
        with True \<open>idxMap ! i = Some di\<close> Some "1.IH"(3) "1.prems"(1) show ?thesis
          by (subst fill_loop.simps) simp
      qed
    qed
  qed
qed

lemma ors_matrix_route_aligned:
  assumes "body (ors_matrix_route key nominatim ors req) = BMatrix ds ts"
  shows "length ds = length (techList req) \<and> length ts = length (techList req)
       \<and> (\<forall>i < length (techList req).
             geocode_outcome nominatim (techList req ! i) = None
             \<longrightarrow> ds ! i = None \<and> ts ! i = None)"
proof -
  obtain dests idxMap where loop:
    "destinations_loop nominatim (techList req) Map.empty [] [] = (dests, idxMap)"
    by (cases "destinations_loop nominatim (techList req) Map.empty [] []")
  from destinations_loop_idxMap [OF cache_ok_empty loop]
  have len: "length idxMap = length (techList req)"
    and fail: "\<forall>k < length (techList req).
      (idxMap ! k = None) = (geocode_outcome nominatim (techList req ! k) = None)"
    by simp_all
  have nulls: "\<And>k. k < length (techList req) \<Longrightarrow> map (\<lambda>t. None) (techList req) ! k = None"
    by simp
  have filled: "\<And>row conv k. k < length (techList req) \<Longrightarrow>
      geocode_outcome nominatim (techList req ! k) = None \<Longrightarrow>
      fill_loop idxMap row conv 0 (map (\<lambda>t. None) (techList req)) ! k = None"
    using fail nulls by (intro fill_loop_null) auto
  from assms consider
      (empty) "techList req = []" "ds = []" "ts = []"
    | (nothing) "ds = map (\<lambda>t. None) (techList req)" "ts = map (\<lambda>t. None) (techList req)"
    | (matrix) distRow durRow where
        "ds = fill_loop idxMap distRow km_2dp 0 (map (\<lambda>t. None) (techList req))"
        "ts = fill_loop idxMap durRow min_1dp 0 (map (\<lambda>t. None) (techList req))"
    by (auto simp: ors_matrix_route_def resp_def loop Let_def
        split: if_splits ors_reply2.splits option.splits prod.splits)
  then show ?thesis
  proof cases
    case empty
    then show ?thesis by simp
  next
    case nothing
    then show ?thesis by simp
  next
    case matrix
    then show ?thesis by (simp add: fill_loop_length filled)
  qed
qed

lemma ors_matrix_route_never_aborts:
  assumes "key \<noteq> ''''" "isFinite (job_lat req)" "isFinite (job_lng req)"
    and "\<forall>origin dests. \<exists>rows. ors origin dests = OrsHttp True (Some rows)"
  shows "\<exists>ds ts. ors_matrix_route key nominatim ors req = resp 200 (BMatrix ds ts)"
proof -
  obtain dests idxMap where loop:
    "destinations_loop nominatim (techList req) Map.empty [] [] = (dests, idxMap)"
    by (cases "destinations_loop nominatim (techList req) Map.empty [] []")
  from assms(4) obtain distRow durRow where
    "ors (job_lat req, job_lng req) dests = OrsHttp True (Some (distRow, durRow))"
    by (metis surj_pair)
  with assms(1-3) loop show ?thesis
    by (auto simp: ors_matrix_route_def Let_def)
qed

end
